(* ===== verification/Prelude.thy ===== *)
theory Prelude
  imports Main "HOL-Library.Word"
begin

text \<open>
  Shared vocabulary of the development: machine integers, byte buffers, the
  \<open>Result\<close> and \<open>Option\<close> combinators the Rust code uses, checked slice access, big-endian
  and little-endian integer codecs, and the collections of rewrite rules that the component
  theories use.  The file corresponds to no source file; it models the parts of the Rust
  standard library the code under \<open>src/rust\<close> relies on.
\<close>

unbundle bit_operations_syntax

named_theorems result_simps \<open>rewrite rules for the error monad\<close>
named_theorems slice_simps \<open>rewrite rules for checked slice access\<close>
named_theorems codec_defs \<open>definitions of the byte-level codecs\<close>

section \<open>Machine integers and buffers\<close>

type_synonym u8 = "8 word"
type_synonym u16 = "16 word"
type_synonym u32 = "32 word"
type_synonym u64 = "64 word"
type_synonym bytes = "u8 list"
type_synonym instant = nat \<comment> \<open>\<open>std::time::Instant\<close>, in nanoseconds\<close>
type_synonym duration = nat \<comment> \<open>\<open>std::time::Duration\<close>, in nanoseconds\<close>

definition from_secs :: "nat \<Rightarrow> duration" where
  "from_secs s = s * 1000000000"

definition from_millis :: "nat \<Rightarrow> duration" where
  "from_millis ms = ms * 1000000"

definition as_secs :: "duration \<Rightarrow> nat" where
  "as_secs d = d div 1000000000"

text \<open>
  \<open>Instant::duration_since\<close> and \<open>saturating_duration_since\<close> both saturate at zero, which is
  what subtraction on \<^typ>\<open>nat\<close> does.
\<close>

definition duration_since :: "instant \<Rightarrow> instant \<Rightarrow> duration" where
  "duration_since now t = now - t"

lemma as_secs_from_secs [simp]: "as_secs (from_secs s) = s"
  by (simp add: as_secs_def from_secs_def)

section \<open>Results\<close>

definition and_then :: "'e + 'a \<Rightarrow> ('a \<Rightarrow> 'e + 'b) \<Rightarrow> 'e + 'b" where
  "and_then r f = (case r of Inl e \<Rightarrow> Inl e | Inr a \<Rightarrow> f a)"

definition ok_or :: "'e \<Rightarrow> 'a option \<Rightarrow> 'e + 'a" where
  "ok_or e x = (case x of None \<Rightarrow> Inl e | Some a \<Rightarrow> Inr a)"

definition map_err :: "('e \<Rightarrow> 'f) \<Rightarrow> 'e + 'a \<Rightarrow> 'f + 'a" where
  "map_err f r = (case r of Inl e \<Rightarrow> Inl (f e) | Inr a \<Rightarrow> Inr a)"

definition is_ok :: "'e + 'a \<Rightarrow> bool" where
  "is_ok r = (case r of Inl _ \<Rightarrow> False | Inr _ \<Rightarrow> True)"

lemma and_then_simps [simp, result_simps]:
  "and_then (Inl e) f = Inl e"
  "and_then (Inr a) f = f a"
  by (simp_all add: and_then_def)

lemma and_then_Inr_iff [result_simps]:
  "and_then r f = Inr b \<longleftrightarrow> (\<exists>a. r = Inr a \<and> f a = Inr b)"
  by (cases r) auto

lemma and_then_Inl_iff [result_simps]:
  "and_then r f = Inl e \<longleftrightarrow> r = Inl e \<or> (\<exists>a. r = Inr a \<and> f a = Inl e)"
  by (cases r) auto

lemma ok_or_simps [simp, result_simps]:
  "ok_or e None = Inl e"
  "ok_or e (Some a) = Inr a"
  by (simp_all add: ok_or_def)

lemma ok_or_iff [result_simps]:
  "ok_or e x = Inr a \<longleftrightarrow> x = Some a"
  "ok_or e x = Inl e' \<longleftrightarrow> x = None \<and> e' = e"
  by (cases x; auto)+

lemma map_err_simps [simp, result_simps]:
  "map_err f (Inl e) = Inl (f e)"
  "map_err f (Inr a) = Inr a"
  by (simp_all add: map_err_def)

lemma map_err_iff [result_simps]:
  "map_err f r = Inr a \<longleftrightarrow> r = Inr a"
  "map_err f r = Inl e \<longleftrightarrow> (\<exists>e'. r = Inl e' \<and> e = f e')"
  by (cases r; auto)+

lemma is_ok_simps [simp, result_simps]:
  "is_ok (Inl e) = False"
  "is_ok (Inr a) = True"
  by (simp_all add: is_ok_def)

lemma is_ok_iff: "is_ok r \<longleftrightarrow> (\<exists>a. r = Inr a)"
  by (cases r) auto

text \<open>\<open>std::io::Error\<close>, identified by its message.\<close>

datatype io_error = IoError string

text \<open>A call that may panic (an index out of bounds) returns \<open>Panicked\<close>.\<close>

datatype 'a exec = Panicked | Returned 'a

fun exec_bind :: "'a exec \<Rightarrow> ('a \<Rightarrow> 'b exec) \<Rightarrow> 'b exec" where
  "exec_bind Panicked f = Panicked"
| "exec_bind (Returned a) f = f a"

lemma exec_bind_Returned_iff:
  "exec_bind r f = Returned b \<longleftrightarrow> (\<exists>a. r = Returned a \<and> f a = Returned b)"
  by (cases r) auto

lemma exec_bind_Panicked_iff:
  "exec_bind r f = Panicked \<longleftrightarrow> r = Panicked \<or> (\<exists>a. r = Returned a \<and> f a = Panicked)"
  by (cases r) auto

text \<open>\<open>Result::unwrap\<close> and \<open>Result::expect\<close>, and \<open>Result::unwrap_err\<close>.\<close>

definition unwrap :: "'e + 'a \<Rightarrow> 'a exec" where
  "unwrap r = (case r of Inl _ \<Rightarrow> Panicked | Inr a \<Rightarrow> Returned a)"

definition unwrap_err :: "'e + 'a \<Rightarrow> 'e exec" where
  "unwrap_err r = (case r of Inl e \<Rightarrow> Returned e | Inr _ \<Rightarrow> Panicked)"

lemma unwrap_simps [simp]: "unwrap (Inl e) = Panicked" "unwrap (Inr a) = Returned a"
  by (simp_all add: unwrap_def)

section \<open>Checked slice access\<close>

text \<open>\<open>xs.get(i)\<close>, \<open>xs.get(a..b)\<close>, \<open>xs.get(a..)\<close> and \<open>xs.first_chunk::<N>()\<close>.\<close>

definition get_at :: "'a list \<Rightarrow> nat \<Rightarrow> 'a option" where
  "get_at xs i = (if i < length xs then Some (xs ! i) else None)"

definition get_range :: "'a list \<Rightarrow> nat \<Rightarrow> nat \<Rightarrow> 'a list option" where
  "get_range xs a b = (if a \<le> b \<and> b \<le> length xs then Some (take (b - a) (drop a xs)) else None)"

definition get_from :: "'a list \<Rightarrow> nat \<Rightarrow> 'a list option" where
  "get_from xs a = (if a \<le> length xs then Some (drop a xs) else None)"

definition first_chunk :: "nat \<Rightarrow> 'a list \<Rightarrow> 'a list option" where
  "first_chunk n xs = (if n \<le> length xs then Some (take n xs) else None)"

lemma get_at_simps [slice_simps]:
  "i < length xs \<Longrightarrow> get_at xs i = Some (xs ! i)"
  "length xs \<le> i \<Longrightarrow> get_at xs i = None"
  by (simp_all add: get_at_def)

lemma get_range_simps [slice_simps]:
  "a \<le> b \<Longrightarrow> b \<le> length xs \<Longrightarrow> get_range xs a b = Some (take (b - a) (drop a xs))"
  "length xs < b \<Longrightarrow> get_range xs a b = None"
  by (simp_all add: get_range_def)

lemma get_from_simps [slice_simps]:
  "a \<le> length xs \<Longrightarrow> get_from xs a = Some (drop a xs)"
  "length xs < a \<Longrightarrow> get_from xs a = None"
  by (simp_all add: get_from_def)

lemma first_chunk_simps [slice_simps]:
  "n \<le> length xs \<Longrightarrow> first_chunk n xs = Some (take n xs)"
  "length xs < n \<Longrightarrow> first_chunk n xs = None"
  by (simp_all add: first_chunk_def)

lemma get_range_Some_length: "get_range xs a b = Some ys \<Longrightarrow> length ys = b - a"
  by (auto simp: get_range_def split: if_splits)

lemma take_eq_Cons: "n < length xs \<Longrightarrow> take (Suc n) xs = take n xs @ [xs ! n]"
  by (rule take_Suc_conv_app_nth)

section \<open>Integers on the wire\<close>

text \<open>
  \<open>to_be_bytes\<close>, \<open>from_be_bytes\<close> and their little-endian variants.  Rust's fixed arrays
  \<open>[u8; N]\<close> are explicit argument lists here, so no length can be wrong.
\<close>

definition be16 :: "u16 \<Rightarrow> bytes" where
  "be16 w = [ucast (drop_bit 8 w), ucast w]"

definition be32 :: "u32 \<Rightarrow> bytes" where
  "be32 w = be16 (ucast (drop_bit 16 w)) @ be16 (ucast w)"

definition be64 :: "u64 \<Rightarrow> bytes" where
  "be64 w = be32 (ucast (drop_bit 32 w)) @ be32 (ucast w)"

definition from_be16 :: "u8 \<Rightarrow> u8 \<Rightarrow> u16" where
  "from_be16 a b = push_bit 8 (ucast a) OR ucast b"

definition from_be32 :: "u8 \<Rightarrow> u8 \<Rightarrow> u8 \<Rightarrow> u8 \<Rightarrow> u32" where
  "from_be32 a b c d = push_bit 16 (ucast (from_be16 a b)) OR ucast (from_be16 c d)"

definition from_be64 :: "u8 \<Rightarrow> u8 \<Rightarrow> u8 \<Rightarrow> u8 \<Rightarrow> u8 \<Rightarrow> u8 \<Rightarrow> u8 \<Rightarrow> u8 \<Rightarrow> u64" where
  "from_be64 a b c d e f g h =
     push_bit 32 (ucast (from_be32 a b c d)) OR ucast (from_be32 e f g h)"

text \<open>\<open>slice.try_into().ok().map(u32::from_be_bytes)\<close> and the other widths.\<close>

fun slice_be16 :: "bytes \<Rightarrow> u16 option" where
  "slice_be16 [a, b] = Some (from_be16 a b)"
| "slice_be16 _ = None"

fun slice_be32 :: "bytes \<Rightarrow> u32 option" where
  "slice_be32 [a, b, c, d] = Some (from_be32 a b c d)"
| "slice_be32 _ = None"

fun slice_be64 :: "bytes \<Rightarrow> u64 option" where
  "slice_be64 [a, b, c, d, e, f, g, h] = Some (from_be64 a b c d e f g h)"
| "slice_be64 _ = None"

fun slice_le32 :: "bytes \<Rightarrow> u32 option" where
  "slice_le32 [a, b, c, d] = Some (from_be32 d c b a)"
| "slice_le32 _ = None"

lemma length_be [simp]:
  "length (be16 w) = 2" "length (be32 x) = 4" "length (be64 y) = 8"
  by (simp_all add: be16_def be32_def be64_def)

text \<open>Splitting a word into halves and joining them again, in both directions.\<close>

lemma join_halves16:
  "push_bit 8 (ucast (ucast (drop_bit 8 w) :: u8)) OR ucast (ucast w :: u8) = (w :: u16)"
  by (rule bit_word_eqI) (auto simp: bit_simps)

lemma join_halves32:
  "push_bit 16 (ucast (ucast (drop_bit 16 w) :: u16)) OR ucast (ucast w :: u16) = (w :: u32)"
  by (rule bit_word_eqI) (auto simp: bit_simps)

lemma join_halves64:
  "push_bit 32 (ucast (ucast (drop_bit 32 w) :: u32)) OR ucast (ucast w :: u32) = (w :: u64)"
  by (rule bit_word_eqI) (auto simp: bit_simps)

lemma high_half16: "ucast (drop_bit 8 (push_bit 8 (ucast a) OR ucast b :: u16)) = (a :: u8)"
  for b :: u8
  by (rule bit_word_eqI) (auto simp: bit_simps dest: bit_imp_le_length)

lemma high_half32: "ucast (drop_bit 16 (push_bit 16 (ucast a) OR ucast b :: u32)) = (a :: u16)"
  for b :: u16
  by (rule bit_word_eqI) (auto simp: bit_simps dest: bit_imp_le_length)

lemma high_half64: "ucast (drop_bit 32 (push_bit 32 (ucast a) OR ucast b :: u64)) = (a :: u32)"
  for b :: u32
  by (rule bit_word_eqI) (auto simp: bit_simps dest: bit_imp_le_length)

lemma low_half16: "ucast (push_bit 8 (ucast (a :: u8)) OR ucast b :: u16) = (b :: u8)"
  by (rule bit_word_eqI) (auto simp: bit_simps)

lemma low_half32: "ucast (push_bit 16 (ucast (a :: u16)) OR ucast b :: u32) = (b :: u16)"
  by (rule bit_word_eqI) (auto simp: bit_simps)

lemma low_half64: "ucast (push_bit 32 (ucast (a :: u32)) OR ucast b :: u64) = (b :: u32)"
  by (rule bit_word_eqI) (auto simp: bit_simps)

lemmas halves =
  high_half16 high_half32 high_half64 low_half16 low_half32 low_half64
  join_halves16 join_halves32 join_halves64

lemma be16_from_be16 [simp]: "be16 (from_be16 a b) = [a, b]"
  by (simp only: be16_def from_be16_def halves)

lemma be32_from_be32 [simp]: "be32 (from_be32 a b c d) = [a, b, c, d]"
  by (simp only: be32_def from_be32_def halves be16_from_be16 append_Cons append_Nil)

lemma be64_from_be64 [simp]: "be64 (from_be64 a b c d e f g h) = [a, b, c, d, e, f, g, h]"
  by (simp only: be64_def from_be64_def halves be32_from_be32 append_Cons append_Nil)

lemma from_be16_inverse: "be16 w = [a, b] \<Longrightarrow> from_be16 a b = w"
  by (auto simp: be16_def from_be16_def halves)

lemma from_be32_inverse: "be32 w = [a, b, c, d] \<Longrightarrow> from_be32 a b c d = w"
  by (auto simp: be32_def be16_def from_be32_def from_be16_def halves)

lemma from_be64_inverse: "be64 w = [a, b, c, d, e, f, g, h] \<Longrightarrow> from_be64 a b c d e f g h = w"
  by (auto simp: be64_def be32_def be16_def from_be64_def from_be32_def from_be16_def halves)

lemma be16_cases: obtains a b where "be16 w = [a, b]"
  by (simp add: be16_def)

lemma be32_cases: obtains a b c d where "be32 w = [a, b, c, d]"
  by (simp add: be32_def be16_def)

lemma be64_cases: obtains a b c d e f g h where "be64 w = [a, b, c, d, e, f, g, h]"
  by (simp add: be64_def be32_def be16_def)

lemma slice_be16_be16 [simp]: "slice_be16 (be16 w) = Some w"
  by (rule be16_cases [of w]) (simp add: from_be16_inverse)

lemma slice_be32_be32 [simp]: "slice_be32 (be32 w) = Some w"
  by (rule be32_cases [of w]) (simp add: from_be32_inverse)

lemma slice_be64_be64 [simp]: "slice_be64 (be64 w) = Some w"
  by (rule be64_cases [of w]) (simp add: from_be64_inverse)

lemma slice_be_Some_iff:
  "slice_be16 bs = Some x \<longleftrightarrow> bs = be16 x"
  "slice_be32 cs = Some y \<longleftrightarrow> cs = be32 y"
  "slice_be64 ds = Some z \<longleftrightarrow> ds = be64 z"
  by (auto elim: slice_be16.elims slice_be32.elims slice_be64.elims)

section \<open>Comparing words bit by bit\<close>

lemma u8_eq_iff: "(a :: u8) = b \<longleftrightarrow>
   (bit a 0 = bit b 0) \<and>
   (bit a 1 = bit b 1) \<and>
   (bit a 2 = bit b 2) \<and>
   (bit a 3 = bit b 3) \<and>
   (bit a 4 = bit b 4) \<and>
   (bit a 5 = bit b 5) \<and>
   (bit a 6 = bit b 6) \<and>
   (bit a 7 = bit b 7)"
  (is "_ \<longleftrightarrow> ?R")
proof
  assume R: ?R
  show "a = b"
  proof (rule bit_word_eqI)
    fix n assume "n < LENGTH(8)"
    then have "n \<in> {0, 1, 2, 3, 4, 5, 6, 7}" by simp arith
    then show "bit a n = bit b n" using R by (elim insertE emptyE) simp_all
  qed
qed simp

lemma u16_eqI:
  fixes a b :: u16
  shows "bit a 0 = bit b 0 \<Longrightarrow>
   bit a 1 = bit b 1 \<Longrightarrow>
   bit a 2 = bit b 2 \<Longrightarrow>
   bit a 3 = bit b 3 \<Longrightarrow>
   bit a 4 = bit b 4 \<Longrightarrow>
   bit a 5 = bit b 5 \<Longrightarrow>
   bit a 6 = bit b 6 \<Longrightarrow>
   bit a 7 = bit b 7 \<Longrightarrow>
   bit a 8 = bit b 8 \<Longrightarrow>
   bit a 9 = bit b 9 \<Longrightarrow>
   bit a 10 = bit b 10 \<Longrightarrow>
   bit a 11 = bit b 11 \<Longrightarrow>
   bit a 12 = bit b 12 \<Longrightarrow>
   bit a 13 = bit b 13 \<Longrightarrow>
   bit a 14 = bit b 14 \<Longrightarrow>
   bit a 15 = bit b 15 \<Longrightarrow> a = b"
proof (rule bit_word_eqI)
  fix n assume "n < LENGTH(16)"
  then have "n \<in> {0, 1, 2, 3, 4, 5, 6, 7, 8, 9, 10, 11, 12, 13, 14, 15}" by simp arith
  moreover assume "bit a 0 = bit b 0" "bit a 1 = bit b 1" "bit a 2 = bit b 2" "bit a 3 = bit b 3" "bit a 4 = bit b 4" "bit a 5 = bit b 5" "bit a 6 = bit b 6" "bit a 7 = bit b 7" "bit a 8 = bit b 8" "bit a 9 = bit b 9" "bit a 10 = bit b 10" "bit a 11 = bit b 11" "bit a 12 = bit b 12" "bit a 13 = bit b 13" "bit a 14 = bit b 14" "bit a 15 = bit b 15"
  ultimately show "bit a n = bit b n"
    by (elim insertE emptyE) simp_all
qed

end
