(* ===== verification/Codec.thy ===== *)
theory Codec
  imports Prelude
begin

text \<open>
  The interfaces between the codec components.  \<open>exact_codec\<close> is the contract of a decoder that
  consumes its whole buffer (\<open>SpacePacket::parse\<close> against \<open>PacketBuilder::build\<close>);
  \<open>fixed_codec\<close> is the contract of the fixed-width header codecs, which decode a prefix and
  ignore the rest (\<open>Cuc\<close>, \<open>PrimaryHeader\<close>, \<open>SecondaryHeader\<close>).  Both ask for the two
  directions: decoding undoes encoding on well-formed values, and an accepted buffer is the
  encoding of the value it decodes to, so there is one wire image per value.
\<close>

section \<open>Decoders of a whole buffer\<close>

locale exact_codec =
  fixes enc :: "'a \<Rightarrow> bytes"
    and dec :: "bytes \<Rightarrow> 'a option"
    and wf :: "'a \<Rightarrow> bool"
  assumes dec_enc: "wf x \<Longrightarrow> dec (enc x) = Some x"
    and dec_canonical: "dec bs = Some x \<Longrightarrow> wf x \<and> enc x = bs"
begin

lemma dec_iff: "dec bs = Some x \<longleftrightarrow> wf x \<and> bs = enc x"
  by (auto dest: dec_canonical dec_enc)

lemma enc_inj: "wf x \<Longrightarrow> wf y \<Longrightarrow> enc x = enc y \<longleftrightarrow> x = y"
  using dec_enc by (metis option.inject)

lemma dec_inj: "dec bs = Some x \<Longrightarrow> dec cs = Some x \<Longrightarrow> bs = cs"
  using dec_canonical by blast

lemma reencode: "dec bs = Some x \<Longrightarrow> dec (enc x) = Some x \<and> enc x = bs"
  by (auto dest: dec_canonical dec_enc)

lemma range_dec: "{bs. dec bs \<noteq> None} = enc ` {x. wf x}"
  by (auto simp: image_iff dec_enc dest: dec_canonical)

end

section \<open>Decoders of a fixed-width prefix\<close>

locale fixed_codec =
  fixes enc :: "'a \<Rightarrow> bytes"
    and dec :: "bytes \<Rightarrow> 'e + 'a"
    and width :: nat
    and wf :: "'a \<Rightarrow> bool"
  assumes enc_length: "length (enc x) = width"
    and dec_append: "wf x \<Longrightarrow> dec (enc x @ rest) = Inr x"
    and dec_prefix: "dec bs = Inr x \<Longrightarrow> wf x \<and> width \<le> length bs \<and> take width bs = enc x"
begin

definition dec_exact :: "bytes \<Rightarrow> 'a option" where
  "dec_exact bs =
     (if length bs = width then (case dec bs of Inl _ \<Rightarrow> None | Inr x \<Rightarrow> Some x) else None)"

sublocale exact: exact_codec enc dec_exact wf
proof unfold_locales
  fix x assume "wf x"
  then show "dec_exact (enc x) = Some x"
    using dec_append [of x "[]"] by (simp add: dec_exact_def enc_length)
next
  fix bs x assume "dec_exact bs = Some x"
  then have "length bs = width" "dec bs = Inr x"
    by (auto simp: dec_exact_def split: if_splits sum.splits)
  then show "wf x \<and> enc x = bs"
    using dec_prefix [of bs x] by simp
qed

lemma dec_iff: "dec bs = Inr x \<longleftrightarrow> wf x \<and> (\<exists>rest. bs = enc x @ rest)"
proof
  assume "dec bs = Inr x"
  then have "wf x" "bs = enc x @ drop width bs"
    using dec_prefix by (auto, metis append_take_drop_id)
  then show "wf x \<and> (\<exists>rest. bs = enc x @ rest)"
    by blast
next
  assume "wf x \<and> (\<exists>rest. bs = enc x @ rest)"
  then show "dec bs = Inr x"
    using dec_append by blast
qed

lemma dec_enc: "wf x \<Longrightarrow> dec (enc x) = Inr x"
  using dec_append [of x "[]"] by simp

lemma dec_ignores_rest: "dec bs = Inr x \<Longrightarrow> dec (bs @ rest) = Inr x"
  by (auto simp: dec_iff)

lemma dec_split:
  assumes "dec bs = Inr x"
  shows "bs = enc x @ drop width bs"
  using assms dec_prefix by (metis append_take_drop_id)

lemma prefix_free: "wf x \<Longrightarrow> wf y \<Longrightarrow> enc x @ r = enc y @ s \<Longrightarrow> x = y \<and> r = s"
  by (metis Inr_inject append_eq_append_conv dec_append enc_length)

end

section \<open>The integer codecs of the standard library\<close>

interpretation be16_codec: exact_codec be16 slice_be16 "\<lambda>_. True"
  by unfold_locales (auto simp: slice_be_Some_iff)

interpretation be32_codec: exact_codec be32 slice_be32 "\<lambda>_. True"
  by unfold_locales (auto simp: slice_be_Some_iff)

interpretation be64_codec: exact_codec be64 slice_be64 "\<lambda>_. True"
  by unfold_locales (auto simp: slice_be_Some_iff)

end
