(* ===== verification/Ccsds_Types.thy ===== *)
theory Ccsds_Types
  imports Prelude
begin

text \<open>
  The sealed newtypes of \<open>rust/ccsds_wire\<close>: \<open>CcsdsError\<close> (\<open>error.rs\<close>), \<open>PacketType\<close>
  (\<open>packet_type.rs\<close>), \<open>Apid\<close> (\<open>apid.rs\<close>), \<open>SequenceCount\<close>, \<open>PacketDataLength\<close>,
  \<open>FuncCode\<close> and \<open>InstanceId\<close> (\<open>primitives.rs\<close>).  A newtype is a one-constructor datatype;
  the private field of the source is the predicate \<open>..._ok\<close>, which every constructor function
  establishes.
\<close>

section \<open>Errors\<close>

datatype ccsds_error =
    BufferTooShort (need: nat) (got: nat)
  | InvalidVersion u8
  | InvalidPField u8
  | ApidOutOfRange u16
  | SequenceCountOutOfRange u16
  | InstanceIdReserved
  | LengthMismatch (declared: nat) (actual: nat)
  | SequenceFlagsNotStandalone u8
  | FuncCodeReserved

section \<open>Packet type\<close>

datatype packet_type = Tm | Tc

definition from_bit :: "u8 \<Rightarrow> packet_type" where
  "from_bit b = (if b AND 1 = 0 then Tm else Tc)"

fun as_bit :: "packet_type \<Rightarrow> u8" where
  "as_bit Tm = 0"
| "as_bit Tc = 1"

lemma from_bit_as_bit [simp]: "from_bit (as_bit t) = t"
  by (cases t) (simp_all add: from_bit_def)

lemma and_one_cases: "b AND (1 :: u8) = 0 \<or> b AND 1 = 1"
  by (cases "bit b 0") (auto simp: and_one_eq bit_0)

lemma as_bit_from_bit: "as_bit (from_bit b) = b AND 1"
  using and_one_cases [of b] by (auto simp: from_bit_def)

section \<open>Application process identifier\<close>

datatype apid = Apid (apid_get: u16)

definition apid_max :: u16 where
  "apid_max = 0x7FF"

definition apid_idle :: apid where
  "apid_idle = Apid apid_max"

definition apid_new :: "u16 \<Rightarrow> ccsds_error + apid" where
  "apid_new v = (if v > apid_max then Inl (ApidOutOfRange v) else Inr (Apid v))"

definition apid_ok :: "apid \<Rightarrow> bool" where
  "apid_ok a \<longleftrightarrow> apid_get a \<le> apid_max"

text \<open>Identifiers are ordered by their value; the idle identifier is the greatest valid one.\<close>

instantiation apid :: linorder
begin

definition less_eq_apid :: "apid \<Rightarrow> apid \<Rightarrow> bool" where
  "a \<le> b \<longleftrightarrow> apid_get a \<le> apid_get b"

definition less_apid :: "apid \<Rightarrow> apid \<Rightarrow> bool" where
  "a < b \<longleftrightarrow> apid_get a < apid_get b"

instance
  by standard (auto simp: less_eq_apid_def less_apid_def intro: apid.expand)

end

lemma apid_ok_le_idle: "apid_ok a \<longleftrightarrow> a \<le> apid_idle"
  by (simp add: apid_ok_def less_eq_apid_def apid_idle_def)

section \<open>Sequence count\<close>

datatype sequence_count = SequenceCount (sc_get: u16)

definition sc_max :: u16 where
  "sc_max = 0x3FFF"

definition sc_new :: "u16 \<Rightarrow> ccsds_error + sequence_count" where
  "sc_new v = (if v > sc_max then Inl (SequenceCountOutOfRange v) else Inr (SequenceCount v))"

definition sc_ok :: "sequence_count \<Rightarrow> bool" where
  "sc_ok s \<longleftrightarrow> sc_get s \<le> sc_max"

section \<open>Packet data length\<close>

datatype packet_data_length = PacketDataLength (pdl_get: u16)

definition pdl_max :: u16 where
  "pdl_max = 0xFFFF"

definition pdl_new :: "u16 \<Rightarrow> packet_data_length" where
  "pdl_new v = PacketDataLength v"

section \<open>Function code\<close>

datatype func_code = FuncCode (fc_get: u16)

definition fc_new :: "u16 \<Rightarrow> ccsds_error + func_code" where
  "fc_new v = (if v = 0 then Inl FuncCodeReserved else Inr (FuncCode v))"

definition fc_ok :: "func_code \<Rightarrow> bool" where
  "fc_ok f \<longleftrightarrow> fc_get f \<noteq> 0"

section \<open>Instance identifier\<close>

datatype instance_id = InstanceId (iid_get: u8)

definition iid_min :: u8 where
  "iid_min = 1"

definition iid_max :: u8 where
  "iid_max = 0xFF"

definition iid_new :: "u8 \<Rightarrow> ccsds_error + instance_id" where
  "iid_new v = (if v = 0 then Inl InstanceIdReserved else Inr (InstanceId v))"

definition iid_ok :: "instance_id \<Rightarrow> bool" where
  "iid_ok i \<longleftrightarrow> iid_get i \<noteq> 0"

section \<open>The constructors establish the invariants\<close>

lemma apid_new_iff: "apid_new v = Inr a \<longleftrightarrow> a = Apid v \<and> apid_ok a"
  by (cases a) (auto simp: apid_new_def apid_ok_def)

lemma sc_new_iff: "sc_new v = Inr s \<longleftrightarrow> s = SequenceCount v \<and> sc_ok s"
  by (cases s) (auto simp: sc_new_def sc_ok_def)

lemma fc_new_iff: "fc_new v = Inr f \<longleftrightarrow> f = FuncCode v \<and> fc_ok f"
  by (cases f) (auto simp: fc_new_def fc_ok_def)

lemma iid_new_iff: "iid_new v = Inr i \<longleftrightarrow> i = InstanceId v \<and> iid_ok i"
  by (cases i) (auto simp: iid_new_def iid_ok_def)

lemma new_get:
  "apid_ok a \<Longrightarrow> apid_new (apid_get a) = Inr a"
  "sc_ok s \<Longrightarrow> sc_new (sc_get s) = Inr s"
  "fc_ok f \<Longrightarrow> fc_new (fc_get f) = Inr f"
  "iid_ok i \<Longrightarrow> iid_new (iid_get i) = Inr i"
  by (simp_all add: apid_new_iff sc_new_iff fc_new_iff iid_new_iff)

lemma new_error_iff:
  "apid_new v = Inl e \<longleftrightarrow> v > 0x7FF \<and> e = ApidOutOfRange v"
  "sc_new v = Inl e \<longleftrightarrow> v > 0x3FFF \<and> e = SequenceCountOutOfRange v"
  "fc_new v = Inl e \<longleftrightarrow> v = 0 \<and> e = FuncCodeReserved"
  "iid_new b = Inl e \<longleftrightarrow> b = 0 \<and> e = InstanceIdReserved"
  by (auto simp: apid_new_def apid_max_def sc_new_def sc_max_def fc_new_def iid_new_def)

text \<open>The masks of the header decoders are the invariants.\<close>

lemma apid_ok_iff_mask: "apid_ok a \<longleftrightarrow> apid_get a AND 0x7FF = apid_get a"
proof -
  have "apid_get a AND mask 11 = apid_get a \<longleftrightarrow> uint (apid_get a) < 2 ^ 11"
    by (rule mask_eq_iff)
  moreover have "mask 11 = (0x7FF :: u16)"
    by (simp add: mask_eq_exp_minus_1)
  ultimately show ?thesis
    by (simp add: apid_ok_def apid_max_def word_le_def) arith
qed

lemma sc_ok_iff_mask: "sc_ok s \<longleftrightarrow> sc_get s AND 0x3FFF = sc_get s"
proof -
  have "sc_get s AND mask 14 = sc_get s \<longleftrightarrow> uint (sc_get s) < 2 ^ 14"
    by (rule mask_eq_iff)
  moreover have "mask 14 = (0x3FFF :: u16)"
    by (simp add: mask_eq_exp_minus_1)
  ultimately show ?thesis
    by (simp add: sc_ok_def sc_max_def word_le_def) arith
qed

end
