(* ===== verification/Ccsds_Headers.thy ===== *)
theory Ccsds_Headers
  imports Codec Ccsds_Types
begin

text \<open>
  The header codecs of \<open>rust/ccsds_wire\<close>: the seven-byte time stamp (\<open>cuc.rs\<close>), the six-byte
  primary header (\<open>primary.rs\<close>) and the ten-byte secondary header (\<open>secondary.rs\<close>).  Each one
  is an interpretation of \<open>fixed_codec\<close>.
\<close>

section \<open>CUC time stamps\<close>

record cuc =
  coarse :: u32
  fine :: u16

definition p_field :: u8 where
  "p_field = 0x2F"

definition cuc_encoded_len :: nat where
  "cuc_encoded_len = 7"

definition cuc_encode_be :: "cuc \<Rightarrow> bytes" where
  "cuc_encode_be c = [p_field] @ be32 (coarse c) @ be16 (fine c)"

definition cuc_decode_be :: "bytes \<Rightarrow> ccsds_error + cuc" where
  "cuc_decode_be buf =
     (case first_chunk cuc_encoded_len buf of
        None \<Rightarrow> Inl (BufferTooShort cuc_encoded_len (length buf))
      | Some head \<Rightarrow>
          (let p = head ! 0 in
           if p \<noteq> p_field then Inl (InvalidPField p)
           else Inr \<lparr>coarse = from_be32 (head ! 1) (head ! 2) (head ! 3) (head ! 4),
                     fine = from_be16 (head ! 5) (head ! 6)\<rparr>))"

section \<open>Primary header\<close>

record primary_header =
  ph_apid :: apid
  ph_type :: packet_type
  ph_seq :: sequence_count
  ph_len :: packet_data_length

definition primary_len :: nat where
  "primary_len = 6"

definition primary_new ::
  "apid \<Rightarrow> packet_type \<Rightarrow> sequence_count \<Rightarrow> packet_data_length \<Rightarrow> primary_header" where
  "primary_new a t s l = \<lparr>ph_apid = a, ph_type = t, ph_seq = s, ph_len = l\<rparr>"

definition primary_encode :: "primary_header \<Rightarrow> bytes" where
  "primary_encode h =
     (let apid_raw = apid_get (ph_apid h);
          seq_raw = sc_get (ph_seq h);
          pkt_id = 0x0800 OR push_bit 12 (ucast (as_bit (ph_type h))) OR (apid_raw AND 0x07FF);
          pkt_seq = 0xC000 OR (seq_raw AND 0x3FFF)
      in be16 pkt_id @ be16 pkt_seq @ be16 (pdl_get (ph_len h)))"

definition primary_decode :: "bytes \<Rightarrow> ccsds_error + primary_header" where
  "primary_decode buf =
     (case first_chunk primary_len buf of
        None \<Rightarrow> Inl (BufferTooShort primary_len (length buf))
      | Some head \<Rightarrow>
          (let b0 = head ! 0; b1 = head ! 1; b2 = head ! 2;
               b3 = head ! 3; b4 = head ! 4; b5 = head ! 5;
               top4 = (drop_bit 4 b0 AND 0b1110) OR (drop_bit 3 b0 AND 0b0001) in
           if top4 \<noteq> 0b0001 then Inl (InvalidVersion top4)
           else
             let pt = from_bit (drop_bit 4 b0 AND 0b0001);
                 apid_raw = push_bit 8 (ucast (b0 AND 0b0111)) OR ucast b1 in
             and_then (apid_new apid_raw) (\<lambda>a.
               let seq_flags = drop_bit 6 b2 AND 0b0011 in
               if seq_flags \<noteq> 0b0011 then Inl (SequenceFlagsNotStandalone seq_flags)
               else
                 let seq_raw = push_bit 8 (ucast (b2 AND 0b00111111)) OR ucast b3 in
                 and_then (sc_new seq_raw) (\<lambda>s.
                   Inr (primary_new a pt s (pdl_new (from_be16 b4 b5)))))))"

definition primary_ok :: "primary_header \<Rightarrow> bool" where
  "primary_ok h \<longleftrightarrow> apid_ok (ph_apid h) \<and> sc_ok (ph_seq h)"

section \<open>Secondary header\<close>

record secondary_header =
  sh_time :: cuc
  sh_func :: func_code
  sh_inst :: instance_id

definition secondary_len :: nat where
  "secondary_len = 10"

definition secondary_new :: "cuc \<Rightarrow> func_code \<Rightarrow> instance_id \<Rightarrow> secondary_header" where
  "secondary_new t f i = \<lparr>sh_time = t, sh_func = f, sh_inst = i\<rparr>"

definition time_suspect :: "secondary_header \<Rightarrow> bool" where
  "time_suspect h \<longleftrightarrow> fc_get (sh_func h) AND 0x0001 \<noteq> 0"

definition secondary_encode :: "secondary_header \<Rightarrow> bytes" where
  "secondary_encode h =
     cuc_encode_be (sh_time h) @ be16 (fc_get (sh_func h)) @ [iid_get (sh_inst h)]"

definition secondary_decode :: "bytes \<Rightarrow> ccsds_error + secondary_header" where
  "secondary_decode buf =
     (case first_chunk secondary_len buf of
        None \<Rightarrow> Inl (BufferTooShort secondary_len (length buf))
      | Some head \<Rightarrow>
          and_then (cuc_decode_be (take 7 head)) (\<lambda>t.
          and_then (fc_new (from_be16 (head ! 7) (head ! 8))) (\<lambda>f.
          and_then (iid_new (head ! 9)) (\<lambda>i.
            Inr (secondary_new t f i)))))"

definition secondary_ok :: "secondary_header \<Rightarrow> bool" where
  "secondary_ok h \<longleftrightarrow> fc_ok (sh_func h) \<and> iid_ok (sh_inst h)"

declare cuc_encoded_len_def [codec_defs] primary_len_def [codec_defs] secondary_len_def [codec_defs]

section \<open>The time stamp codec\<close>

lemma list_of_length_7: "7 \<le> length xs \<Longrightarrow>
  \<exists>a b c d e f g r. xs = [a, b, c, d, e, f, g] @ r"
  by (auto simp: numeral_eq_Suc Suc_le_length_iff)

lemma list_of_length_6: "6 \<le> length xs \<Longrightarrow> \<exists>a b c d e f r. xs = [a, b, c, d, e, f] @ r"
  by (auto simp: numeral_eq_Suc Suc_le_length_iff)

lemma list_of_length_10: "10 \<le> length xs \<Longrightarrow>
  \<exists>a b c d e f g h i j r. xs = [a, b, c, d, e, f, g, h, i, j] @ r"
  by (auto simp: numeral_eq_Suc Suc_le_length_iff)

lemma cuc_decode_cons:
  "cuc_decode_be (p # c0 # c1 # c2 # c3 # f0 # f1 # rest) =
     (if p \<noteq> p_field then Inl (InvalidPField p)
      else Inr \<lparr>coarse = from_be32 c0 c1 c2 c3, fine = from_be16 f0 f1\<rparr>)"
  by (simp add: cuc_decode_be_def codec_defs first_chunk_def Let_def)

lemma cuc_decode_short:
  "length buf < 7 \<Longrightarrow> cuc_decode_be buf = Inl (BufferTooShort 7 (length buf))"
  by (simp add: cuc_decode_be_def codec_defs first_chunk_def)

lemma cuc_encode_shape:
  obtains c0 c1 c2 c3 f0 f1 where
    "cuc_encode_be c = [p_field, c0, c1, c2, c3, f0, f1]"
    "from_be32 c0 c1 c2 c3 = coarse c" "from_be16 f0 f1 = fine c"
proof -
  obtain c0 c1 c2 c3 where c: "be32 (coarse c) = [c0, c1, c2, c3]"
    by (rule be32_cases)
  obtain f0 f1 where f: "be16 (fine c) = [f0, f1]"
    by (rule be16_cases)
  show ?thesis
    by (rule that [of c0 c1 c2 c3 f0 f1])
      (simp_all add: cuc_encode_be_def c f from_be32_inverse from_be16_inverse)
qed

interpretation cuc_codec: fixed_codec cuc_encode_be cuc_decode_be 7 "\<lambda>_. True"
proof unfold_locales
  fix c show "length (cuc_encode_be c) = 7"
    by (simp add: cuc_encode_be_def)
next
  fix c rest show "cuc_decode_be (cuc_encode_be c @ rest) = Inr c"
    by (rule cuc_encode_shape [of c]) (simp add: cuc_decode_cons)
next
  fix buf c assume dec: "cuc_decode_be buf = Inr c"
  then have "7 \<le> length buf"
    using cuc_decode_short [of buf] by (cases "length buf < 7") auto
  then obtain p a1 a2 a3 a4 a5 a6 r where buf: "buf = [p, a1, a2, a3, a4, a5, a6] @ r"
    using list_of_length_7 by blast
  with dec have "p = p_field" "c = \<lparr>coarse = from_be32 a1 a2 a3 a4, fine = from_be16 a5 a6\<rparr>"
    by (auto simp: cuc_decode_cons split: if_splits)
  then show "True \<and> 7 \<le> length buf \<and> take 7 buf = cuc_encode_be c"
    by (simp add: buf cuc_encode_be_def)
qed

section \<open>The primary header codec\<close>

lemma primary_decode_cons:
  "primary_decode (b0 # b1 # b2 # b3 # b4 # b5 # rest) =
     (let top4 = (drop_bit 4 b0 AND 0b1110) OR (drop_bit 3 b0 AND 0b0001) in
      if top4 \<noteq> 0b0001 then Inl (InvalidVersion top4)
      else and_then (apid_new (push_bit 8 (ucast (b0 AND 0b0111)) OR ucast b1)) (\<lambda>a.
        let seq_flags = drop_bit 6 b2 AND 0b0011 in
        if seq_flags \<noteq> 0b0011 then Inl (SequenceFlagsNotStandalone seq_flags)
        else and_then (sc_new (push_bit 8 (ucast (b2 AND 0b00111111)) OR ucast b3)) (\<lambda>s.
          Inr (primary_new a (from_bit (drop_bit 4 b0 AND 0b0001)) s
                 (pdl_new (from_be16 b4 b5))))))"
  unfolding primary_decode_def Let_def
  by (simp add: codec_defs first_chunk_def cong: if_cong)

lemma primary_decode_short:
  "length buf < 6 \<Longrightarrow> primary_decode buf = Inl (BufferTooShort 6 (length buf))"
  by (simp add: primary_decode_def codec_defs first_chunk_def)

text \<open>The bit layout of the two leading words, in both directions.\<close>

lemma top4_iff: "(drop_bit 4 b0 AND 0b1110) OR (drop_bit 3 b0 AND 0b0001) = (1 :: u8) \<longleftrightarrow>
  \<not> bit b0 7 \<and> \<not> bit b0 6 \<and> \<not> bit b0 5 \<and> bit b0 3"
  by (auto simp: u8_eq_iff bit_simps)

lemma seq_flags_iff: "drop_bit 6 b2 AND 0b0011 = (3 :: u8) \<longleftrightarrow> bit b2 7 \<and> bit b2 6"
  by (auto simp: u8_eq_iff bit_simps)

lemma pkt_id_top4:
  fixes a :: u16
  shows "(drop_bit 4 (ucast (drop_bit 8 (0x0800 OR push_bit 12 (ucast (as_bit t)) OR (a AND 0x07FF)))) AND 0b1110)
     OR (drop_bit 3 (ucast (drop_bit 8 (0x0800 OR push_bit 12 (ucast (as_bit t)) OR (a AND 0x07FF)))) AND 0b0001)
     = (1 :: u8)"
    and "from_bit (drop_bit 4 (ucast (drop_bit 8 (0x0800 OR push_bit 12 (ucast (as_bit t)) OR (a AND 0x07FF)))) AND 1)
     = t"
  unfolding top4_iff by (cases t; simp add: bit_simps from_bit_def u8_eq_iff)+

lemma pkt_id_apid:
  fixes a :: u16
  shows "push_bit 8 (ucast (ucast (drop_bit 8 (0x0800 OR push_bit 12 (ucast (as_bit t)) OR (a AND 0x07FF))) AND (0b0111 :: u8)))
     OR ucast (ucast (0x0800 OR push_bit 12 (ucast (as_bit t)) OR (a AND 0x07FF)) :: u8) = a AND 0x07FF"
  by (rule u16_eqI; cases t; simp add: bit_simps)

lemma pkt_seq_flags:
  "drop_bit 6 (ucast (drop_bit 8 (0xC000 OR (s AND 0x3FFF) :: u16))) AND 0b0011 = (3 :: u8)"
  by (simp add: u8_eq_iff bit_simps)

lemma pkt_seq_count:
  fixes s :: u16
  shows "push_bit 8 (ucast (ucast (drop_bit 8 (0xC000 OR (s AND 0x3FFF))) AND (0b00111111 :: u8)))
     OR ucast (ucast (0xC000 OR (s AND 0x3FFF)) :: u8) = s AND 0x3FFF"
  by (rule u16_eqI; simp add: bit_simps)

lemma pkt_id_join:
  assumes "(drop_bit 4 b0 AND 0b1110) OR (drop_bit 3 b0 AND 0b0001) = (1 :: u8)"
  shows "0x0800 OR push_bit 12 (ucast (as_bit (from_bit (drop_bit 4 b0 AND 1)))) OR
     ((push_bit 8 (ucast (b0 AND 0b0111)) OR ucast b1) AND 0x07FF) = from_be16 b0 b1"
  using assms unfolding top4_iff
  by (simp only: as_bit_from_bit from_be16_def)
    (rule u16_eqI; auto simp: bit_simps dest: bit_imp_le_length)

lemma pkt_seq_join:
  assumes "drop_bit 6 b2 AND 0b0011 = (3 :: u8)"
  shows "0xC000 OR ((push_bit 8 (ucast (b2 AND 0b00111111)) OR ucast b3) AND 0x3FFF)
     = from_be16 b2 b3"
  using assms unfolding seq_flags_iff from_be16_def
  by - (rule u16_eqI; auto simp: bit_simps dest: bit_imp_le_length)

text \<open>The masks keep the two sealed constructors on their success path.\<close>

lemma masked_apid_ok: "apid_ok (Apid (push_bit 8 (ucast (b0 AND (0b0111 :: u8))) OR ucast (b1 :: u8)))"
  unfolding apid_ok_iff_mask apid.sel
  by (rule u16_eqI; auto simp: bit_simps dest: bit_imp_le_length)

lemma masked_sc_ok:
  "sc_ok (SequenceCount (push_bit 8 (ucast (b2 AND (0b00111111 :: u8))) OR ucast (b3 :: u8)))"
  unfolding sc_ok_iff_mask sequence_count.sel
  by (rule u16_eqI; auto simp: bit_simps dest: bit_imp_le_length)

lemma masked_new [simp]:
  "apid_new (push_bit 8 (ucast (b0 AND (0b0111 :: u8))) OR ucast (b1 :: u8)) =
     Inr (Apid (push_bit 8 (ucast (b0 AND 0b0111)) OR ucast b1))"
  "sc_new (push_bit 8 (ucast (b2 AND (0b00111111 :: u8))) OR ucast (b3 :: u8)) =
     Inr (SequenceCount (push_bit 8 (ucast (b2 AND 0b00111111)) OR ucast b3))"
  using masked_apid_ok masked_sc_ok by (simp_all add: apid_new_iff sc_new_iff)

lemma primary_decode_words:
  assumes "be16 i = [b0, b1]" "be16 q = [b2, b3]" "be16 l = [b4, b5]"
    and "i = 0x0800 OR push_bit 12 (ucast (as_bit t)) OR (a AND 0x07FF)"
    and "q = 0xC000 OR (s AND 0x3FFF)"
    and "a AND 0x07FF = a" "s AND 0x3FFF = s"
  shows "primary_decode (b0 # b1 # b2 # b3 # b4 # b5 # rest) =
    Inr (primary_new (Apid a) t (SequenceCount s) (PacketDataLength l))"
proof -
  have b: "b0 = ucast (drop_bit 8 i)" "b1 = ucast i" "b2 = ucast (drop_bit 8 q)" "b3 = ucast q"
    using assms(1,2) by (simp_all add: be16_def)
  have l: "from_be16 b4 b5 = l"
    using assms(3) by (rule from_be16_inverse)
  have top4: "(drop_bit 4 b0 AND 0b1110) OR (drop_bit 3 b0 AND 0b0001) = 1"
    unfolding b assms(4) by (rule pkt_id_top4(1))
  have t: "from_bit (drop_bit 4 b0 AND 1) = t"
    unfolding b assms(4) by (rule pkt_id_top4(2))
  have a: "push_bit 8 (ucast (b0 AND 0b0111)) OR ucast b1 = a"
    unfolding b assms(4) pkt_id_apid by (rule assms(6))
  have f: "drop_bit 6 b2 AND 0b0011 = 3"
    unfolding b assms(5) by (rule pkt_seq_flags)
  have s: "push_bit 8 (ucast (b2 AND 0b00111111)) OR ucast b3 = s"
    unfolding b assms(5) pkt_seq_count by (rule assms(7))
  show ?thesis
    unfolding primary_decode_cons Let_def masked_new and_then_simps top4 f
    by (simp only: t a s l pdl_new_def) simp
qed

interpretation primary_codec: fixed_codec primary_encode primary_decode 6 primary_ok
proof unfold_locales
  fix h show "length (primary_encode h) = 6"
    by (simp add: primary_encode_def Let_def)
next
  fix h rest assume ok: "primary_ok h"
  obtain a t s l where h: "h = primary_new (Apid a) t (SequenceCount s) (PacketDataLength l)"
    by (cases h, cases "ph_apid h", cases "ph_seq h", cases "ph_len h") (auto simp: primary_new_def)
  define i where "i = 0x0800 OR push_bit 12 (ucast (as_bit t)) OR (a AND 0x07FF)"
  define q where "q = 0xC000 OR (s AND 0x3FFF)"
  have enc: "primary_encode h = be16 i @ be16 q @ be16 l"
    by (simp add: primary_encode_def h primary_new_def i_def q_def Let_def)
  obtain b0 b1 b2 b3 b4 b5 where
    b: "be16 i = [b0, b1]" "be16 q = [b2, b3]" "be16 l = [b4, b5]"
    using be16_cases by meson
  have "a AND 0x07FF = a" "s AND 0x3FFF = s"
    using ok by (simp_all add: primary_ok_def h primary_new_def apid_ok_iff_mask sc_ok_iff_mask)
  then have "primary_decode (b0 # b1 # b2 # b3 # b4 # b5 # rest) = Inr h"
    unfolding h by (intro primary_decode_words [OF b i_def q_def])
  then show "primary_decode (primary_encode h @ rest) = Inr h"
    by (simp add: enc b)
next
  fix buf h assume dec: "primary_decode buf = Inr h"
  then have len: "6 \<le> length buf"
    using primary_decode_short [of buf] by (cases "length buf < 6") auto
  then obtain b0 b1 b2 b3 b4 b5 r where buf: "buf = [b0, b1, b2, b3, b4, b5] @ r"
    using list_of_length_6 by blast
  from dec have top4: "(drop_bit 4 b0 AND 0b1110) OR (drop_bit 3 b0 AND 0b0001) = 1"
    and flags: "drop_bit 6 b2 AND 0b0011 = 3"
    and h: "h = primary_new (Apid (push_bit 8 (ucast (b0 AND 0b0111)) OR ucast b1))
      (from_bit (drop_bit 4 b0 AND 1)) (SequenceCount (push_bit 8 (ucast (b2 AND 0b00111111)) OR ucast b3))
      (PacketDataLength (from_be16 b4 b5))"
    by (auto simp: buf primary_decode_cons Let_def pdl_new_def split: if_splits)
  have "primary_encode h = be16 (from_be16 b0 b1) @ be16 (from_be16 b2 b3) @ be16 (from_be16 b4 b5)"
    unfolding h primary_encode_def Let_def primary_new_def
    by (simp only: primary_header.simps apid.sel sequence_count.sel packet_data_length.sel
        pkt_id_join [OF top4] pkt_seq_join [OF flags])
  moreover have "primary_ok h"
    by (simp add: primary_ok_def h primary_new_def masked_apid_ok masked_sc_ok)
  ultimately show "primary_ok h \<and> 6 \<le> length buf \<and> take 6 buf = primary_encode h"
    using len by (simp add: buf)
qed

section \<open>The secondary header codec\<close>

lemma secondary_decode_cons:
  "secondary_decode (p # c0 # c1 # c2 # c3 # f0 # f1 # g0 # g1 # n # rest) =
     and_then (cuc_decode_be [p, c0, c1, c2, c3, f0, f1]) (\<lambda>t.
     and_then (fc_new (from_be16 g0 g1)) (\<lambda>f.
     and_then (iid_new n) (\<lambda>i. Inr (secondary_new t f i))))"
  by (simp add: secondary_decode_def codec_defs first_chunk_def)

lemma secondary_decode_short:
  "length buf < 10 \<Longrightarrow> secondary_decode buf = Inl (BufferTooShort 10 (length buf))"
  by (simp add: secondary_decode_def codec_defs first_chunk_def)

interpretation secondary_codec: fixed_codec secondary_encode secondary_decode 10 secondary_ok
proof unfold_locales
  fix h show "length (secondary_encode h) = 10"
    by (simp add: secondary_encode_def cuc_codec.enc_length)
next
  fix h rest assume ok: "secondary_ok h"
  obtain t f i where h: "h = secondary_new t f i"
    by (cases h) (auto simp: secondary_new_def)
  obtain c0 c1 c2 c3 f0 f1 where t: "cuc_encode_be t = [p_field, c0, c1, c2, c3, f0, f1]"
    by (rule cuc_encode_shape)
  obtain g0 g1 where g: "be16 (fc_get f) = [g0, g1]"
    by (rule be16_cases)
  have "cuc_decode_be [p_field, c0, c1, c2, c3, f0, f1] = Inr t"
    using cuc_codec.dec_enc [of t] by (simp add: t)
  then show "secondary_decode (secondary_encode h @ rest) = Inr h"
    using ok by (simp add: h secondary_new_def secondary_encode_def t g secondary_decode_cons
        from_be16_inverse [OF g] secondary_ok_def new_get)
next
  fix buf h assume dec: "secondary_decode buf = Inr h"
  then have len: "10 \<le> length buf"
    using secondary_decode_short [of buf] by (cases "length buf < 10") auto
  then obtain p c0 c1 c2 c3 f0 f1 g0 g1 n r where
    buf: "buf = [p, c0, c1, c2, c3, f0, f1, g0, g1, n] @ r"
    using list_of_length_10 [OF len] by (elim exE) (rule that)
  from dec obtain t f i where t: "cuc_decode_be [p, c0, c1, c2, c3, f0, f1] = Inr t"
    and f: "fc_new (from_be16 g0 g1) = Inr f" and i: "iid_new n = Inr i"
    and h: "h = secondary_new t f i"
    by (auto simp: buf secondary_decode_cons and_then_Inr_iff)
  have "cuc_encode_be t = [p, c0, c1, c2, c3, f0, f1]"
    using cuc_codec.dec_prefix [OF t] by simp
  moreover have fi: "f = FuncCode (from_be16 g0 g1)" "i = InstanceId n"
    and ok: "fc_ok f" "iid_ok i"
    using f i unfolding fc_new_iff iid_new_iff by blast+
  ultimately have "take 10 buf = secondary_encode h"
    by (simp add: buf h secondary_encode_def secondary_new_def)
  then show "secondary_ok h \<and> 10 \<le> length buf \<and> take 10 buf = secondary_encode h"
    using ok len by (simp add: h secondary_ok_def secondary_new_def)
qed

section \<open>What the decoders reject\<close>

lemma primary_decode_Inl_cases:
  assumes "primary_decode buf = Inl e"
  shows "length buf < 6 \<and> e = BufferTooShort 6 (length buf)
    \<or> 6 \<le> length buf \<and> (\<exists>top4. top4 \<noteq> 1 \<and> e = InvalidVersion top4)
    \<or> 6 \<le> length buf \<and> (\<exists>fl. fl \<noteq> 3 \<and> e = SequenceFlagsNotStandalone fl)"
proof (cases "length buf < 6")
  case True
  with assms show ?thesis by (simp add: primary_decode_short)
next
  case False
  then obtain b0 b1 b2 b3 b4 b5 r where buf: "buf = [b0, b1, b2, b3, b4, b5] @ r"
    using list_of_length_6 [of buf] by auto
  from assms show ?thesis
    by (auto simp: buf primary_decode_cons Let_def split: if_splits)
qed

lemma time_suspect_iff: "time_suspect h \<longleftrightarrow> bit (fc_get (sh_func h)) 0"
  by (simp add: time_suspect_def and_one_eq bit_0 odd_iff_mod_2_eq_one)

end
