(* ===== verification/Ccsds_Packet.thy ===== *)
theory Ccsds_Packet
  imports Ccsds_Headers
begin

text \<open>
  \<open>SpacePacket\<close> (\<open>rust/ccsds_wire/src/packet.rs\<close>) and \<open>PacketBuilder\<close>
  (\<open>rust/ccsds_wire/src/builder.rs\<close>).  The parser and the builder together are an
  \<open>exact_codec\<close>: the builder's output parses to the same fields, and a buffer that parses is
  the one the builder makes from its fields.
\<close>

section \<open>Parsing\<close>

record space_packet =
  sp_primary :: primary_header
  sp_secondary :: secondary_header
  sp_user_data :: bytes

definition header_len :: nat where
  "header_len = primary_len + secondary_len"

definition sp_parse :: "bytes \<Rightarrow> ccsds_error + space_packet" where
  "sp_parse buf =
     (if length buf < header_len then Inl (BufferTooShort header_len (length buf))
      else and_then (primary_decode buf) (\<lambda>p.
        and_then (secondary_decode (drop primary_len buf)) (\<lambda>s.
          let declared_total = unat (pdl_get (ph_len p)) + 7 in
          if declared_total \<noteq> length buf then Inl (LengthMismatch declared_total (length buf))
          else Inr \<lparr>sp_primary = p, sp_secondary = s, sp_user_data = drop header_len buf\<rparr>)))"

definition total_len :: "space_packet \<Rightarrow> nat" where
  "total_len k = header_len + length (sp_user_data k)"

section \<open>Building\<close>

record packet_builder =
  pb_apid :: apid
  pb_type :: packet_type
  pb_seq :: "sequence_count option"
  pb_cuc :: cuc
  pb_func :: "func_code option"
  pb_inst :: "instance_id option"
  pb_data :: bytes

definition builder_new :: "apid \<Rightarrow> packet_type \<Rightarrow> packet_builder" where
  "builder_new a t =
     \<lparr>pb_apid = a, pb_type = t, pb_seq = None, pb_cuc = \<lparr>coarse = 0, fine = 0\<rparr>,
      pb_func = None, pb_inst = None, pb_data = []\<rparr>"

definition builder_tm :: "apid \<Rightarrow> packet_builder" where
  "builder_tm a = builder_new a Tm"

definition builder_tc :: "apid \<Rightarrow> packet_builder" where
  "builder_tc a = builder_new a Tc"

definition with_func_code :: "func_code \<Rightarrow> packet_builder \<Rightarrow> packet_builder" where
  "with_func_code f b = b\<lparr>pb_func := Some f\<rparr>"

definition with_instance_id :: "instance_id \<Rightarrow> packet_builder \<Rightarrow> packet_builder" where
  "with_instance_id i b = b\<lparr>pb_inst := Some i\<rparr>"

definition with_cuc :: "cuc \<Rightarrow> packet_builder \<Rightarrow> packet_builder" where
  "with_cuc c b = b\<lparr>pb_cuc := c\<rparr>"

definition with_sequence_count :: "sequence_count \<Rightarrow> packet_builder \<Rightarrow> packet_builder" where
  "with_sequence_count s b = b\<lparr>pb_seq := Some s\<rparr>"

definition with_user_data :: "bytes \<Rightarrow> packet_builder \<Rightarrow> packet_builder" where
  "with_user_data d b = b\<lparr>pb_data := d\<rparr>"

text \<open>
  \<open>usize\<close> values are natural numbers here.  \<open>10.checked_add(len).and_then(|n|
  n.checked_sub(1))\<close> cannot fail for the length of a \<open>Vec\<close> (at most \<open>isize::MAX\<close> bytes), so
  only the conversion to \<open>u16\<close> can.
\<close>

definition u16_max_total :: nat where
  "u16_max_total = 65535 + 7"

definition builder_build :: "packet_builder \<Rightarrow> ccsds_error + bytes" where
  "builder_build b =
     and_then (ok_or FuncCodeReserved (pb_func b)) (\<lambda>f.
     and_then (ok_or InstanceIdReserved (pb_inst b)) (\<lambda>i.
     and_then (case pb_seq b of None \<Rightarrow> sc_new 0 | Some s \<Rightarrow> Inr s) (\<lambda>s.
       let raw_dl = secondary_len + length (pb_data b) - 1 in
       if raw_dl > 65535 then Inl (LengthMismatch raw_dl u16_max_total)
       else
         let l = pdl_new (of_nat raw_dl);
             sec = secondary_new (pb_cuc b) f i;
             pri = primary_new (pb_apid b) (pb_type b) s l
         in Inr (primary_encode pri @ secondary_encode sec @ pb_data b))))"

section \<open>The wire image of a packet\<close>

text \<open>
  What the builder and the parser promise each other: a packet's image is its two headers
  followed by its user data, and the length field counts the bytes after the primary header,
  minus one.
\<close>

definition packet_image :: "space_packet \<Rightarrow> bytes" where
  "packet_image k =
     primary_encode (sp_primary k) @ secondary_encode (sp_secondary k) @ sp_user_data k"

definition packet_ok :: "space_packet \<Rightarrow> bool" where
  "packet_ok k \<longleftrightarrow> primary_ok (sp_primary k) \<and> secondary_ok (sp_secondary k) \<and>
     unat (pdl_get (ph_len (sp_primary k))) = 9 + length (sp_user_data k)"

definition parse_opt :: "bytes \<Rightarrow> space_packet option" where
  "parse_opt buf = (case sp_parse buf of Inl _ \<Rightarrow> None | Inr k \<Rightarrow> Some k)"

lemma header_len_16 [simp]: "header_len = 16"
  by (simp add: header_len_def codec_defs)

lemma length_packet_image [simp]: "length (packet_image k) = 16 + length (sp_user_data k)"
  by (simp add: packet_image_def primary_codec.enc_length secondary_codec.enc_length)

lemma sp_parse_image:
  assumes "packet_ok k"
  shows "sp_parse (packet_image k) = Inr k"
proof -
  have "primary_decode (packet_image k) = Inr (sp_primary k)"
    using assms by (simp add: packet_image_def packet_ok_def primary_codec.dec_append)
  moreover have "secondary_decode (drop primary_len (packet_image k)) = Inr (sp_secondary k)"
    using assms by (simp add: packet_image_def packet_ok_def primary_codec.enc_length
        primary_len_def secondary_codec.dec_append)
  moreover have "drop header_len (packet_image k) = sp_user_data k"
    by (simp add: packet_image_def primary_codec.enc_length secondary_codec.enc_length)
  ultimately show ?thesis
    using assms by (simp add: sp_parse_def packet_ok_def)
qed

lemma sp_parse_InrD:
  assumes "sp_parse buf = Inr k"
  shows "primary_decode buf = Inr (sp_primary k)"
    and "secondary_decode (drop 6 buf) = Inr (sp_secondary k)"
    and "length buf = unat (pdl_get (ph_len (sp_primary k))) + 7"
    and "sp_user_data k = drop 16 buf" and "16 \<le> length buf"
  using assms by (auto simp: sp_parse_def and_then_Inr_iff Let_def primary_len_def split: if_splits)

lemma sp_parse_canonical:
  assumes "sp_parse buf = Inr k"
  shows "packet_ok k \<and> packet_image k = buf"
proof -
  note p = sp_parse_InrD [OF assms]
  have "buf = primary_encode (sp_primary k) @ drop 6 buf"
    using primary_codec.dec_split [OF p(1)] .
  moreover have "drop 6 buf = secondary_encode (sp_secondary k) @ drop 16 buf"
    using secondary_codec.dec_split [OF p(2)] by simp
  moreover have "primary_ok (sp_primary k)" "secondary_ok (sp_secondary k)"
    using primary_codec.dec_prefix [OF p(1)] secondary_codec.dec_prefix [OF p(2)] by simp_all
  ultimately show ?thesis
    using p(3-5) by (simp add: packet_ok_def packet_image_def)
qed

interpretation packet_codec: exact_codec packet_image parse_opt packet_ok
proof unfold_locales
  fix k assume "packet_ok k"
  then show "parse_opt (packet_image k) = Some k"
    by (simp add: parse_opt_def sp_parse_image)
next
  fix buf k assume "parse_opt buf = Some k"
  then show "packet_ok k \<and> packet_image k = buf"
    by (auto simp: parse_opt_def dest: sp_parse_canonical split: sum.splits)
qed

lemma sp_parse_iff: "sp_parse buf = Inr k \<longleftrightarrow> packet_ok k \<and> buf = packet_image k"
  using sp_parse_image sp_parse_canonical by blast

section \<open>The builder makes packet images\<close>

definition builder_packet :: "packet_builder \<Rightarrow> func_code \<Rightarrow> instance_id \<Rightarrow> space_packet" where
  "builder_packet b f i =
     \<lparr>sp_primary = primary_new (pb_apid b) (pb_type b)
        (case pb_seq b of None \<Rightarrow> SequenceCount 0 | Some s \<Rightarrow> s)
        (PacketDataLength (of_nat (9 + length (pb_data b)))),
      sp_secondary = secondary_new (pb_cuc b) f i,
      sp_user_data = pb_data b\<rparr>"

definition builder_ok :: "packet_builder \<Rightarrow> bool" where
  "builder_ok b \<longleftrightarrow> apid_ok (pb_apid b)
     \<and> (case pb_seq b of None \<Rightarrow> True | Some s \<Rightarrow> sc_ok s)
     \<and> (case pb_func b of None \<Rightarrow> True | Some f \<Rightarrow> fc_ok f)
     \<and> (case pb_inst b of None \<Rightarrow> True | Some i \<Rightarrow> iid_ok i)"

lemma sc_new_0: "sc_new 0 = Inr (SequenceCount 0)"
  by (simp add: sc_new_def sc_max_def)

lemma builder_build_eq:
  "builder_build b =
     (case pb_func b of None \<Rightarrow> Inl FuncCodeReserved
      | Some f \<Rightarrow> (case pb_inst b of None \<Rightarrow> Inl InstanceIdReserved
        | Some i \<Rightarrow>
            if 9 + length (pb_data b) > 65535
            then Inl (LengthMismatch (9 + length (pb_data b)) 65542)
            else Inr (packet_image (builder_packet b f i))))"
  by (auto simp: builder_build_def Let_def secondary_len_def u16_max_total_def packet_image_def
      builder_packet_def sc_new_0 pdl_new_def split: option.splits)

lemma unat_u16_length: "n \<le> 65526 \<Longrightarrow> unat (9 + of_nat n :: u16) = 9 + n"
proof -
  assume "n \<le> 65526"
  then have "unat (of_nat (9 + n) :: u16) = 9 + n"
    by (simp only: unat_of_nat) simp
  then show ?thesis by simp
qed

lemma builder_packet_ok:
  assumes "builder_ok b" "pb_func b = Some f" "pb_inst b = Some i" "9 + length (pb_data b) \<le> 65535"
  shows "packet_ok (builder_packet b f i)"
  using assms
  by (auto simp: packet_ok_def builder_ok_def builder_packet_def primary_ok_def primary_new_def
      secondary_ok_def secondary_new_def sc_ok_def sc_max_def unat_u16_length split: option.splits)

lemma builder_build_InrD:
  assumes "builder_build b = Inr bs"
  obtains f i where "pb_func b = Some f" "pb_inst b = Some i" "9 + length (pb_data b) \<le> 65535"
    "bs = packet_image (builder_packet b f i)"
  using assms by (auto simp: builder_build_eq split: option.splits if_splits)

lemma builder_parse:
  assumes "builder_ok b" "builder_build b = Inr bs"
  shows "\<exists>f i. pb_func b = Some f \<and> pb_inst b = Some i \<and> sp_parse bs = Inr (builder_packet b f i)"
  using assms by (metis builder_build_InrD builder_packet_ok sp_parse_image)

text \<open>Feeding the fields of a packet back to the builder, as \<open>from_c_message\<close> does.\<close>

definition packet_fields_builder :: "space_packet \<Rightarrow> packet_builder" where
  "packet_fields_builder k =
     \<lparr>pb_apid = ph_apid (sp_primary k), pb_type = ph_type (sp_primary k),
      pb_seq = Some (ph_seq (sp_primary k)), pb_cuc = sh_time (sp_secondary k),
      pb_func = Some (sh_func (sp_secondary k)), pb_inst = Some (sh_inst (sp_secondary k)),
      pb_data = sp_user_data k\<rparr>"

lemma rebuild_packet:
  assumes "packet_ok k"
  shows "builder_build (packet_fields_builder k) = Inr (packet_image k)"
proof -
  have len: "unat (pdl_get (ph_len (sp_primary k))) = 9 + length (sp_user_data k)"
    using assms by (simp add: packet_ok_def)
  have "unat (pdl_get (ph_len (sp_primary k))) < 2 ^ LENGTH(16)"
    by (rule unsigned_less)
  then have bound: "9 + length (sp_user_data k) \<le> 65535"
    by (simp add: len)
  have "PacketDataLength (of_nat (9 + length (sp_user_data k))) = ph_len (sp_primary k)"
    by (cases "ph_len (sp_primary k)") (simp flip: len)
  then have "builder_packet (packet_fields_builder k) (sh_func (sp_secondary k))
      (sh_inst (sp_secondary k)) = k"
    by (simp add: builder_packet_def packet_fields_builder_def primary_new_def secondary_new_def)
  with bound show ?thesis
    by (simp add: builder_build_eq packet_fields_builder_def)
qed

section \<open>Properties\<close>

text \<open>
  C1: The parser accepts exactly the images of well-formed packets: a buffer parses to \<open>k\<close> if and
  only if \<open>k\<close> has an APID and a sequence count in range, a nonzero function code and instance
  identifier and a length field that counts its bytes, and the buffer is \<open>k\<close> encoded.
\<close>

theorem parse_accepts_exactly_images:
  "sp_parse buf = Inr k \<longleftrightarrow> packet_ok k \<and> buf = packet_image k"
  by (rule sp_parse_iff)

text \<open>
  C2: Whatever the builder emits parses back to the fields it was given (the sequence count
  defaulting to zero), and is sixteen bytes longer than the user data.
\<close>

theorem build_parse_roundtrip:
  assumes "builder_ok b" "builder_build b = Inr bs"
  shows "\<exists>k. sp_parse bs = Inr k \<and> ph_apid (sp_primary k) = pb_apid b
    \<and> ph_type (sp_primary k) = pb_type b
    \<and> ph_seq (sp_primary k) = (case pb_seq b of None \<Rightarrow> SequenceCount 0 | Some s \<Rightarrow> s)
    \<and> sh_time (sp_secondary k) = pb_cuc b \<and> pb_func b = Some (sh_func (sp_secondary k))
    \<and> pb_inst b = Some (sh_inst (sp_secondary k)) \<and> sp_user_data k = pb_data b
    \<and> length bs = total_len k"
  using builder_parse [OF assms] assms(2)
  by (auto simp: builder_packet_def primary_new_def secondary_new_def total_len_def
      elim!: builder_build_InrD)

definition example_builder :: packet_builder where
  "example_builder = with_user_data [1, 2] (with_instance_id (InstanceId 1)
     (with_func_code (FuncCode 5) (builder_tc (Apid 0x180))))"

lemmas example_builder_simps =
  example_builder_def with_user_data_def with_instance_id_def with_func_code_def
  builder_tc_def builder_new_def

lemma example_builder_builds: "is_ok (builder_build example_builder)"
  by (simp add: example_builder_simps builder_build_eq)

lemma example_builder_ok: "builder_ok example_builder"
  by (simp add: example_builder_simps builder_ok_def apid_ok_def apid_max_def fc_ok_def iid_ok_def)

theorem build_parse_roundtrip_witness:
  "\<exists>bs k. builder_build example_builder = Inr bs \<and> sp_parse bs = Inr k
     \<and> sp_user_data k = [1, 2] \<and> length bs = 18"
proof -
  obtain bs where bs: "builder_build example_builder = Inr bs"
    using example_builder_builds by (auto simp: is_ok_iff)
  show ?thesis
    using build_parse_roundtrip [OF example_builder_ok bs] bs
    by (auto simp: example_builder_simps total_len_def)
qed

text \<open>
  C37: The builder fails exactly when the function code is missing, or else the instance
  identifier is missing, or else the packet would not fit a sixteen-bit length field; the error
  names the first of these.
\<close>

theorem build_fails_exactly:
  "builder_build b = Inl e \<longleftrightarrow>
     (if pb_func b = None then e = FuncCodeReserved
      else if pb_inst b = None then e = InstanceIdReserved
      else length (pb_data b) > 65526 \<and> e = LengthMismatch (9 + length (pb_data b)) 65542)"
  by (auto simp: builder_build_eq split: option.splits)

lemma parse_resized:
  assumes "sp_parse buf = Inr k" "take 16 buf' = take 16 buf" "16 \<le> length buf'"
    "length buf' \<noteq> length buf"
  shows "sp_parse buf' = Inl (LengthMismatch (length buf) (length buf'))"
proof -
  note p = sp_parse_InrD [OF assms(1)]
  have "buf' = take 16 buf @ drop 16 buf'"
    using assms(2) by (metis append_take_drop_id)
  moreover have "take 16 buf = primary_encode (sp_primary k) @ secondary_encode (sp_secondary k)"
    using sp_parse_canonical [OF assms(1)]
    by (auto simp: packet_image_def primary_codec.enc_length secondary_codec.enc_length)
  ultimately have buf': "buf' =
      primary_encode (sp_primary k) @ secondary_encode (sp_secondary k) @ drop 16 buf'"
    by simp
  have ok: "packet_ok k" using sp_parse_canonical [OF assms(1)] by simp
  have d1: "primary_decode buf' = Inr (sp_primary k)"
    using ok by (subst buf') (simp add: packet_ok_def primary_codec.dec_append)
  have d2: "secondary_decode (drop 6 buf') = Inr (sp_secondary k)"
    using ok by (subst buf') (simp add: packet_ok_def primary_codec.enc_length
        secondary_codec.dec_append)
  show ?thesis
    using assms(3,4) p(3) d1 d2 by (simp add: sp_parse_def Let_def primary_len_def)
qed

text \<open>
  A packet buffer has one valid length.  Cutting bytes off a valid packet or adding bytes to
  it is reported as a length mismatch that carries both lengths, and never parses.
\<close>

theorem resized_packet_rejected:
  assumes "sp_parse buf = Inr k"
  shows "(ext \<noteq> [] \<longrightarrow> sp_parse (buf @ ext) =
            Inl (LengthMismatch (length buf) (length buf + length ext)))
       \<and> (16 \<le> n \<and> n < length buf \<longrightarrow> sp_parse (take n buf) = Inl (LengthMismatch (length buf) n))"
  using parse_resized [OF assms, of "buf @ ext"] parse_resized [OF assms, of "take n buf"]
    sp_parse_InrD(5) [OF assms] by simp

theorem resized_packet_rejected_witness:
  "\<exists>bs. builder_build example_builder = Inr bs \<and> sp_parse (bs @ [0]) = Inl (LengthMismatch 18 19)
     \<and> sp_parse (take 17 bs) = Inl (LengthMismatch 18 17)"
proof -
  obtain bs where bs: "builder_build example_builder = Inr bs"
    using example_builder_builds by (auto simp: is_ok_iff)
  obtain k where k: "sp_parse bs = Inr k"
    using builder_parse [OF example_builder_ok bs] by auto
  have "length bs = 18"
    using bs by (auto simp: builder_build_eq example_builder_simps builder_packet_def)
  then show ?thesis
    using resized_packet_rejected [OF k, of "[0]" 17] bs by auto
qed

section \<open>The ranges of the newtypes\<close>

text \<open>
  The fields of the newtypes are private, so outside the crate a value comes from a constructor
  that succeeded or out of a packet that was parsed; \<open>buildable\<close> are the builders that such values
  and the methods of \<open>PacketBuilder\<close> give.
\<close>

inductive buildable :: "packet_builder \<Rightarrow> bool" where
  new: "apid_new v = Inr a \<or> (sp_parse buf = Inr k \<and> a = ph_apid (sp_primary k)) \<Longrightarrow>
    b \<in> {builder_new a t, builder_tm a, builder_tc a} \<Longrightarrow> buildable b"
| func: "fc_new w = Inr f \<or> (sp_parse buf = Inr k \<and> f = sh_func (sp_secondary k)) \<Longrightarrow>
    buildable b \<Longrightarrow> buildable (with_func_code f b)"
| inst: "iid_new x = Inr i \<or> (sp_parse buf = Inr k \<and> i = sh_inst (sp_secondary k)) \<Longrightarrow>
    buildable b \<Longrightarrow> buildable (with_instance_id i b)"
| count: "sc_new n = Inr s \<or> (sp_parse buf = Inr k \<and> s = ph_seq (sp_primary k)) \<Longrightarrow>
    buildable b \<Longrightarrow> buildable (with_sequence_count s b)"
| time: "buildable b \<Longrightarrow> buildable (with_cuc c b)"
| data: "buildable b \<Longrightarrow> buildable (with_user_data d b)"

lemma parsed_in_range:
  assumes "sp_parse buf = Inr k"
  shows "apid_ok (ph_apid (sp_primary k))" "sc_ok (ph_seq (sp_primary k))"
    "fc_ok (sh_func (sp_secondary k))" "iid_ok (sh_inst (sp_secondary k))"
  using assms by (simp_all add: sp_parse_iff packet_ok_def primary_ok_def secondary_ok_def)

lemma buildable_ok: "buildable b \<Longrightarrow> builder_ok b"
proof (induction rule: buildable.induct)
  case (new v a buf k b t)
  then have "apid_ok a" using parsed_in_range(1) by (auto simp: apid_new_iff)
  then show ?case
    using new(2) by (auto simp: builder_ok_def builder_new_def builder_tm_def builder_tc_def)
next
  case (func w f buf k b)
  then show ?case using parsed_in_range(3) by (auto simp: builder_ok_def with_func_code_def fc_new_iff)
next
  case (inst x i buf k b)
  then show ?case using parsed_in_range(4) by (auto simp: builder_ok_def with_instance_id_def iid_new_iff)
next
  case (count n s buf k b)
  then show ?case using parsed_in_range(2) by (auto simp: builder_ok_def with_sequence_count_def sc_new_iff)
qed (simp_all add: builder_ok_def with_cuc_def with_user_data_def)

text \<open>
  C3: The newtypes keep their ranges.  Every packet that \<open>parse\<close> accepts, and every packet built
  from a builder that the interface of the crate can make, has an APID of eleven bits, a sequence
  count of fourteen bits, a function code and an instance identifier that are not zero, and a
  length field that agrees with its size; a built packet carries the APID of its builder.
\<close>

theorem packets_well_typed:
  assumes "sp_parse buf = Inr k \<or> (buildable b \<and> builder_build b = Inr buf)"
  shows "\<exists>k. sp_parse buf = Inr k \<and> apid_get (ph_apid (sp_primary k)) \<le> 0x7FF
    \<and> sc_get (ph_seq (sp_primary k)) \<le> 0x3FFF \<and> fc_get (sh_func (sp_secondary k)) \<noteq> 0
    \<and> iid_get (sh_inst (sp_secondary k)) \<noteq> 0 \<and> unat (pdl_get (ph_len (sp_primary k))) + 7 = length buf
    \<and> (builder_build b = Inr buf \<longrightarrow> buildable b \<longrightarrow> ph_apid (sp_primary k) = pb_apid b)"
proof -
  obtain k where k: "sp_parse buf = Inr k" "buildable b \<and> builder_build b = Inr buf \<Longrightarrow> ph_apid (sp_primary k) = pb_apid b"
    using assms builder_parse [OF buildable_ok, of b buf]
    by (cases "buildable b \<and> builder_build b = Inr buf")
      (auto simp: builder_packet_def primary_new_def elim!: builder_build_InrD)
  then show ?thesis
    using parsed_in_range [OF k(1)]
    by (auto simp: apid_ok_def apid_max_def sc_ok_def sc_max_def fc_ok_def iid_ok_def sp_parse_iff
        packet_ok_def)
qed

lemma example_buildable: "buildable example_builder"
  unfolding example_builder_def
  by (intro buildable.data buildable.inst [where x = 1 and i = "InstanceId 1"]
      buildable.func [where w = 5 and f = "FuncCode 5"] buildable.new [where v = "0x180" and a = "Apid 0x180"])
    (simp_all add: iid_new_iff fc_new_iff apid_new_iff iid_ok_def fc_ok_def apid_ok_def apid_max_def)

theorem packets_well_typed_witness:
  "\<exists>buf k. builder_build example_builder = Inr buf \<and> sp_parse buf = Inr k
     \<and> unat (pdl_get (ph_len (sp_primary k))) + 7 = length buf \<and> ph_apid (sp_primary k) = Apid 0x180"
proof -
  obtain bs where bs: "builder_build example_builder = Inr bs"
    using example_builder_builds by (auto simp: is_ok_iff)
  then show ?thesis
    using packets_well_typed [OF disjI2 [OF conjI [OF example_buildable bs]]] example_buildable
    by (auto simp: example_builder_simps)
qed

end
