(* ===== verification/Cfs_Bindings.thy ===== *)
theory Cfs_Bindings
  imports Ccsds_Packet
begin

text \<open>
  The safe wrappers of \<open>rust/cfs_bindings\<close>: \<open>MsgId\<close>, \<open>Message\<close> and \<open>SbBuffer\<close>
  (\<open>src/message.rs\<close>) and the conversions \<open>to_c_message\<close> and \<open>from_c_message\<close>
  (\<open>src/convert.rs\<close>).  The bindgen output is generated at build time and is not modelled.
\<close>

section \<open>Message identifiers\<close>

datatype msg_id = MsgId (mid_raw: u16)

definition mid_from_apid :: "apid \<Rightarrow> bool \<Rightarrow> msg_id" where
  "mid_from_apid a is_cmd = MsgId ((if is_cmd then 0x1800 else 0x0800) OR apid_get a)"

definition mid_apid :: "msg_id \<Rightarrow> ccsds_error + apid" where
  "mid_apid m = apid_new (mid_raw m AND apid_max)"

definition mid_is_command :: "msg_id \<Rightarrow> bool" where
  "mid_is_command m \<longleftrightarrow> mid_raw m AND 0x1000 \<noteq> 0"

section \<open>Validated messages and staging buffers\<close>

datatype message = Message (msg_bytes: bytes)

definition message_from_bytes :: "bytes \<Rightarrow> ccsds_error + message" where
  "message_from_bytes bs = and_then (sp_parse bs) (\<lambda>_. Inr (Message bs))"

definition message_as_space_packet :: "message \<Rightarrow> ccsds_error + space_packet" where
  "message_as_space_packet m = sp_parse (msg_bytes m)"

definition message_msg_id :: "message \<Rightarrow> ccsds_error + msg_id" where
  "message_msg_id m =
     and_then (sp_parse (msg_bytes m)) (\<lambda>k.
       let is_cmd = (ph_type (sp_primary k) = Tc) in
       Inr (mid_from_apid (ph_apid (sp_primary k)) is_cmd))"

datatype sb_buffer = SbBuffer (sbb_bytes: bytes)

definition sb_from_bytes :: "bytes \<Rightarrow> ccsds_error + sb_buffer" where
  "sb_from_bytes bs =
     (if length bs < header_len then Inl (BufferTooShort header_len (length bs))
      else Inr (SbBuffer bs))"

definition sb_into_message :: "sb_buffer \<Rightarrow> ccsds_error + message" where
  "sb_into_message b = message_from_bytes (sbb_bytes b)"

section \<open>Conversions\<close>

definition to_c_message :: "bytes \<Rightarrow> ccsds_error + message" where
  "to_c_message buf = message_from_bytes buf"

definition from_c_message :: "message \<Rightarrow> ccsds_error + bytes" where
  "from_c_message m =
     and_then (message_as_space_packet m) (\<lambda>k.
       let builder = (case ph_type (sp_primary k) of
             Tc \<Rightarrow> builder_tc (ph_apid (sp_primary k))
           | Tm \<Rightarrow> builder_tm (ph_apid (sp_primary k)))
       in builder_build
            (with_user_data (sp_user_data k)
            (with_sequence_count (ph_seq (sp_primary k))
            (with_cuc (sh_time (sp_secondary k))
            (with_instance_id (sh_inst (sp_secondary k))
            (with_func_code (sh_func (sp_secondary k)) builder))))))"

definition message_ok :: "message \<Rightarrow> bool" where
  "message_ok m \<longleftrightarrow> is_ok (sp_parse (msg_bytes m))"

section \<open>Lemmas\<close>

lemma message_from_bytes_iff:
  "message_from_bytes bs = Inr m \<longleftrightarrow> m = Message bs \<and> message_ok m"
  by (cases m) (auto simp: message_from_bytes_def message_ok_def and_then_Inr_iff is_ok_iff)

lemma builder_of_packet:
  "with_user_data (sp_user_data k)
     (with_sequence_count (ph_seq (sp_primary k))
     (with_cuc (sh_time (sp_secondary k))
     (with_instance_id (sh_inst (sp_secondary k))
     (with_func_code (sh_func (sp_secondary k))
       (case ph_type (sp_primary k) of
          Tc \<Rightarrow> builder_tc (ph_apid (sp_primary k))
        | Tm \<Rightarrow> builder_tm (ph_apid (sp_primary k))))))) = packet_fields_builder k"
  by (cases "ph_type (sp_primary k)")
    (simp_all add: with_user_data_def with_sequence_count_def with_cuc_def with_instance_id_def
      with_func_code_def builder_tc_def builder_tm_def builder_new_def packet_fields_builder_def)

lemma from_c_message_ok:
  assumes "sp_parse (msg_bytes m) = Inr k"
  shows "from_c_message m = Inr (msg_bytes m)"
proof -
  have "packet_ok k" "packet_image k = msg_bytes m"
    using sp_parse_canonical [OF assms] by simp_all
  then show ?thesis
    by (simp add: from_c_message_def message_as_space_packet_def assms builder_of_packet
        rebuild_packet)
qed

lemma mid_bits:
  assumes "apid_ok a"
  shows "((if c then 0x1800 else 0x0800) OR apid_get a) AND 0x7FF = apid_get a"
    and "((if c then 0x1800 else 0x0800) OR apid_get a) AND 0x1000 = (if c then 0x1000 else 0)"
proof -
  have masked: "apid_get a = apid_get a AND 0x7FF"
    using assms by (simp add: apid_ok_iff_mask)
  show "((if c then 0x1800 else 0x0800) OR apid_get a) AND 0x7FF = apid_get a"
    by (subst (1 2) masked, rule u16_eqI; cases c; simp add: bit_simps)
  show "((if c then 0x1800 else 0x0800) OR apid_get a) AND 0x1000 = (if c then 0x1000 else 0)"
    by (subst masked, rule u16_eqI; cases c; simp add: bit_simps)
qed

section \<open>Properties\<close>

text \<open>
  C38: Crossing the C boundary loses nothing: a buffer that \<open>to_c_message\<close> accepts comes back
  byte for byte from \<open>from_c_message\<close>, even though the latter re-encodes every header field.
\<close>

theorem c_message_roundtrip:
  assumes "to_c_message buf = Inr m"
  shows "from_c_message m = Inr buf \<and> message_as_space_packet m = sp_parse buf"
  using assms
  by (auto simp: to_c_message_def message_from_bytes_iff message_ok_def is_ok_iff
      message_as_space_packet_def from_c_message_ok)

lemma example_packet_parses: "\<exists>bs. builder_build example_builder = Inr bs \<and> is_ok (sp_parse bs)"
  using example_builder_builds builder_parse [OF example_builder_ok] by (auto simp: is_ok_iff)

theorem c_message_roundtrip_witness:
  "\<exists>bs m. builder_build example_builder = Inr bs \<and> to_c_message bs = Inr m \<and> from_c_message m = Inr bs"
proof -
  obtain bs where bs: "builder_build example_builder = Inr bs" "is_ok (sp_parse bs)"
    using example_packet_parses by blast
  then have m: "to_c_message bs = Inr (Message bs)"
    by (simp add: to_c_message_def message_from_bytes_iff message_ok_def)
  show ?thesis using c_message_roundtrip [OF m] m bs(1) by blast
qed

text \<open>
  The message identifier of a validated message decodes to the APID of its packet, and its
  command bit is set exactly for telecommand packets.
\<close>

theorem message_id_decodes:
  assumes "message_msg_id m = Inr i" "sp_parse (msg_bytes m) = Inr k"
  shows "mid_apid i = Inr (ph_apid (sp_primary k))
    \<and> (mid_is_command i \<longleftrightarrow> ph_type (sp_primary k) = Tc)"
proof -
  have ok: "apid_ok (ph_apid (sp_primary k))"
    using sp_parse_canonical [OF assms(2)] by (simp add: packet_ok_def primary_ok_def)
  have i: "i = mid_from_apid (ph_apid (sp_primary k)) (ph_type (sp_primary k) = Tc)"
    using assms by (simp add: message_msg_id_def Let_def)
  show ?thesis
    using new_get(1) [OF ok]
    by (simp add: i mid_from_apid_def mid_apid_def mid_is_command_def apid_max_def mid_bits [OF ok])
qed

theorem message_id_decodes_witness:
  "\<exists>bs i. builder_build example_builder = Inr bs \<and> message_msg_id (Message bs) = Inr i
     \<and> mid_apid i = Inr (Apid 0x180) \<and> mid_is_command i"
proof -
  obtain bs where bs: "builder_build example_builder = Inr bs"
    using example_builder_builds by (auto simp: is_ok_iff)
  obtain k where k: "sp_parse bs = Inr k" "ph_apid (sp_primary k) = Apid 0x180"
      "ph_type (sp_primary k) = Tc"
    using builder_parse [OF example_builder_ok bs]
    by (auto simp: builder_packet_def primary_new_def example_builder_simps)
  have i: "message_msg_id (Message bs) = Inr (mid_from_apid (Apid 0x180) True)"
    by (simp add: message_msg_id_def k)
  show ?thesis using message_id_decodes [OF i] k bs i by auto
qed

end
