(* ===== verification/Rate_Limit.thy ===== *)
theory Rate_Limit
  imports Prelude
begin

text \<open>
  The event rate limit that \<open>ingest/framer.rs\<close>, \<open>ingest/demux.rs\<close>, \<open>ingest/decoder.rs\<close> and
  \<open>uplink/cop1.rs\<close> share: an optional time of the last emission, a minimum interval, and the test
  \<open>last.is_none_or(|t| now - t >= interval)\<close>.  The locale states what a limiter does to its
  state; its lemmas bound how often the event can be emitted over any run.
\<close>

definition rate_gate :: "duration \<Rightarrow> instant option \<Rightarrow> instant \<Rightarrow> bool" where
  "rate_gate interval prev now =
     (case prev of None \<Rightarrow> True | Some t \<Rightarrow> interval \<le> duration_since now t)"

lemma rate_gate_simps [simp]:
  "rate_gate i None now"
  "rate_gate i (Some t) now \<longleftrightarrow> i \<le> now - t"
  by (simp_all add: rate_gate_def duration_since_def)

text \<open>Consecutive times at least \<open>d\<close> apart.\<close>

fun spaced :: "nat \<Rightarrow> nat list \<Rightarrow> bool" where
  "spaced d [] = True"
| "spaced d [t] = True"
| "spaced d (t # u # ts) = (t + d \<le> u \<and> spaced d (u # ts))"

lemma spaced_snoc: "spaced d (ts @ [u]) \<longleftrightarrow> spaced d ts \<and> (ts \<noteq> [] \<longrightarrow> last ts + d \<le> u)"
  by (induction d ts rule: spaced.induct) auto

text \<open>At most \<open>n div d + 1\<close> spaced times fit into an interval of length \<open>n\<close>.\<close>

lemma spaced_last: "spaced d (t # ts) \<Longrightarrow> t + d * length ts \<le> last (t # ts)"
proof (induction ts arbitrary: t)
  case (Cons u ts)
  then have "t + d \<le> u" "u + d * length ts \<le> last (u # ts)" by auto
  then show ?case by simp
qed simp

lemma spaced_count:
  assumes "spaced d ts" "0 < d" "\<forall>t\<in>set ts. lo \<le> t \<and> t \<le> hi"
  shows "length ts \<le> (hi - lo) div d + 1"
proof (cases ts)
  case (Cons t us)
  have "last ts \<in> set ts" using Cons by simp
  then have "last (t # us) \<le> hi" "lo \<le> t" using assms(3) Cons by auto
  moreover have "t + d * length us \<le> last (t # us)"
    using assms(1) Cons spaced_last by blast
  ultimately have "d * length us \<le> hi - lo" by simp
  then have "length us \<le> (hi - lo) div d"
    using assms(2) by (metis div_le_mono nonzero_mult_div_cancel_left not_gr0)
  then show ?thesis using Cons by simp
qed simp

text \<open>
  The times at which a state machine emits its event while it works through a list of inputs.
\<close>

fun emission_times ::
  "('s \<Rightarrow> 'i \<Rightarrow> 's) \<Rightarrow> ('s \<Rightarrow> 'i \<Rightarrow> bool) \<Rightarrow> ('i \<Rightarrow> instant) \<Rightarrow> 's \<Rightarrow> 'i list \<Rightarrow> instant list" where
  "emission_times step emits time_of s [] = []"
| "emission_times step emits time_of s (i # is) =
     (if emits s i then [time_of i] else []) @ emission_times step emits time_of (step s i) is"

locale rate_limiter =
  fixes step :: "'s \<Rightarrow> 'i \<Rightarrow> 's"
    and emits :: "'s \<Rightarrow> 'i \<Rightarrow> bool"
    and attempts :: "'s \<Rightarrow> 'i \<Rightarrow> bool"
    and time_of :: "'i \<Rightarrow> instant"
    and last_emit :: "'s \<Rightarrow> instant option"
    and interval :: duration
  assumes emits_iff: "emits s i \<longleftrightarrow> attempts s i \<and> rate_gate interval (last_emit s) (time_of i)"
    and step_last: "last_emit (step s i) = (if emits s i then Some (time_of i) else last_emit s)"
begin

abbreviation times :: "'s \<Rightarrow> 'i list \<Rightarrow> instant list" where
  "times \<equiv> emission_times step emits time_of"

lemma times_subset: "set (times s is) \<subseteq> time_of ` set is"
  by (induction "is" arbitrary: s) auto

lemma times_spaced_from:
  assumes "sorted (map time_of is)"
  shows "spaced interval (times s is) \<and>
    (\<forall>l. last_emit s = Some l \<longrightarrow> times s is \<noteq> [] \<longrightarrow> interval \<le> hd (times s is) - l)"
  using assms
proof (induction "is" arbitrary: s)
  case (Cons i "is")
  have IH: "spaced interval (times (step s i) is)"
    "\<And>l. last_emit (step s i) = Some l \<Longrightarrow> times (step s i) is \<noteq> [] \<Longrightarrow>
       interval \<le> hd (times (step s i) is) - l"
    using Cons.IH [of "step s i"] Cons.prems by simp_all
  show ?case
  proof (cases "emits s i")
    case False
    then show ?thesis using IH by (simp add: step_last)
  next
    case True
    have "times (step s i) is \<noteq> [] \<Longrightarrow> hd (times (step s i) is) \<in> time_of ` set is"
      using times_subset [of "step s i" "is"] by (auto simp: subset_iff)
    then have "times (step s i) is \<noteq> [] \<Longrightarrow> time_of i \<le> hd (times (step s i) is)"
      using Cons.prems by auto
    moreover have "times (step s i) is \<noteq> [] \<Longrightarrow> interval \<le> hd (times (step s i) is) - time_of i"
      by (rule IH(2)) (simp_all add: step_last True)
    ultimately have "spaced interval (time_of i # times (step s i) is)"
      using IH(1) by (cases "times (step s i) is") auto
    then show ?thesis
      using True emits_iff [of s i] by auto
  qed
qed simp

lemma times_spaced: "sorted (map time_of is) \<Longrightarrow> spaced interval (times s is)"
  using times_spaced_from by blast

lemma suppressed_only_recently:
  assumes "attempts s i" "\<not> emits s i"
  shows "\<exists>l. last_emit s = Some l \<and> time_of i - l < interval"
  using assms by (cases "last_emit s") (auto simp: emits_iff)

lemma first_attempt_emits: "last_emit s = None \<Longrightarrow> attempts s i \<Longrightarrow> emits s i"
  by (simp add: emits_iff)

end

end
