(* ===== verification/Uplink_Cop1.thy ===== *)
theory Uplink_Cop1
  imports Rate_Limit
begin

text \<open>
  The uplink constants of \<open>rust/ground_station/src/uplink/mod.rs\<close> and the FOP-1 engine of
  \<open>rust/ground_station/src/uplink/cop1.rs\<close>.  A call that reads the clock takes the instant as an
  argument.  The \<open>tokio\<close> watch channel is what one \<open>tick\<close> sees of it: whether a new value was
  published, and the current value.  An early return of \<open>tick\<close> is an \<open>Inl\<close>.
\<close>

section \<open>Constants and types\<close>

definition cop1_window_size :: u8 where "cop1_window_size = 15"
definition tc_frame_max_bytes :: nat where "tc_frame_max_bytes = 512"
definition cop1_max_retransmit :: u8 where "cop1_max_retransmit = 3"
definition cop1_stale_warn_mult :: nat where "cop1_stale_warn_mult = 3"
definition cop1_stale_abort_mult :: nat where "cop1_stale_abort_mult = 10"
definition clcw_stale_event_interval :: duration where "clcw_stale_event_interval = from_secs 1"

datatype fop1_state = Initial | Initializing | Active | RetransmitWithoutWait | RetransmitWithWait

datatype tc_frame_type = TypeAd | TypeBd | TypeBc

record tc_frame =
  tf_vc_id :: u8
  tf_type :: tc_frame_type
  tf_seq :: u8
  tf_payload :: bytes

datatype cop1_error = NotInActiveState fop1_state | WindowFull

type_synonym cop1_window = "(u8 \<times> bytes) list"

record cop1 =
  c_state :: fop1_state
  c_vs :: u8
  c_window :: cop1_window
  c_retx :: u8
  c_t1_deadline :: "instant option"
  c_t1 :: duration
  c_last_clcw :: "instant option"
  c_last_stale :: "instant option"

datatype cop1_log = AbortLog u8 | ClcwStale duration

section \<open>Operations\<close>

definition cop1_new :: "duration \<Rightarrow> cop1" where
  "cop1_new t1 =
     \<lparr>c_state = Initial, c_vs = 0, c_window = [], c_retx = 0, c_t1_deadline = None, c_t1 = t1,
      c_last_clcw = None, c_last_stale = None\<rparr>"

definition cop1_initialize :: "cop1 \<Rightarrow> tc_frame \<times> cop1" where
  "cop1_initialize e =
     (\<lparr>tf_vc_id = 0, tf_type = TypeBc, tf_seq = 0, tf_payload = [0]\<rparr>,
      e\<lparr>c_state := Initializing, c_vs := 0, c_window := [], c_retx := 0, c_t1_deadline := None\<rparr>)"

definition cop1_submit :: "cop1 \<Rightarrow> instant \<Rightarrow> bytes \<Rightarrow> (cop1_error + tc_frame list) \<times> cop1" where
  "cop1_submit e now spp =
     (if c_state e \<noteq> Active then (Inl (NotInActiveState (c_state e)), e)
      else if length (c_window e) \<ge> unat cop1_window_size then (Inl WindowFull, e)
      else
        let seq = c_vs e;
            e' = e\<lparr>c_vs := c_vs e + 1, c_window := c_window e @ [(seq, spp)],
                   c_t1_deadline := (case c_t1_deadline e of None \<Rightarrow> Some (now + c_t1 e) | Some d \<Rightarrow> Some d)\<rparr>
        in (Inr [\<lparr>tf_vc_id = 0, tf_type = TypeAd, tf_seq = seq, tf_payload = spp\<rparr>], e'))"

definition emergency_bd :: "bytes \<Rightarrow> tc_frame" where
  "emergency_bd spp = \<lparr>tf_vc_id = 7, tf_type = TypeBd, tf_seq = 0, tf_payload = spp\<rparr>"

definition seq_before :: "u8 \<Rightarrow> u8 \<Rightarrow> bool" where
  "seq_before seq nr = (let diff = nr - seq in diff \<noteq> 0 \<and> diff \<le> 128)"

definition abort_to_initial :: "cop1 \<Rightarrow> cop1_log \<times> cop1" where
  "abort_to_initial e =
     (AbortLog (c_retx e),
      e\<lparr>c_state := Initial, c_window := [], c_retx := 0, c_t1_deadline := None\<rparr>)"

definition oldest_frame :: "cop1 \<Rightarrow> tc_frame list" where
  "oldest_frame e =
     (case c_window e of
        [] \<Rightarrow> []
      | (seq, payload) # _ \<Rightarrow>
          [\<lparr>tf_vc_id = 0, tf_type = TypeAd, tf_seq = seq, tf_payload = payload\<rparr>])"

text \<open>The acknowledgement loop of \<open>tick\<close>: window, retransmit count and timer.\<close>

fun ack_window ::
  "u8 \<Rightarrow> cop1_window \<Rightarrow> u8 \<Rightarrow> instant option \<Rightarrow> cop1_window \<times> u8 \<times> instant option" where
  "ack_window nr [] n t1 = ([], n, t1)"
| "ack_window nr ((seq, p) # w) n t1 =
     (if seq_before seq nr then ack_window nr w 0 (if w = [] then None else t1)
      else ((seq, p) # w, n, t1))"

type_synonym tick_result = "tc_frame list \<times> cop1_log list \<times> cop1"

text \<open>Count a retransmission, then abort at the limit or enter the given state and resend.\<close>

definition bump_or_abort :: "cop1 \<Rightarrow> (cop1 \<Rightarrow> cop1) \<Rightarrow> tick_result" where
  "bump_or_abort e enter =
     (let e1 = e\<lparr>c_retx := c_retx e + 1\<rparr> in
      if c_retx e1 \<ge> cop1_max_retransmit
      then (let (l, e2) = abort_to_initial e1 in ([], [l], e2))
      else (let e2 = enter e1 in (oldest_frame e2, [], e2)))"

definition tick_clcw :: "cop1 \<Rightarrow> instant \<Rightarrow> bytes \<Rightarrow> tick_result + cop1" where
  "tick_clcw e now clcw =
     (let lockout = drop_bit 7 (clcw ! 2) AND 1;
          retransmit = drop_bit 5 (clcw ! 2) AND 1;
          nr = clcw ! 3;
          (w, n, t1) = ack_window nr (c_window e) (c_retx e) (c_t1_deadline e);
          e1 = e\<lparr>c_last_clcw := Some now, c_window := w, c_retx := n, c_t1_deadline := t1\<rparr>
      in case c_state e1 of
           Initializing \<Rightarrow>
             Inr (if lockout = 0 \<and> retransmit = 0 then e1\<lparr>c_state := Active\<rparr> else e1)
         | Active \<Rightarrow>
             if lockout = 0 \<and> retransmit = 1
             then Inl (bump_or_abort e1 (\<lambda>e2. e2\<lparr>c_state := RetransmitWithoutWait\<rparr>))
             else Inr e1
         | RetransmitWithoutWait \<Rightarrow>
             if lockout = 0 \<and> retransmit = 1 then Inl (bump_or_abort e1 (\<lambda>e2. e2))
             else if lockout = 0 \<and> retransmit = 0 then Inr (e1\<lparr>c_state := Active, c_retx := 0\<rparr>)
             else Inr e1
         | RetransmitWithWait \<Rightarrow>
             if lockout = 0 \<and> retransmit = 1 then Inl (bump_or_abort e1 (\<lambda>e2. e2))
             else if lockout = 0 \<and> retransmit = 0 then Inr (e1\<lparr>c_state := Active, c_retx := 0\<rparr>)
             else Inr e1
         | Initial \<Rightarrow> Inr e1)"

definition tick_timer :: "cop1 \<Rightarrow> instant \<Rightarrow> tick_result + cop1" where
  "tick_timer e now =
     (case c_t1_deadline e of
        None \<Rightarrow> Inr e
      | Some deadline \<Rightarrow>
          if now \<ge> deadline \<and> (c_state e = Active \<or> c_state e = RetransmitWithWait)
          then Inl (bump_or_abort e (\<lambda>e2. e2\<lparr>c_state := RetransmitWithWait,
                                             c_t1_deadline := Some (now + c_t1 e)\<rparr>))
          else Inr e)"

definition tick_stale :: "cop1 \<Rightarrow> instant \<Rightarrow> cop1_log list \<times> cop1" where
  "tick_stale e now =
     (case c_last_clcw e of
        None \<Rightarrow> ([], e)
      | Some last_clcw \<Rightarrow>
          (let stale = duration_since now last_clcw;
               warn_threshold = c_t1 e * cop1_stale_warn_mult;
               abort_threshold = c_t1 e * cop1_stale_abort_mult;
               (logs, e1) =
                 (if stale \<ge> warn_threshold \<and> rate_gate clcw_stale_event_interval (c_last_stale e) now
                  then ([ClcwStale stale], e\<lparr>c_last_stale := Some now\<rparr>)
                  else ([], e))
           in (logs,
               if stale \<ge> abort_threshold \<and> c_state e1 = Active
               then e1\<lparr>c_state := RetransmitWithWait\<rparr> else e1)))"

definition tick_ingest :: "cop1 \<Rightarrow> instant \<Rightarrow> bool \<Rightarrow> bytes option \<Rightarrow> tick_result + cop1" where
  "tick_ingest e now has_new clcw_opt =
     (if has_new then (case clcw_opt of Some clcw \<Rightarrow> tick_clcw e now clcw | None \<Rightarrow> Inr e) else Inr e)"

definition cop1_tick :: "cop1 \<Rightarrow> instant \<Rightarrow> bool \<Rightarrow> bytes option \<Rightarrow> tick_result" where
  "cop1_tick e now has_new clcw_opt =
     (case tick_ingest e now has_new clcw_opt of
        Inl r \<Rightarrow> r
      | Inr e1 \<Rightarrow>
          (case tick_timer e1 now of
             Inl r \<Rightarrow> r
           | Inr e2 \<Rightarrow> (let (logs, e3) = tick_stale e2 now in ([], logs, e3))))"

lemmas cop1_consts =
  cop1_window_size_def cop1_max_retransmit_def cop1_stale_warn_mult_def cop1_stale_abort_mult_def

section \<open>The invariant\<close>

text \<open>
  The outstanding frames carry consecutive sequence numbers that end just before V(S); there are
  at most fifteen; the timer runs exactly while frames are outstanding; the retransmit count is
  below its limit; nothing is outstanding before the session is active.
\<close>

definition consecutive :: "cop1_window \<Rightarrow> u8 \<Rightarrow> bool" where
  "consecutive w vs \<longleftrightarrow>
     (\<forall>i < length w. fst (w ! i) = vs - of_nat (length w - i))"

definition cop1_inv :: "cop1 \<Rightarrow> bool" where
  "cop1_inv e \<longleftrightarrow> consecutive (c_window e) (c_vs e)
     \<and> length (c_window e) \<le> 15
     \<and> (c_t1_deadline e = None \<longleftrightarrow> c_window e = [])
     \<and> c_retx e < 3
     \<and> (c_state e \<in> {Initial, Initializing} \<longrightarrow> c_window e = [])"

lemma consecutive_Nil [simp]: "consecutive [] vs"
  by (simp add: consecutive_def)

lemma consecutive_tl: "consecutive (x # w) vs \<Longrightarrow> consecutive w vs"
proof -
  assume c: "consecutive (x # w) vs"
  show "consecutive w vs"
    unfolding consecutive_def
  proof (intro allI impI)
    fix i assume "i < length w"
    then show "fst (w ! i) = vs - of_nat (length w - i)"
      using c [unfolded consecutive_def, rule_format, of "Suc i"] by simp
  qed
qed

lemma consecutive_snoc: "consecutive w vs \<Longrightarrow> consecutive (w @ [(vs, p)]) (vs + 1)"
  unfolding consecutive_def
  by (auto simp: nth_append less_Suc_eq Suc_diff_le)

lemma ack_window_suffix:
  "fst (ack_window nr w n t1) = dropWhile (\<lambda>(seq, _). seq_before seq nr) w"
  by (induction nr w n t1 rule: ack_window.induct) auto

lemma ack_window_count:
  "fst (snd (ack_window nr w n t1)) = (if w = [] \<or> \<not> seq_before (fst (hd w)) nr then n else 0)"
proof (induction nr w n t1 rule: ack_window.induct)
  case (2 nr seq p w n t1)
  then show ?case by (cases w) auto
qed simp

lemma ack_window_timer:
  "(t1 = None \<longleftrightarrow> w = []) \<Longrightarrow>
    snd (snd (ack_window nr w n t1)) = (if fst (ack_window nr w n t1) = [] then None else t1)"
proof (induction nr w n t1 rule: ack_window.induct)
  case (2 nr seq p w n t1)
  then show ?case by (cases "w = []") auto
qed simp

lemma consecutive_dropWhile: "consecutive w vs \<Longrightarrow> consecutive (dropWhile P w) vs"
  by (induction w) (auto dest: consecutive_tl)

section \<open>Every operation preserves the invariant\<close>

lemma inv_initialize: "cop1_inv (snd (cop1_initialize e))"
  by (simp add: cop1_initialize_def cop1_inv_def)

lemma inv_new: "cop1_inv (cop1_new t1)"
  by (simp add: cop1_new_def cop1_inv_def)

lemma inv_abort: "cop1_inv (snd (abort_to_initial e))"
  by (simp add: abort_to_initial_def cop1_inv_def)

lemma inv_submit: "cop1_inv e \<Longrightarrow> cop1_inv (snd (cop1_submit e now spp))"
  using consecutive_snoc [of "c_window e" "c_vs e" spp]
  by (auto simp: cop1_submit_def cop1_inv_def cop1_consts Let_def split: option.splits)

lemma retx_Suc:
  "n < 3 \<Longrightarrow> \<not> cop1_max_retransmit \<le> n + 1 \<Longrightarrow> n + 1 < (3 :: u8)"
  by (simp add: cop1_max_retransmit_def not_le)

lemma inv_bump:
  assumes "cop1_inv e" "\<And>n. n < 3 \<Longrightarrow> cop1_inv (enter (e\<lparr>c_retx := n\<rparr>))"
  shows "cop1_inv (snd (snd (bump_or_abort e enter)))"
proof (cases "cop1_max_retransmit \<le> c_retx e + 1")
  case True
  then show ?thesis by (simp add: bump_or_abort_def Let_def split_beta inv_abort)
next
  case False
  moreover have "c_retx e < 3" using assms(1) by (simp add: cop1_inv_def)
  ultimately show ?thesis
    using assms(2) [OF retx_Suc] by (simp add: bump_or_abort_def Let_def)
qed

lemma inv_ack:
  assumes "cop1_inv e" "ack_window nr (c_window e) (c_retx e) (c_t1_deadline e) = (w, n, t1)"
  shows "cop1_inv (e\<lparr>c_last_clcw := l, c_window := w, c_retx := n, c_t1_deadline := t1\<rparr>)"
proof -
  have w: "w = dropWhile (\<lambda>(seq, _). seq_before seq nr) (c_window e)"
    and n: "n = (if c_window e = [] \<or> \<not> seq_before (fst (hd (c_window e))) nr then c_retx e else 0)"
    using assms(2) ack_window_suffix [of nr "c_window e"] ack_window_count [of nr "c_window e"]
    by (metis fst_conv, metis fst_conv snd_conv)
  have t: "t1 = (if w = [] then None else c_t1_deadline e)"
    using assms ack_window_timer [of "c_t1_deadline e" "c_window e" nr "c_retx e"]
    by (simp add: cop1_inv_def)
  have "length w \<le> length (c_window e)"
    unfolding w by (rule length_dropWhile_le)
  moreover have "w \<noteq> [] \<Longrightarrow> c_window e \<noteq> []"
    unfolding w by auto
  ultimately show ?thesis
    using assms(1) consecutive_dropWhile [of "c_window e" "c_vs e"]
    by (auto simp: cop1_inv_def n t w)
qed

lemma inv_state:
  "cop1_inv e \<Longrightarrow> s \<notin> {Initial, Initializing} \<or> c_window e = [] \<Longrightarrow> cop1_inv (e\<lparr>c_state := s\<rparr>)"
  "cop1_inv e \<Longrightarrow> cop1_inv (e\<lparr>c_last_clcw := l\<rparr>)"
  "cop1_inv e \<Longrightarrow> cop1_inv (e\<lparr>c_last_stale := l\<rparr>)"
  "cop1_inv e \<Longrightarrow> n < 3 \<Longrightarrow> cop1_inv (e\<lparr>c_retx := n\<rparr>)"
  by (auto simp: cop1_inv_def)

definition result_state :: "tick_result + cop1 \<Rightarrow> cop1" where
  "result_state r = (case r of Inl (_, _, e) \<Rightarrow> e | Inr e \<Rightarrow> e)"

lemma inv_tick_clcw:
  assumes "cop1_inv e"
  shows "cop1_inv (result_state (tick_clcw e now clcw))"
proof -
  obtain w n t1 where a: "ack_window (clcw ! 3) (c_window e) (c_retx e) (c_t1_deadline e) = (w, n, t1)"
    by (metis prod_cases3)
  define e1 where "e1 = e\<lparr>c_last_clcw := Some now, c_window := w, c_retx := n, c_t1_deadline := t1\<rparr>"
  have i: "cop1_inv e1" unfolding e1_def by (rule inv_ack [OF assms a])
  have "cop1_inv (snd (snd (bump_or_abort e1 (\<lambda>e2. e2\<lparr>c_state := RetransmitWithoutWait\<rparr>))))"
    "cop1_inv (snd (snd (bump_or_abort e1 (\<lambda>e2. e2))))"
    using i by (auto intro!: inv_bump inv_state)
  moreover have "cop1_inv (e1\<lparr>c_state := Active\<rparr>)" "cop1_inv (e1\<lparr>c_state := Active, c_retx := 0\<rparr>)"
    using i by (auto intro!: inv_state)
  ultimately show ?thesis
    using i by (simp add: tick_clcw_def Let_def a e1_def [symmetric] result_state_def split_beta
        split: fop1_state.splits)
qed

lemma inv_tick_timer:
  assumes "cop1_inv e"
  shows "cop1_inv (result_state (tick_timer e now))"
proof (cases "c_t1_deadline e")
  case None
  then show ?thesis using assms by (simp add: tick_timer_def result_state_def)
next
  case (Some d)
  then have "c_window e \<noteq> []" using assms by (auto simp: cop1_inv_def)
  then have "cop1_inv (snd (snd (bump_or_abort e (\<lambda>e2. e2\<lparr>c_state := RetransmitWithWait,
      c_t1_deadline := Some (now + c_t1 e)\<rparr>))))"
    using assms by (intro inv_bump) (auto simp: cop1_inv_def)
  then show ?thesis using assms Some by (simp add: tick_timer_def result_state_def split_beta)
qed

lemma inv_tick_stale: "cop1_inv e \<Longrightarrow> cop1_inv (snd (tick_stale e now))"
  by (auto simp: tick_stale_def Let_def intro!: inv_state split: option.splits)

lemma inv_tick_ingest:
  "cop1_inv e \<Longrightarrow> cop1_inv (result_state (tick_ingest e now has_new clcw))"
  using inv_tick_clcw by (simp add: tick_ingest_def result_state_def split: option.splits)

lemma inv_tick:
  assumes "cop1_inv e"
  shows "cop1_inv (snd (snd (cop1_tick e now has_new clcw)))"
proof (cases "tick_ingest e now has_new clcw")
  case (Inl r)
  then show ?thesis
    using inv_tick_ingest [OF assms, of now has_new clcw]
    by (simp add: cop1_tick_def result_state_def split_beta)
next
  case (Inr e1)
  then have e1: "cop1_inv e1"
    using inv_tick_ingest [OF assms, of now has_new clcw] by (simp add: result_state_def)
  show ?thesis
    using inv_tick_timer [OF e1, of now] inv_tick_stale
    by (cases "tick_timer e1 now") (auto simp: cop1_tick_def Inr result_state_def split_beta)
qed

section \<open>Acknowledgement\<close>

lemma seq_before_offset:
  assumes "i \<le> k" "k - i \<le> 15" "k \<le> n"
  shows "seq_before (vs - of_nat (n - i)) (vs - of_nat (n - k)) \<longleftrightarrow> i < k"
proof -
  have "(vs - of_nat (n - k)) - (vs - of_nat (n - i)) = (of_nat (n - i) - of_nat (n - k) :: u8)"
    by simp
  also have "\<dots> = of_nat (k - i)"
    using assms by (simp flip: of_nat_diff)
  finally have d: "(vs - of_nat (n - k)) - (vs - of_nat (n - i)) = (of_nat (k - i) :: u8)" .
  have u: "unat (of_nat (k - i) :: u8) = k - i"
    using assms(2) by (simp add: unat_of_nat)
  have "(of_nat (k - i) :: u8) \<noteq> 0 \<longleftrightarrow> i < k"
    unfolding word_unat_eq_iff u using assms(1) by auto
  moreover have "(of_nat (k - i) :: u8) \<le> 128"
    unfolding word_le_nat_alt u using assms(2) by simp
  ultimately show ?thesis
    unfolding seq_before_def Let_def d by simp
qed

lemma ack_window_exact:
  assumes "consecutive w vs" "length w \<le> 15" "k \<le> length w"
  shows "fst (ack_window (vs - of_nat (length w - k)) w n t1) = drop k w"
proof -
  let ?P = "\<lambda>(seq, _). seq_before seq (vs - of_nat (length w - k))"
  have "?P (w ! i) \<longleftrightarrow> i < k" if "i < length w" "i \<le> k" for i
    using assms that seq_before_offset [of i k "length w" vs]
    by (auto simp: consecutive_def split_beta)
  then have "takeWhile ?P w = take k w"
    by (intro takeWhile_eq_take_P_nth) auto
  then show ?thesis
    using assms(3) by (simp add: ack_window_suffix dropWhile_eq_drop)
qed

text \<open>
  How many of the outstanding frames an N(R) confirms, from the sequence number of the oldest one:
  the distance to N(R) when it is at most half the number space, and none otherwise.
\<close>

definition confirmed :: "cop1_window \<Rightarrow> u8 \<Rightarrow> nat" where
  "confirmed w nr =
     (case w of
        [] \<Rightarrow> 0
      | (oldest, _) # _ \<Rightarrow>
          (let distance = unat (nr - oldest) in
           if distance \<le> 128 then min distance (length w) else 0))"

lemma seq_before_distance:
  fixes oldest nr :: u8
  assumes "i \<le> unat (nr - oldest)"
  shows "seq_before (oldest + of_nat i) nr \<longleftrightarrow> i \<noteq> unat (nr - oldest) \<and> unat (nr - oldest) - i \<le> 128"
proof -
  let ?d = "nr - oldest"
  have "unat ?d < 2 ^ LENGTH(8)" by (rule unsigned_less)
  then have i: "unat (of_nat i :: u8) = i" using assms by (simp add: unat_of_nat)
  have "unat (?d - of_nat i) = unat ?d - i"
    using unat_sub [of "of_nat i" ?d] assms i by (simp add: word_le_nat_alt)
  moreover have "nr - (oldest + of_nat i) = ?d - of_nat i" by simp
  ultimately show ?thesis
    using assms by (auto simp: seq_before_def Let_def word_le_nat_alt word_unat_eq_iff)
qed

lemma ack_window_confirmed:
  assumes "consecutive w vs"
  shows "fst (ack_window nr w n t1) = drop (confirmed w nr) w"
proof (cases w)
  case (Cons x w')
  define oldest where "oldest = fst x"
  let ?P = "\<lambda>(seq, _). seq_before seq nr" and ?d = "unat (nr - oldest)"
  have old: "oldest = vs - of_nat (length w)"
    using assms Cons by (auto simp: consecutive_def oldest_def dest!: spec [of _ 0])
  have nth: "fst (w ! i) = oldest + of_nat i" if "i < length w" for i
    using assms that by (simp add: consecutive_def old of_nat_diff)
  have k: "confirmed w nr = (if ?d \<le> 128 then min ?d (length w) else 0)"
    using Cons by (cases x) (simp add: confirmed_def oldest_def)
  have before: "?P (w ! i) \<longleftrightarrow> i \<noteq> ?d \<and> ?d - i \<le> 128" if "i < length w" "i \<le> ?d" for i
    using seq_before_distance [of i nr oldest] that nth [of i] by (simp add: split_beta)
  have "takeWhile ?P w = take (confirmed w nr) w"
    using before by (intro takeWhile_eq_take_P_nth) (auto simp: k split: if_splits)
  then show ?thesis
    by (simp add: ack_window_suffix dropWhile_eq_drop k)
qed (simp add: confirmed_def)

section \<open>Traces\<close>

datatype cop1_event =
    Initialize
  | Submit instant bytes
  | Tick instant bool "bytes option"

fun cop1_apply :: "cop1 \<Rightarrow> cop1_event \<Rightarrow> tick_result" where
  "cop1_apply e Initialize = (let (f, e') = cop1_initialize e in ([f], [], e'))"
| "cop1_apply e (Submit now spp) =
     (case cop1_submit e now spp of (Inl _, e') \<Rightarrow> ([], [], e') | (Inr fs, e') \<Rightarrow> (fs, [], e'))"
| "cop1_apply e (Tick now has_new clcw) = cop1_tick e now has_new clcw"

inductive cop1_reach :: "duration \<Rightarrow> cop1 \<Rightarrow> bool" for t1 where
  fresh: "cop1_reach t1 (cop1_new t1)"
| event: "cop1_reach t1 e \<Longrightarrow> cop1_reach t1 (snd (snd (cop1_apply e ev)))"

lemma inv_apply: "cop1_inv e \<Longrightarrow> cop1_inv (snd (snd (cop1_apply e ev)))"
  using inv_initialize [of e] inv_submit inv_tick
  by (cases ev) (auto simp: split_beta split: sum.splits)

lemma reach_inv: "cop1_reach t1 e \<Longrightarrow> cop1_inv e"
  by (induction rule: cop1_reach.induct) (auto intro: inv_new inv_apply)

text \<open>What one event does to the outstanding payloads.\<close>

definition accepted_payload :: "cop1 \<Rightarrow> cop1_event \<Rightarrow> bytes list" where
  "accepted_payload e ev =
     (case ev of
        Submit now spp \<Rightarrow> (case fst (cop1_submit e now spp) of Inr _ \<Rightarrow> [spp] | Inl _ \<Rightarrow> [])
      | _ \<Rightarrow> [])"

definition aborts :: "cop1_log list \<Rightarrow> bool" where
  "aborts logs \<longleftrightarrow> (\<exists>n. AbortLog n \<in> set logs)"

lemma aborts_Nil [simp]: "\<not> aborts []"
  by (simp add: aborts_def)

lemma bump_window:
  assumes "\<And>e. c_window (enter e) = c_window e" "\<not> aborts (fst (snd (bump_or_abort e enter)))"
  shows "c_window (snd (snd (bump_or_abort e enter))) = c_window e"
    and "fst (bump_or_abort e enter) = oldest_frame e"
  using assms
  by (auto simp: bump_or_abort_def Let_def split_beta aborts_def abort_to_initial_def oldest_frame_def
      split: if_splits)

definition result_logs :: "tick_result + cop1 \<Rightarrow> cop1_log list" where
  "result_logs r = (case r of Inl (_, logs, _) \<Rightarrow> logs | Inr _ \<Rightarrow> [])"

lemma clcw_window:
  assumes "\<not> aborts (result_logs (tick_clcw e now clcw))"
  shows "c_window (result_state (tick_clcw e now clcw)) =
    fst (ack_window (clcw ! 3) (c_window e) (c_retx e) (c_t1_deadline e))"
  using assms
  by (auto simp: tick_clcw_def Let_def split_beta result_state_def result_logs_def bump_window
      split: fop1_state.splits if_splits)

lemma timer_window:
  assumes "\<not> aborts (result_logs (tick_timer e now))"
  shows "c_window (result_state (tick_timer e now)) = c_window e"
  using assms
  by (auto simp: tick_timer_def split_beta result_state_def result_logs_def bump_window
      split: option.splits if_splits)

lemma stale_window [simp]: "c_window (snd (tick_stale e now)) = c_window e"
  by (simp add: tick_stale_def Let_def split: option.splits)

text \<open>The telemetry word that a tick takes from the watch channel, and what it confirms.\<close>

definition fresh_word :: "bool \<Rightarrow> bytes option \<Rightarrow> bytes option" where
  "fresh_word has_new clcw = (if has_new then clcw else None)"

definition confirmed_by :: "cop1_window \<Rightarrow> bytes option \<Rightarrow> nat" where
  "confirmed_by w word = (case word of None \<Rightarrow> 0 | Some clcw \<Rightarrow> confirmed w (clcw ! 3))"

lemma bump_aborts:
  assumes "aborts (fst (snd (bump_or_abort e enter)))"
  shows "c_window (snd (snd (bump_or_abort e enter))) = []"
  using assms by (auto simp: bump_or_abort_def Let_def split_beta aborts_def abort_to_initial_def split: if_splits)

lemma aborted_window:
  "aborts (result_logs (tick_clcw e now clcw)) \<Longrightarrow> c_window (result_state (tick_clcw e now clcw)) = []"
  "aborts (result_logs (tick_timer e now)) \<Longrightarrow> c_window (result_state (tick_timer e now)) = []"
  by (auto simp: tick_clcw_def tick_timer_def Let_def split_beta result_state_def result_logs_def bump_aborts split: fop1_state.splits if_splits option.splits)

lemma ingest_window:
  assumes "consecutive (c_window e) vs"
  shows "c_window (result_state (tick_ingest e now has_new clcw)) =
    (if aborts (result_logs (tick_ingest e now has_new clcw)) then []
     else drop (confirmed_by (c_window e) (fresh_word has_new clcw)) (c_window e))"
  using clcw_window [of e now] aborted_window(1) [of e now] ack_window_confirmed [OF assms]
  by (auto simp: tick_ingest_def fresh_word_def confirmed_by_def result_state_def [of "Inr _"]
      result_logs_def [of "Inr _"] split: option.splits)

lemma stale_never_aborts [simp]: "\<not> aborts (fst (tick_stale e now))"
  by (simp add: tick_stale_def Let_def aborts_def split: option.splits)

lemma tick_window:
  assumes "consecutive (c_window e) vs"
  shows "c_window (snd (snd (cop1_tick e now has_new clcw))) =
    (if aborts (fst (snd (cop1_tick e now has_new clcw))) then []
     else drop (confirmed_by (c_window e) (fresh_word has_new clcw)) (c_window e))"
proof (cases "tick_ingest e now has_new clcw")
  case (Inl r)
  then show ?thesis
    using ingest_window [OF assms, of now has_new clcw]
    by (simp add: cop1_tick_def result_state_def result_logs_def split_beta)
next
  case (Inr e1)
  then have e1: "c_window e1 = drop (confirmed_by (c_window e) (fresh_word has_new clcw)) (c_window e)"
    using ingest_window [OF assms, of now has_new clcw]
    by (simp add: result_state_def result_logs_def aborts_def)
  show ?thesis
    using e1 timer_window [of e1 now] aborted_window(2) [of e1 now] stale_never_aborts
    by (cases "tick_timer e1 now")
      (auto simp: cop1_tick_def Inr result_state_def result_logs_def split_beta)
qed

fun cop1_exec :: "cop1 \<Rightarrow> cop1_event list \<Rightarrow> bytes list \<times> tc_frame list \<times> cop1_log list \<times> cop1" where
  "cop1_exec e [] = ([], [], [], e)"
| "cop1_exec e (ev # evs) =
     (let (fs, ls, e1) = cop1_apply e ev; (acc, fs', ls', e2) = cop1_exec e1 evs
      in (accepted_payload e ev @ acc, fs @ fs', ls @ ls', e2))"

lemma submit_window:
  "c_window (snd (cop1_submit e now spp)) =
     c_window e @ (case fst (cop1_submit e now spp) of Inr _ \<Rightarrow> [(c_vs e, spp)] | Inl _ \<Rightarrow> [])"
  by (simp add: cop1_submit_def Let_def)

text \<open>
  The ledger of a run: every payload that leaves the window, with the cause.  A telemetry word
  confirms the frames before its N(R); a tick that logs an abort drops the rest; a new
  initialisation drops what is outstanding.  Nothing else removes a payload.
\<close>

datatype removal = Confirmed | Aborted | Reset

definition removed :: "cop1 \<Rightarrow> cop1_event \<Rightarrow> (bytes \<times> removal) list" where
  "removed e ev =
     (case ev of
        Initialize \<Rightarrow> map (\<lambda>p. (snd p, Reset)) (c_window e)
      | Submit _ _ \<Rightarrow> []
      | Tick now has_new clcw \<Rightarrow>
          (let k = confirmed_by (c_window e) (fresh_word has_new clcw) in
           map (\<lambda>p. (snd p, Confirmed)) (take k (c_window e))
           @ (if aborts (fst (snd (cop1_tick e now has_new clcw)))
              then map (\<lambda>p. (snd p, Aborted)) (drop k (c_window e)) else [])))"

fun ledger :: "cop1 \<Rightarrow> cop1_event list \<Rightarrow> (bytes \<times> removal) list" where
  "ledger e [] = []"
| "ledger e (ev # evs) = removed e ev @ ledger (snd (snd (cop1_apply e ev))) evs"

lemma map_take_drop: "map f (take k xs) @ map f (drop k xs) = map f xs"
  by (simp flip: map_append)

lemma apply_accounts:
  assumes "consecutive (c_window e) (c_vs e)"
  shows "map snd (c_window e) @ accepted_payload e ev =
    map fst (removed e ev) @ map snd (c_window (snd (snd (cop1_apply e ev))))"
proof (cases ev)
  case Initialize
  then show ?thesis
    by (simp add: removed_def accepted_payload_def cop1_initialize_def comp_def)
next
  case (Submit now spp)
  then show ?thesis
    using submit_window [of e now spp]
    by (auto simp: removed_def accepted_payload_def split_beta split: sum.splits)
next
  case (Tick now has_new clcw)
  then show ?thesis
    using tick_window [OF assms, of now has_new clcw]
    by (auto simp: removed_def accepted_payload_def Let_def comp_def map_take_drop)
qed

lemma removed_causes:
  assumes "(p, c) \<in> set (removed e ev)"
  shows "(c = Reset \<longrightarrow> ev = Initialize) \<and> (c = Aborted \<longrightarrow> aborts (fst (snd (cop1_apply e ev))))"
  using assms by (cases ev) (auto simp: removed_def Let_def split: if_splits)

lemma exec_accounts:
  assumes "cop1_inv e" "cop1_exec e evs = (accepted, fs, logs, e')"
  shows "map snd (c_window e) @ accepted = map fst (ledger e evs) @ map snd (c_window e')
    \<and> (Initialize \<notin> set evs \<longrightarrow> Reset \<notin> snd ` set (ledger e evs))
    \<and> (\<not> aborts logs \<longrightarrow> Aborted \<notin> snd ` set (ledger e evs))"
  using assms
proof (induction evs arbitrary: e accepted fs logs)
  case (Cons ev evs)
  obtain fs1 ls1 e1 where a: "cop1_apply e ev = (fs1, ls1, e1)" by (metis prod_cases3)
  obtain acc fs2 ls2 where r: "cop1_exec e1 evs = (acc, fs2, ls2, e')"
    using Cons.prems(2) by (cases "cop1_exec e1 evs") (auto simp: a)
  have c: "accepted = accepted_payload e ev @ acc" "logs = ls1 @ ls2"
    using Cons.prems(2) by (simp_all add: a r)
  have "cop1_inv e1" using inv_apply [OF Cons.prems(1), of ev] by (simp add: a)
  note IH = Cons.IH [OF this r]
  have "map snd (c_window e) @ accepted_payload e ev = map fst (removed e ev) @ map snd (c_window e1)"
    using apply_accounts [of e ev] Cons.prems(1) by (simp add: a cop1_inv_def)
  then have "map snd (c_window e) @ accepted = map fst (ledger e (ev # evs)) @ map snd (c_window e')"
    using IH by (simp add: c a flip: append_assoc) (simp add: append_assoc)
  moreover have "aborts (ls1 @ ls2) \<longleftrightarrow> aborts ls1 \<or> aborts ls2" by (auto simp: aborts_def)
  ultimately show ?case
    using IH removed_causes [of _ _ e ev] by (force simp: c a)
qed simp

section \<open>Retransmission requests\<close>

text \<open>
  What asks the engine to resend its oldest frame: a new telemetry word with the retransmit flag,
  without lockout and confirming nothing, in any state of an open session; or the expired T1 timer
  on a tick without a new word, except while a request by telemetry is pending.  A quiet tick is one
  that asks for nothing.
\<close>

definition retransmit_request :: "cop1 \<Rightarrow> cop1_event \<Rightarrow> bool" where
  "retransmit_request e ev =
     (case ev of
        Tick now has_new clcw \<Rightarrow>
          (case fresh_word has_new clcw of
             Some word \<Rightarrow> \<not> bit (word ! 2) 7 \<and> bit (word ! 2) 5 \<and> confirmed (c_window e) (word ! 3) = 0
               \<and> c_state e \<in> {Active, RetransmitWithoutWait, RetransmitWithWait}
           | None \<Rightarrow> c_state e \<in> {Active, RetransmitWithWait}
               \<and> (case c_t1_deadline e of None \<Rightarrow> False | Some d \<Rightarrow> d \<le> now))
      | _ \<Rightarrow> False)"

fun quiet_tick :: "cop1_event \<Rightarrow> bool" where
  "quiet_tick (Tick now has_new clcw) = (fresh_word has_new clcw = None)"
| "quiet_tick _ = False"

text \<open>The number of requests in a run that holds nothing but requests and quiet ticks.\<close>

fun requests_in :: "cop1 \<Rightarrow> cop1_event list \<Rightarrow> nat option" where
  "requests_in e [] = Some 0"
| "requests_in e (ev # evs) =
     (let rest = requests_in (snd (snd (cop1_apply e ev))) evs in
      if retransmit_request e ev then map_option Suc rest
      else if quiet_tick ev then rest else None)"

lemma flag_set: "drop_bit n (x :: u8) AND 1 = (if bit x n then 1 else 0)"
  by (auto simp: and_one_eq bit_iff_odd_drop_bit odd_iff_mod_2_eq_one)

text \<open>An open session that waits for the acknowledgement of a frame, after some requests.\<close>

definition session_waiting :: "cop1 \<Rightarrow> cop1_window \<Rightarrow> nat \<Rightarrow> bool" where
  "session_waiting e w r \<longleftrightarrow> c_state e \<in> {Active, RetransmitWithoutWait, RetransmitWithWait} \<and> c_window e = w
     \<and> unat (c_retx e) = r \<and> r < 3"

definition session_closed :: "cop1 \<Rightarrow> bool" where
  "session_closed e \<longleftrightarrow> c_state e = Initial \<and> c_window e = [] \<and> c_t1_deadline e = None"

definition resend :: "cop1_window \<Rightarrow> tc_frame list" where
  "resend w = (case w of [] \<Rightarrow> [] | (seq, p) # _ \<Rightarrow>
     [\<lparr>tf_vc_id = 0, tf_type = TypeAd, tf_seq = seq, tf_payload = p\<rparr>])"

lemma ack_nothing:
  assumes "confirmed w nr = 0" "consecutive w vs"
  shows "ack_window nr w n t1 = (w, n, t1)"
proof (cases w)
  case (Cons x w')
  obtain seq p where x: "x = (seq, p)" by (cases x)
  have "\<not> seq_before seq nr"
    using ack_window_confirmed [OF assms(2), of nr n t1] assms(1) ack_window_suffix [of nr w n t1]
    by (metis (mono_tags, lifting) Cons x case_prod_conv dropWhile_eq_self_iff drop0 list.sel(1) list.distinct(1))
  then show ?thesis by (simp add: Cons x)
qed simp

lemma bump_counts:
  assumes "session_waiting e w r" "\<And>e. c_window (enter e) = c_window e \<and> c_retx (enter e) = c_retx e"
    and "\<And>e. c_state e \<in> {Active, RetransmitWithoutWait, RetransmitWithWait} \<Longrightarrow>
      c_state (enter e) \<in> {Active, RetransmitWithoutWait, RetransmitWithWait}"
  shows "if r = 2 then fst (bump_or_abort e enter) = [] \<and> fst (snd (bump_or_abort e enter)) = [AbortLog 3]
       \<and> session_closed (snd (snd (bump_or_abort e enter)))
     else fst (bump_or_abort e enter) = resend w \<and> fst (snd (bump_or_abort e enter)) = []
       \<and> session_waiting (snd (snd (bump_or_abort e enter))) w (Suc r)"
proof -
  have r: "r < 3" "unat (c_retx e) = r" using assms(1) by (simp_all add: session_waiting_def)
  then have up: "unat (c_retx e + 1) = Suc r" by (simp add: unat_word_ariths)
  then have lim: "cop1_max_retransmit \<le> c_retx e + 1 \<longleftrightarrow> r = 2"
    using r by (auto simp: word_le_nat_alt cop1_max_retransmit_def)
  show ?thesis
  proof (cases "r = 2")
    case True
    then have "c_retx e + 1 = 3" using up by (simp add: word_unat_eq_iff)
    then show ?thesis
      using True lim by (simp add: bump_or_abort_def abort_to_initial_def session_closed_def)
  next
    case False
    then show ?thesis
      using assms r up by (simp add: bump_or_abort_def lim session_waiting_def resend_def oldest_frame_def)
  qed
qed

lemma request_step:
  assumes "cop1_inv e" "session_waiting e w r" "retransmit_request e ev" "cop1_apply e ev = (fs, logs, e')"
  shows "if r = 2 then fs = [] \<and> logs = [AbortLog 3] \<and> session_closed e'
     else fs = resend w \<and> logs = [] \<and> session_waiting e' w (Suc r)"
proof -
  obtain now has_new clcw where ev: "ev = Tick now has_new clcw"
    using assms(3) by (cases ev) (auto simp: retransmit_request_def)
  show ?thesis
  proof (cases "fresh_word has_new clcw")
    case (Some word)
    then have word: "has_new" "clcw = Some word" by (auto simp: fresh_word_def split: if_splits)
    have flags: "\<not> bit (word ! 2) 7" "bit (word ! 2) 5" "confirmed (c_window e) (word ! 3) = 0"
      using assms(3) Some by (simp_all add: retransmit_request_def ev)
    define e1 where "e1 = e\<lparr>c_last_clcw := Some now\<rparr>"
    have e1: "session_waiting e1 w r" using assms(2) by (simp add: e1_def session_waiting_def)
    have upd: "e\<lparr>c_last_clcw := Some now, c_window := c_window e, c_retx := c_retx e, c_t1_deadline := c_t1_deadline e\<rparr> = e1"
      by (simp add: e1_def)
    have st: "c_state e1 = c_state e" by (simp add: e1_def)
    have ack: "ack_window (word ! 3) (c_window e) (c_retx e) (c_t1_deadline e) = (c_window e, c_retx e, c_t1_deadline e)"
      using assms(1) by (intro ack_nothing [OF flags(3), of "c_vs e"]) (simp add: cop1_inv_def)
    have "tick_clcw e now word = Inl (bump_or_abort e1
        (if c_state e = Active then (\<lambda>e2. e2\<lparr>c_state := RetransmitWithoutWait\<rparr>) else (\<lambda>e2. e2)))"
      unfolding tick_clcw_def Let_def ack prod.case upd flag_set
      using assms(2) flags(1,2) by (auto simp: session_waiting_def st)
    then show ?thesis
      using bump_counts [OF e1, of "if c_state e = Active then (\<lambda>e2. e2\<lparr>c_state := RetransmitWithoutWait\<rparr>) else (\<lambda>e2. e2)"]
        assms(4)
      by (simp add: ev cop1_tick_def tick_ingest_def word split: if_splits)
  next
    case None
    then obtain d where d: "c_state e \<in> {Active, RetransmitWithWait}" "c_t1_deadline e = Some d" "d \<le> now"
      using assms(3) by (auto simp: retransmit_request_def ev split: option.splits)
    have "tick_ingest e now has_new clcw = Inr e"
      using None by (auto simp: tick_ingest_def fresh_word_def)
    moreover have "tick_timer e now = Inl (bump_or_abort e (\<lambda>e2. e2\<lparr>c_state := RetransmitWithWait,
        c_t1_deadline := Some (now + c_t1 e)\<rparr>))"
      using d by (auto simp: tick_timer_def)
    ultimately show ?thesis
      using bump_counts [OF assms(2), of "\<lambda>e2. e2\<lparr>c_state := RetransmitWithWait, c_t1_deadline := Some (now + c_t1 e)\<rparr>"]
        assms(4)
      by (simp add: ev cop1_tick_def split: if_splits)
  qed
qed

lemma quiet_step:
  assumes "quiet_tick ev" "\<not> retransmit_request e ev" "cop1_apply e ev = (fs, logs, e')"
  shows "fs = [] \<and> \<not> aborts logs \<and> (session_waiting e w r \<longrightarrow> session_waiting e' w r) \<and> (session_closed e \<longrightarrow> session_closed e')"
proof -
  obtain now has_new clcw where ev: "ev = Tick now has_new clcw" "fresh_word has_new clcw = None"
    using assms(1) by (cases ev) auto
  have "tick_ingest e now has_new clcw = Inr e"
    using ev(2) by (auto simp: tick_ingest_def fresh_word_def)
  moreover have "tick_timer e now = Inr e"
    using assms(2) by (auto simp: tick_timer_def retransmit_request_def ev split: option.splits)
  ultimately have "fs = []" "logs = fst (tick_stale e now)" "e' = snd (tick_stale e now)"
    using assms(3) by (auto simp: ev cop1_tick_def split_beta)
  then show ?thesis
    by (auto simp: tick_stale_def session_waiting_def session_closed_def aborts_def Let_def split: option.splits if_splits)
qed

lemma aborts_append [simp]: "aborts (xs @ ys) \<longleftrightarrow> aborts xs \<or> aborts ys"
  by (auto simp: aborts_def)

lemma session_closed_run:
  assumes "session_closed e" "requests_in e evs = Some n" "cop1_exec e evs = (acc, fs, logs, e')"
  shows "n = 0 \<and> fs = [] \<and> \<not> aborts logs \<and> session_closed e'"
  using assms
proof (induction evs arbitrary: e n acc fs logs)
  case (Cons ev evs)
  obtain fs1 ls1 e1 where a: "cop1_apply e ev = (fs1, ls1, e1)" by (metis prod_cases3)
  obtain acc2 fs2 ls2 where r: "cop1_exec e1 evs = (acc2, fs2, ls2, e')"
    using Cons.prems(3) by (cases "cop1_exec e1 evs") (auto simp: a)
  have no: "\<not> retransmit_request e ev"
    using Cons.prems(1) by (auto simp: retransmit_request_def session_closed_def split: cop1_event.splits option.splits)
  then have q: "quiet_tick ev" "requests_in e1 evs = Some n"
    using Cons.prems(2) by (auto simp: a split: if_splits)
  have "session_closed e1" "fs1 = []" "\<not> aborts ls1"
    using quiet_step [OF q(1) no a] Cons.prems(1) by simp_all
  then show ?case
    using Cons.IH [OF _ q(2) r] Cons.prems(3) by (auto simp: a r)
qed simp

lemma requests_run:
  assumes "cop1_inv e" "session_waiting e w r" "requests_in e evs = Some n" "cop1_exec e evs = (acc, fs, logs, e')"
  shows "r + n \<le> 3 \<and> fs = concat (replicate (min n (2 - r)) (resend w)) \<and> (aborts logs \<longleftrightarrow> r + n = 3)
    \<and> (if r + n = 3 then session_closed e' else session_waiting e' w (r + n))"
  using assms
proof (induction evs arbitrary: e r n acc fs logs)
  case Nil
  then show ?case by (auto simp: session_waiting_def)
next
  case (Cons ev evs)
  obtain fs1 ls1 e1 where a: "cop1_apply e ev = (fs1, ls1, e1)" by (metis prod_cases3)
  obtain acc2 fs2 ls2 where r: "cop1_exec e1 evs = (acc2, fs2, ls2, e')"
    using Cons.prems(4) by (cases "cop1_exec e1 evs") (auto simp: a)
  have out: "fs = fs1 @ fs2" "logs = ls1 @ ls2" using Cons.prems(4) by (simp_all add: a r)
  have inv: "cop1_inv e1" using inv_apply [OF Cons.prems(1), of ev] by (simp add: a)
  have lt: "r < 3" using Cons.prems(2) by (simp add: session_waiting_def)
  show ?case
  proof (cases "retransmit_request e ev")
    case True
    then obtain m where m: "requests_in e1 evs = Some m" "n = Suc m"
      using Cons.prems(3) by (auto simp: a)
    show ?thesis
    proof (cases "r = 2")
      case two: True
      then show ?thesis
        using request_step [OF Cons.prems(1,2) True a] session_closed_run [OF _ m(1) r] m(2)
        by (simp add: out aborts_def)
    next
      case False
      then have "fs1 = resend w" "\<not> aborts ls1" "session_waiting e1 w (Suc r)"
        using request_step [OF Cons.prems(1,2) True a] by simp_all
      moreover have "min n (2 - r) = Suc (min m (2 - Suc r))" using False lt m(2) by linarith
      ultimately show ?thesis
        using Cons.IH [OF inv _ m(1) r, of "Suc r"] m(2) by (simp add: out add_Suc [symmetric] del: add_Suc)
    qed
  next
    case False
    then have q: "quiet_tick ev" "requests_in e1 evs = Some n"
      using Cons.prems(3) by (auto simp: a split: if_splits)
    then show ?thesis
      using quiet_step [OF q(1) False a, of w r] Cons.prems(2) Cons.IH [OF inv _ q(2) r, of r] by (simp add: out)
  qed
qed

section \<open>Stale telemetry events\<close>

type_synonym tick_input = "instant \<times> bool \<times> bytes option"

definition stale_phase :: "cop1 \<Rightarrow> tick_input \<Rightarrow> cop1 option" where
  "stale_phase e i =
     (case tick_ingest e (fst i) (fst (snd i)) (snd (snd i)) of
        Inl _ \<Rightarrow> None
      | Inr e1 \<Rightarrow> (case tick_timer e1 (fst i) of Inl _ \<Rightarrow> None | Inr e2 \<Rightarrow> Some e2))"

definition cop1_tick_step :: "cop1 \<Rightarrow> tick_input \<Rightarrow> cop1" where
  "cop1_tick_step e i = snd (snd (cop1_tick e (fst i) (fst (snd i)) (snd (snd i))))"

definition cop1_warns_stale :: "cop1 \<Rightarrow> tick_input \<Rightarrow> bool" where
  "cop1_warns_stale e i \<longleftrightarrow>
     (\<exists>d. ClcwStale d \<in> set (fst (snd (cop1_tick e (fst i) (fst (snd i)) (snd (snd i))))))"

definition clcw_overdue :: "cop1 \<Rightarrow> tick_input \<Rightarrow> bool" where
  "clcw_overdue e i \<longleftrightarrow>
     (\<exists>e2 l. stale_phase e i = Some e2 \<and> c_last_clcw e2 = Some l \<and> 3 * c_t1 e2 \<le> fst i - l)"

lemma clcw_last_stale:
  "c_last_stale (result_state (tick_clcw e now c)) = c_last_stale e"
  "ClcwStale d \<notin> set (result_logs (tick_clcw e now c))"
  by (auto simp: tick_clcw_def Let_def split_beta result_state_def result_logs_def
      bump_or_abort_def abort_to_initial_def split: fop1_state.splits)

lemma timer_last_stale:
  "c_last_stale (result_state (tick_timer e now)) = c_last_stale e"
  "ClcwStale d \<notin> set (result_logs (tick_timer e now))"
  by (auto simp: tick_timer_def Let_def result_state_def result_logs_def bump_or_abort_def
      abort_to_initial_def split: option.splits)

lemma ingest_last_stale:
  "c_last_stale (result_state (tick_ingest e now n c)) = c_last_stale e"
  "ClcwStale d \<notin> set (result_logs (tick_ingest e now n c))"
  using clcw_last_stale by (auto simp: tick_ingest_def result_state_def result_logs_def split: option.splits)

lemma tick_phases:
  obtains (early) "stale_phase e i = None" "c_last_stale (cop1_tick_step e i) = c_last_stale e"
      "\<not> cop1_warns_stale e i"
  | (late) e2 where "stale_phase e i = Some e2" "c_last_stale e2 = c_last_stale e"
      "cop1_tick e (fst i) (fst (snd i)) (snd (snd i)) =
         (let (logs, e3) = tick_stale e2 (fst i) in ([], logs, e3))"
proof -
  let ?g = "tick_ingest e (fst i) (fst (snd i)) (snd (snd i))"
  show ?thesis
  proof (cases ?g)
    case (Inl r)
    then show ?thesis
      using ingest_last_stale(1) [of e "fst i" "fst (snd i)" "snd (snd i)"]
        ingest_last_stale(2) [of _ e "fst i" "fst (snd i)" "snd (snd i)"] early
      by (simp add: stale_phase_def cop1_tick_step_def cop1_warns_stale_def cop1_tick_def
          result_state_def result_logs_def split_beta)
  next
    case (Inr e1)
    then have s1: "c_last_stale e1 = c_last_stale e"
      using ingest_last_stale(1) [of e "fst i" "fst (snd i)" "snd (snd i)"] by (simp add: result_state_def)
    show ?thesis
    proof (cases "tick_timer e1 (fst i)")
      case Inl
      then show ?thesis
        using timer_last_stale(1) [of e1 "fst i"] timer_last_stale(2) [of _ e1 "fst i"] early Inr s1
        by (simp add: stale_phase_def cop1_tick_step_def cop1_warns_stale_def cop1_tick_def
            result_state_def result_logs_def split_beta)
    next
      case (Inr e2)
      then show ?thesis
        using timer_last_stale(1) [of e1 "fst i"] late [of e2] \<open>?g = Inr e1\<close> s1
        by (simp add: stale_phase_def cop1_tick_def result_state_def)
    qed
  qed
qed

interpretation cop1_stale: rate_limiter cop1_tick_step cop1_warns_stale clcw_overdue fst
  c_last_stale clcw_stale_event_interval
proof unfold_locales
  fix e :: cop1 and i :: tick_input
  show w: "cop1_warns_stale e i \<longleftrightarrow> clcw_overdue e i \<and>
      rate_gate clcw_stale_event_interval (c_last_stale e) (fst i)"
    by (rule tick_phases [of e i])
      (auto simp: cop1_warns_stale_def clcw_overdue_def tick_stale_def Let_def duration_since_def
        cop1_consts mult.commute split: option.splits)
  show "c_last_stale (cop1_tick_step e i) = (if cop1_warns_stale e i then Some (fst i) else c_last_stale e)"
    unfolding w
    by (rule tick_phases [of e i])
      (auto simp: cop1_tick_step_def clcw_overdue_def tick_stale_def Let_def duration_since_def
        cop1_consts mult.commute split: option.splits)
qed

lemma late_phases_window:
  assumes "tick_ingest e now has_new clcw = Inr e1"
    and "\<not> aborts (fst (snd (cop1_tick e now has_new clcw)))"
  shows "c_window (snd (snd (cop1_tick e now has_new clcw))) = c_window e1"
  using timer_window [of e1 now] assms
  by (cases "tick_timer e1 now")
    (auto simp: cop1_tick_def result_state_def result_logs_def split_beta aborts_def)

lemma tick_ack:
  assumes "\<not> aborts (fst (snd (cop1_tick e now True (Some clcw))))"
  shows "c_window (snd (snd (cop1_tick e now True (Some clcw)))) =
    fst (ack_window (clcw ! 3) (c_window e) (c_retx e) (c_t1_deadline e))"
proof (cases "tick_clcw e now clcw")
  case (Inl r)
  then show ?thesis
    using clcw_window [of e now clcw] assms
    by (simp add: cop1_tick_def tick_ingest_def result_state_def result_logs_def split_beta)
next
  case (Inr e1)
  then have "c_window e1 = fst (ack_window (clcw ! 3) (c_window e) (c_retx e) (c_t1_deadline e))"
    using clcw_window [of e now clcw] by (simp add: result_state_def result_logs_def aborts_def)
  then show ?thesis
    using late_phases_window [OF _ assms, of e1] Inr by (simp add: tick_ingest_def)
qed

section \<open>Properties\<close>

text \<open>
  C14: In every reachable state of the engine the outstanding frames have consecutive sequence
  numbers ending just before V(S), there are at most fifteen, the T1 timer runs exactly while some
  frame is outstanding, the retransmit count is below three, and no frame is outstanding before
  the session is active.
\<close>

theorem cop1_reachable_invariant:
  assumes "cop1_reach t1 e"
  shows "(\<forall>i < length (c_window e). fst (c_window e ! i) = c_vs e - of_nat (length (c_window e) - i))
    \<and> length (c_window e) \<le> 15 \<and> (c_t1_deadline e = None \<longleftrightarrow> c_window e = [])
    \<and> c_retx e < 3 \<and> (c_state e = Initial \<or> c_state e = Initializing \<longrightarrow> c_window e = [])"
  using reach_inv [OF assms] by (auto simp: cop1_inv_def consecutive_def)

definition session_events :: "cop1_event list" where
  "session_events =
     [Initialize, Tick 1 True (Some [0, 0, 0, 0]), Submit 2 [10], Submit 3 [11], Submit 4 [12]]"

definition session :: cop1 where
  "session = \<lparr>c_state = Active, c_vs = 3, c_window = [(0, [10]), (1, [11]), (2, [12])], c_retx = 0,
     c_t1_deadline = Some 12, c_t1 = 10, c_last_clcw = Some 1, c_last_stale = None\<rparr>"

lemma reach_fold: "cop1_reach t1 e \<Longrightarrow> cop1_reach t1 (fold (\<lambda>ev e. snd (snd (cop1_apply e ev))) evs e)"
  by (induction evs arbitrary: e) (auto intro: cop1_reach.event)

lemma session_run: "fold (\<lambda>ev e. snd (snd (cop1_apply e ev))) session_events (cop1_new 10) = session"
  by (simp add: session_events_def session_def cop1_new_def cop1_initialize_def cop1_tick_def
      tick_ingest_def tick_clcw_def tick_timer_def tick_stale_def cop1_submit_def Let_def
      duration_since_def cop1_consts)

lemma session_reach: "cop1_reach 10 session"
  using reach_fold [OF cop1_reach.fresh, of 10 session_events] by (simp add: session_run)

theorem cop1_reachable_invariant_witness:
  "c_window session = [(0, [10]), (1, [11]), (2, [12])] \<and> c_retx session < 3"
  using cop1_reachable_invariant [OF session_reach] by (simp add: session_def)

text \<open>
  C26: Acknowledgement is exact.  In a reachable state with outstanding frames \<open>w\<close>, a telemetry
  word whose N(R) is the sequence number after the first \<open>k\<close> of them removes exactly those, unless
  the tick aborts the session.
\<close>

theorem acknowledgement_exact:
  assumes "cop1_reach t1 e" "k \<le> length (c_window e)"
    and "clcw ! 3 = c_vs e - of_nat (length (c_window e) - k)"
    and "\<not> aborts (fst (snd (cop1_tick e now True (Some clcw))))"
  shows "c_window (snd (snd (cop1_tick e now True (Some clcw)))) = drop k (c_window e)"
  using tick_ack [OF assms(4)] reach_inv [OF assms(1)] ack_window_exact [OF _ _ assms(2), of "c_vs e"]
  by (simp add: assms(3) cop1_inv_def)

theorem acknowledgement_exact_witness:
  "c_window (snd (snd (cop1_tick session 5 True (Some [0, 0, 0, 2])))) = [(2, [12])]"
proof -
  have "\<not> aborts (fst (snd (cop1_tick session 5 True (Some [0, 0, 0, 2]))))"
    by (simp add: session_def cop1_tick_def tick_ingest_def tick_clcw_def tick_timer_def
        tick_stale_def seq_before_def Let_def duration_since_def cop1_consts aborts_def)
  from acknowledgement_exact [OF session_reach _ _ this, of 2] show ?thesis
    by (simp add: session_def)
qed

text \<open>
  C13: No telecommand is lost silently or reordered.  Over any run of a reachable engine, whatever
  the order of initialisations, submissions and ticks, the payloads outstanding at the start
  followed by the accepted ones are, in this order, those that the ledger removes followed by those
  outstanding at the end.  The ledger removes the frames before the N(R) of a new telemetry word as
  confirmed, the rest of the window when a tick logs an abort, and the window at an initialisation.
  So without an initialisation and without an abort every removed payload was confirmed.
\<close>

theorem no_telecommand_lost:
  assumes "cop1_reach t1 e" "cop1_exec e evs = (accepted, fs, logs, e')"
  shows "map snd (c_window e) @ accepted = map fst (ledger e evs) @ map snd (c_window e')
    \<and> (Initialize \<notin> set evs \<longrightarrow> Reset \<notin> snd ` set (ledger e evs))
    \<and> (\<not> aborts logs \<longrightarrow> Aborted \<notin> snd ` set (ledger e evs))"
  by (rule exec_accounts [OF reach_inv [OF assms(1)] assms(2)])

theorem no_telecommand_lost_witness:
  "\<exists>fs logs e'. cop1_exec session [Submit 5 [13], Tick 6 True (Some [0, 0, 0, 2]), Initialize] = ([[13]], fs, logs, e')
     \<and> ledger session [Submit 5 [13], Tick 6 True (Some [0, 0, 0, 2]), Initialize] =
         [([10], Confirmed), ([11], Confirmed), ([12], Reset), ([13], Reset)]
     \<and> c_window e' = []"
proof -
  let ?evs = "[Submit 5 [13], Tick 6 True (Some [0, 0, 0, 2]), Initialize]"
  obtain accepted fs logs e' where r: "cop1_exec session ?evs = (accepted, fs, logs, e')"
    by (metis prod_cases4)
  then have "accepted = [[13]]" and l: "ledger session ?evs =
      [([10], Confirmed), ([11], Confirmed), ([12], Reset), ([13], Reset)]"
    by (auto simp: session_def cop1_tick_def tick_ingest_def tick_clcw_def tick_timer_def removed_def
        confirmed_by_def fresh_word_def confirmed_def cop1_initialize_def
        tick_stale_def seq_before_def cop1_submit_def accepted_payload_def Let_def duration_since_def
        cop1_consts aborts_def)
  moreover have "c_window e' = []"
    using no_telecommand_lost [OF session_reach r, THEN conjunct1] unfolding l \<open>accepted = [[13]]\<close>
    by (simp add: session_def)
  ultimately show ?thesis using r by simp
qed

text \<open>
  C27: At most two retransmissions.  Take an active session with frames outstanding and no request
  counted, and any run in which the engine is only asked to retransmit (by a telemetry word with the
  retransmit flag that confirms nothing, or by the expired T1 timer, in any mixture) or ticks
  quietly.  The oldest frame is sent again on the first and on the second request and nothing else
  is sent; the third request, and nothing before it, aborts the session to its initial state and
  drops everything outstanding; no fourth request can occur.
\<close>

theorem two_retransmissions_then_abort:
  assumes "cop1_reach t1 e" "c_state e = Active" "c_window e = (seq, p) # w" "c_retx e = 0"
    and "requests_in e evs = Some n" "cop1_exec e evs = (accepted, fs, logs, e')"
  shows "n \<le> 3
    \<and> fs = replicate (min n 2) \<lparr>tf_vc_id = 0, tf_type = TypeAd, tf_seq = seq, tf_payload = p\<rparr>
    \<and> (aborts logs \<longleftrightarrow> n = 3)
    \<and> (if n = 3 then c_state e' = Initial \<and> c_window e' = []
       else c_window e' = c_window e \<and> unat (c_retx e') = n)"
proof -
  have "session_waiting e (c_window e) 0" using assms(2,4) by (simp add: session_waiting_def)
  from requests_run [OF reach_inv [OF assms(1)] this assms(5,6)] show ?thesis
    by (auto simp: resend_def assms(3) session_waiting_def session_closed_def concat_replicate_single split: if_splits)
qed

theorem two_retransmissions_then_abort_witness:
  "\<exists>accepted logs e'. cop1_exec session
      [Tick 5 True (Some [0, 0, 32, 0]), Tick 6 False None, Tick 7 True (Some [0, 0, 32, 0]), Tick 8 True (Some [0, 0, 32, 0])]
    = (accepted, replicate 2 \<lparr>tf_vc_id = 0, tf_type = TypeAd, tf_seq = 0, tf_payload = [10]\<rparr>, logs, e')
    \<and> aborts logs \<and> c_state e' = Initial \<and> c_window e' = []
    \<and> requests_in session [Tick 12 False None, Tick 13 True (Some [0, 0, 32, 0])] = Some 2"
proof -
  let ?evs = "[Tick 5 True (Some [0, 0, 32, 0]), Tick 6 False None, Tick 7 True (Some [0, 0, 32, 0]), Tick 8 True (Some [0, 0, 32, 0])]"
  obtain accepted fs logs e' where r: "cop1_exec session ?evs = (accepted, fs, logs, e')"
    by (metis prod_cases4)
  have "requests_in session ?evs = Some 3" "requests_in session [Tick 12 False None, Tick 13 True (Some [0, 0, 32, 0])] = Some 2"
    by code_simp+
  with two_retransmissions_then_abort [OF session_reach _ _ _ _ r, of 0 "[10]" "[(1, [11]), (2, [12])]" 3] r
  show ?thesis by (simp add: session_def)
qed

text \<open>
  A session wedges when telemetry stops after a retransmit request: from
  \<open>RetransmitWithoutWait\<close>, ticks without a new telemetry word never send a frame and never leave the
  state however long T1 has been expired, and every submission is refused.
\<close>

theorem retransmit_without_wait_wedges:
  assumes "c_state e = RetransmitWithoutWait"
  shows "c_state (foldl (\<lambda>e now. snd (snd (cop1_tick e now False c))) e ts) = RetransmitWithoutWait
    \<and> fst (cop1_tick (foldl (\<lambda>e now. snd (snd (cop1_tick e now False c))) e ts) now False c) = []
    \<and> fst (cop1_submit (foldl (\<lambda>e now. snd (snd (cop1_tick e now False c))) e ts) now spp)
        = Inl (NotInActiveState RetransmitWithoutWait)"
proof -
  have t: "c_state (snd (snd (cop1_tick e now False c))) = RetransmitWithoutWait
      \<and> fst (cop1_tick e now False c) = []" if "c_state e = RetransmitWithoutWait" for e now
    using that by (simp add: cop1_tick_def tick_ingest_def tick_timer_def tick_stale_def Let_def
        split: option.splits)
  have "c_state (foldl (\<lambda>e now. snd (snd (cop1_tick e now False c))) e ts) = RetransmitWithoutWait"
    using assms by (induction ts arbitrary: e) (simp_all add: t)
  then show ?thesis by (simp add: t cop1_submit_def)
qed

theorem retransmit_without_wait_wedges_witness:
  "fst (cop1_tick (session\<lparr>c_state := RetransmitWithoutWait\<rparr>) 1000000 False None) = []"
  using retransmit_without_wait_wedges [of "session\<lparr>c_state := RetransmitWithoutWait\<rparr>" None "[]" 1000000]
  by simp

text \<open>
  The stale-telemetry warning is emitted at most once a second, and an overdue telemetry word
  that is not reported follows a report less than a second old.
\<close>

theorem stale_warning_rate_limited:
  assumes "sorted (map fst inputs)"
  shows "spaced (from_secs 1) (emission_times cop1_tick_step cop1_warns_stale fst e inputs)
    \<and> (clcw_overdue e i \<and> \<not> cop1_warns_stale e i \<longrightarrow>
        (\<exists>l. c_last_stale e = Some l \<and> fst i - l < from_secs 1))"
  using cop1_stale.times_spaced [OF assms, of e] cop1_stale.suppressed_only_recently [of e i]
  by (auto simp: clcw_stale_event_interval_def)

theorem stale_warning_rate_limited_witness:
  "spaced (from_secs 1) (emission_times cop1_tick_step cop1_warns_stale fst session
     [(100, False, None), (200, False, None)])"
  by (rule stale_warning_rate_limited [THEN conjunct1]) simp

end
