(* ===== verification/Uplink_Builder.thy ===== *)
theory Uplink_Builder
  imports Ccsds_Packet
begin

text \<open>
  The telecommand catalogue, \<open>rust/ground_station/src/uplink/builder.rs\<close>: every operator intent
  becomes one space packet with fixed identifiers.  Signed fields are words; their bytes are the
  same as those of the unsigned word.
\<close>

definition cryobot_drill_max_current :: u16 where
  "cryobot_drill_max_current = 1000"

datatype tc_intent =
    OrbiterSetMode u8 u8
  | OrbiterEventFilter u8 u8 u32
  | OrbiterAdcsTargetQ "u32 \<times> u32 \<times> u32 \<times> u32" u8
  | OrbiterPowerArm u8 u16
  | OrbiterPowerSwitch u8 bool u16
  | CryobotSetMode u8 u16
  | CryobotBwCollapse bool u16
  | CryobotArm u16
  | CryobotSetDrillRpm u16 u16 u16

datatype builder_error = ForbiddenParam string | Serialize ccsds_error

definition bool_u8 :: "bool \<Rightarrow> u8" where
  "bool_u8 b = (if b then 1 else 0)"

fun decompose :: "tc_intent \<Rightarrow> builder_error + (u16 \<times> u16 \<times> u8 \<times> bytes)" where
  "decompose (OrbiterSetMode new_mode reason_code) =
     Inr (0x181, 0x0100, 1, [new_mode, reason_code])"
| "decompose (OrbiterEventFilter filter_app_id min_event_type event_mask) =
     Inr (0x181, 0x0200, 1, [filter_app_id, min_event_type] @ be32 event_mask)"
| "decompose (OrbiterAdcsTargetQ (q0, q1, q2, q3) slew_mode) =
     Inr (0x182, 0x0100, 1, be32 q0 @ be32 q1 @ be32 q2 @ be32 q3 @ [slew_mode, 0])"
| "decompose (OrbiterPowerArm switch_index confirm_magic) =
     Inr (0x184, 0x8000, 1, [switch_index] @ be16 confirm_magic)"
| "decompose (OrbiterPowerSwitch switch_index new_state confirm_magic) =
     Inr (0x184, 0x8100, 1, [switch_index, bool_u8 new_state] @ be16 confirm_magic)"
| "decompose (CryobotSetMode new_mode confirm_magic) =
     Inr (0x440, 0x0100, 1, [new_mode, 0] @ be16 confirm_magic)"
| "decompose (CryobotBwCollapse enable duration_s) =
     Inr (0x440, 0x0300, 1, [bool_u8 enable, 0] @ be16 duration_s)"
| "decompose (CryobotArm confirm_magic) =
     Inr (0x440, 0x8000, 1, be16 confirm_magic)"
| "decompose (CryobotSetDrillRpm target_rpm max_current_10ma confirm_magic) =
     (if max_current_10ma > cryobot_drill_max_current
      then Inl (ForbiddenParam
        ''max_current_10ma > 1000 (10 A): exceeds cryobot drill current safety limit'')
      else Inr (0x440, 0x8200, 1,
        be16 target_rpm @ be16 max_current_10ma @ be16 confirm_magic @ be16 0))"

definition tc_build :: "tc_intent \<Rightarrow> sequence_count \<Rightarrow> cuc \<Rightarrow> builder_error + bytes" where
  "tc_build intent seq now =
     and_then (decompose intent) (\<lambda>(apid_raw, func_raw, instance_raw, user_data).
     and_then (map_err Serialize (apid_new apid_raw)) (\<lambda>a.
     and_then (map_err Serialize (fc_new func_raw)) (\<lambda>f.
     and_then (map_err Serialize (iid_new instance_raw)) (\<lambda>i.
       map_err Serialize (builder_build
         (with_user_data user_data
         (with_sequence_count seq
         (with_cuc now
         (with_instance_id i
         (with_func_code f (builder_tc a)))))))))))"

section \<open>The catalogue\<close>

definition catalogue :: "(u16 \<times> u16) set" where
  "catalogue = {(0x181, 0x0100), (0x181, 0x0200), (0x182, 0x0100), (0x184, 0x8000), (0x184, 0x8100),
     (0x440, 0x0100), (0x440, 0x0300), (0x440, 0x8000), (0x440, 0x8200)}"

lemma decompose_catalogue:
  assumes "decompose intent = Inr (a, f, i, ud)"
  shows "(a, f) \<in> catalogue" "i = 1" "length ud \<le> 18"
  using assms by (cases intent rule: decompose.cases; auto simp: catalogue_def split: if_splits)+

lemma catalogue_ok:
  assumes "(a, f) \<in> catalogue"
  shows "apid_new a = Inr (Apid a)" "apid_ok (Apid a)" "fc_new f = Inr (FuncCode f)" "fc_ok (FuncCode f)"
  using assms
  by (auto simp: catalogue_def apid_new_def apid_max_def apid_ok_def fc_new_def fc_ok_def
      word_le_nat_alt word_less_nat_alt)

definition tc_packet :: "u16 \<Rightarrow> u16 \<Rightarrow> bytes \<Rightarrow> sequence_count \<Rightarrow> cuc \<Rightarrow> packet_builder" where
  "tc_packet a f ud seq now =
     \<lparr>pb_apid = Apid a, pb_type = Tc, pb_seq = Some seq, pb_cuc = now, pb_func = Some (FuncCode f),
      pb_inst = Some (InstanceId 1), pb_data = ud\<rparr>"

lemma tc_build_eq:
  "tc_build intent seq now =
     (case decompose intent of
        Inl e \<Rightarrow> Inl e
      | Inr (a, f, i, ud) \<Rightarrow> map_err Serialize (builder_build (tc_packet a f ud seq now)))"
proof (cases "decompose intent")
  case (Inr d)
  obtain a f i ud where d: "d = (a, f, i, ud)" by (metis prod_cases4)
  note c = decompose_catalogue [OF Inr [unfolded d]]
  show ?thesis
    by (simp add: tc_build_def Inr d catalogue_ok [OF c(1)] c(2) iid_new_def tc_packet_def
        with_user_data_def with_sequence_count_def with_cuc_def with_instance_id_def
        with_func_code_def builder_tc_def builder_new_def)
qed (simp add: tc_build_def)

lemma tc_packet_builds:
  assumes "decompose intent = Inr (a, f, i, ud)" "sc_ok seq"
  shows "\<exists>bs k. tc_build intent seq now = Inr bs \<and> sp_parse bs = Inr k
    \<and> k = builder_packet (tc_packet a f ud seq now) (FuncCode f) (InstanceId 1)"
proof -
  note c = decompose_catalogue [OF assms(1)]
  have ok: "builder_ok (tc_packet a f ud seq now)"
    using assms(2) catalogue_ok [OF c(1)] by (simp add: builder_ok_def tc_packet_def iid_ok_def)
  obtain bs where bs: "builder_build (tc_packet a f ud seq now) = Inr bs"
    using c(3) by (simp add: builder_build_eq tc_packet_def)
  show ?thesis
    using builder_parse [OF ok bs] bs by (simp add: tc_build_eq assms(1)) (simp add: tc_packet_def)
qed

lemma be_inj [simp]: "be16 v = be16 w \<longleftrightarrow> v = w" "be32 x = be32 y \<longleftrightarrow> x = y"
  by (metis slice_be16_be16 option.inject, metis slice_be32_be32 option.inject)

lemma decompose_inj:
  assumes "decompose i1 = Inr d" "decompose i2 = Inr d"
  shows "i1 = i2"
proof -
  have "bool_u8 b = bool_u8 c \<longleftrightarrow> b = c" for b c by (simp add: bool_u8_def)
  then show ?thesis
    using assms
    by (cases i1 rule: decompose.cases; cases i2 rule: decompose.cases; auto split: if_splits)
qed

lemma tc_build_InrD:
  assumes "tc_build intent seq now = Inr bs"
  obtains a f ud where "decompose intent = Inr (a, f, 1, ud)"
proof (cases "decompose intent")
  case (Inr d)
  obtain a f i ud where "d = (a, f, i, ud)" by (metis prod_cases4)
  then show ?thesis using that Inr decompose_catalogue(2) by metis
qed (use assms in \<open>simp add: tc_build_eq\<close>)

lemma tc_build_parses:
  assumes "tc_build intent seq now = Inr bs" "sc_ok seq"
  shows "\<exists>k a f ud. sp_parse bs = Inr k \<and> decompose intent = Inr (a, f, 1, ud)
    \<and> ph_type (sp_primary k) = Tc \<and> ph_apid (sp_primary k) = Apid a
    \<and> sh_func (sp_secondary k) = FuncCode f \<and> sh_inst (sp_secondary k) = InstanceId 1
    \<and> ph_seq (sp_primary k) = seq \<and> sh_time (sp_secondary k) = now \<and> sp_user_data k = ud"
proof -
  obtain a f ud where d: "decompose intent = Inr (a, f, 1, ud)"
    using tc_build_InrD [OF assms(1)] .
  show ?thesis
    using tc_packet_builds [OF d assms(2), of now] assms(1) d
    by (auto simp: builder_packet_def tc_packet_def primary_new_def secondary_new_def)
qed

section \<open>Properties\<close>

text \<open>
  C28: Only catalogued telecommands leave the builder.  Whatever it emits parses as a telecommand
  packet of instance 1 whose APID and function code are one of the nine pairs of the catalogue,
  with the requested sequence count and time, the intent's payload, and at most 34 bytes.
\<close>

theorem tc_build_catalogued:
  assumes "tc_build intent seq now = Inr bs" "sc_ok seq"
  shows "\<exists>k a f ud. sp_parse bs = Inr k \<and> decompose intent = Inr (a, f, 1, ud) \<and> (a, f) \<in> catalogue
    \<and> ph_type (sp_primary k) = Tc \<and> ph_apid (sp_primary k) = Apid a
    \<and> sh_func (sp_secondary k) = FuncCode f \<and> sh_inst (sp_secondary k) = InstanceId 1
    \<and> ph_seq (sp_primary k) = seq \<and> sh_time (sp_secondary k) = now \<and> sp_user_data k = ud
    \<and> total_len k \<le> 34"
proof -
  obtain k a f ud where k: "sp_parse bs = Inr k" "decompose intent = Inr (a, f, 1, ud)"
    "ph_type (sp_primary k) = Tc" "ph_apid (sp_primary k) = Apid a"
    "sh_func (sp_secondary k) = FuncCode f" "sh_inst (sp_secondary k) = InstanceId 1"
    "ph_seq (sp_primary k) = seq" "sh_time (sp_secondary k) = now" "sp_user_data k = ud"
    using tc_build_parses [OF assms] by blast
  show ?thesis
    using k decompose_catalogue [OF k(2)]
    by (intro exI [of _ k] exI [of _ a] exI [of _ f] exI [of _ ud]) (simp add: total_len_def)
qed

theorem tc_build_catalogued_witness:
  "\<exists>bs k. tc_build (CryobotArm 0xCBA0) (SequenceCount 3) \<lparr>coarse = 9, fine = 0\<rparr> = Inr bs
     \<and> sp_parse bs = Inr k \<and> ph_apid (sp_primary k) = Apid 0x440"
proof -
  obtain bs where bs: "tc_build (CryobotArm 0xCBA0) (SequenceCount 3) \<lparr>coarse = 9, fine = 0\<rparr> = Inr bs"
    by (simp add: tc_build_eq builder_build_eq tc_packet_def)
  have "sc_ok (SequenceCount 3)" by (simp add: sc_ok_def sc_max_def)
  from tc_build_catalogued [OF bs this] bs show ?thesis by auto
qed

text \<open>
  C29: The builder refuses an intent exactly when it asks for more than ten amperes of drill
  current; no other intent fails.  The drill current is the only parameter that is validated: a
  \<open>confirm_magic\<close> that the packet catalogue forbids, or a mode that it does not list, is built into a
  telecommand like any other value, although the module text promises validation of the parameters
  against the catalogue.
\<close>

theorem tc_build_refuses_exactly:
  "tc_build intent seq now = Inl e \<longleftrightarrow>
     (\<exists>rpm current magic. intent = CryobotSetDrillRpm rpm current magic \<and> unat current > 1000
       \<and> e = ForbiddenParam ''max_current_10ma > 1000 (10 A): exceeds cryobot drill current safety limit'')"
proof (cases "decompose intent")
  case (Inl e')
  then show ?thesis
    by (cases intent rule: decompose.cases)
      (auto simp: tc_build_eq cryobot_drill_max_current_def word_less_nat_alt split: if_splits)
next
  case (Inr d)
  obtain a f i ud where d: "d = (a, f, i, ud)" by (metis prod_cases4)
  have "is_ok (tc_build intent seq now)"
    using decompose_catalogue(3) [OF Inr [unfolded d]]
    by (simp add: tc_build_eq Inr d builder_build_eq tc_packet_def)
  moreover have "\<not> (\<exists>rpm current magic. intent = CryobotSetDrillRpm rpm current magic \<and> unat current > 1000)"
    using Inr by (auto simp: cryobot_drill_max_current_def word_less_nat_alt split: if_splits)
  ultimately show ?thesis by (auto simp: is_ok_iff)
qed

text \<open>
  Distinct commands have distinct images: from the bytes of a built packet the intent, the
  sequence count and the time can all be recovered.
\<close>

theorem tc_build_injective:
  assumes "tc_build i1 s1 t1 = Inr bs" "tc_build i2 s2 t2 = Inr bs" "sc_ok s1" "sc_ok s2"
  shows "i1 = i2 \<and> s1 = s2 \<and> t1 = t2"
proof -
  obtain k1 a1 f1 u1 where k1: "sp_parse bs = Inr k1" "decompose i1 = Inr (a1, f1, 1, u1)"
    "ph_apid (sp_primary k1) = Apid a1" "sh_func (sp_secondary k1) = FuncCode f1"
    "ph_seq (sp_primary k1) = s1" "sh_time (sp_secondary k1) = t1" "sp_user_data k1 = u1"
    using tc_build_parses [OF assms(1,3)] by blast
  obtain k2 a2 f2 u2 where k2: "sp_parse bs = Inr k2" "decompose i2 = Inr (a2, f2, 1, u2)"
    "ph_apid (sp_primary k2) = Apid a2" "sh_func (sp_secondary k2) = FuncCode f2"
    "ph_seq (sp_primary k2) = s2" "sh_time (sp_secondary k2) = t2" "sp_user_data k2 = u2"
    using tc_build_parses [OF assms(2,4)] by blast
  have "k1 = k2" using k1(1) k2(1) by simp
  then have "decompose i2 = Inr (a1, f1, 1, u1)"
    using k1(3-7) k2(2-7) by simp
  then show ?thesis
    using decompose_inj k1 k2 \<open>k1 = k2\<close> by blast
qed

theorem tc_build_injective_witness:
  "\<exists>bs. tc_build (CryobotArm 1) (SequenceCount 3) \<lparr>coarse = 9, fine = 0\<rparr> = Inr bs
     \<and> tc_build (CryobotArm 2) (SequenceCount 3) \<lparr>coarse = 9, fine = 0\<rparr> \<noteq> Inr bs"
proof -
  obtain bs where bs: "tc_build (CryobotArm 1) (SequenceCount 3) \<lparr>coarse = 9, fine = 0\<rparr> = Inr bs"
    by (simp add: tc_build_eq builder_build_eq tc_packet_def)
  have "sc_ok (SequenceCount 3)" by (simp add: sc_ok_def sc_max_def)
  from tc_build_injective [OF bs _ this this, of "CryobotArm 2" "\<lparr>coarse = 9, fine = 0\<rparr>"] bs
  show ?thesis by auto
qed

end
