(* ===== verification/Uplink_Framer.thy ===== *)
theory Uplink_Framer
  imports Uplink_Cop1
begin

text \<open>
  The telecommand transfer frame encoder, \<open>rust/ground_station/src/uplink/framer.rs\<close>.  The CRC-16
  engine of the \<open>crc\<close> crate is the argument \<open>crc16\<close>.
\<close>

record tc_framer =
  tr_spacecraft_id :: u16

datatype tc_framer_error = PayloadTooLarge nat

definition tc_framer_new :: "u16 \<Rightarrow> tc_framer" where
  "tc_framer_new scid = \<lparr>tr_spacecraft_id = scid\<rparr>"

fun frame_flags :: "tc_frame_type \<Rightarrow> u8 \<times> u8" where
  "frame_flags TypeAd = (0, 0)"
| "frame_flags TypeBd = (1, 0)"
| "frame_flags TypeBc = (1, 1)"

definition tc_encode_frame :: "(bytes \<Rightarrow> u16) \<Rightarrow> tc_framer \<Rightarrow> tc_frame \<Rightarrow> tc_framer_error + bytes" where
  "tc_encode_frame crc16 fr f =
     (let payload_len = length (tf_payload f);
          total_len = 5 + payload_len + 2 in
      if total_len > tc_frame_max_bytes then Inl (PayloadTooLarge payload_len)
      else
        let frame_len_m1 = (of_nat (total_len - 1) :: u16);
            (bypass, cc) = frame_flags (tf_type f);
            scid = tr_spacecraft_id fr;
            vc = tf_vc_id f AND 0x3F;
            b0 = push_bit 5 bypass OR push_bit 4 cc OR (ucast (drop_bit 8 scid) AND 0x03);
            b1 = ucast (scid AND 0xFF);
            b2 = push_bit 2 vc OR (ucast (drop_bit 8 frame_len_m1) AND 0x03);
            b3 = ucast (frame_len_m1 AND 0xFF);
            b4 = tf_seq f;
            out = [b0, b1, b2, b3, b4] @ tf_payload f
        in Inr (out @ be16 (crc16 out)))"

section \<open>Reading a frame back\<close>

text \<open>
  The receiving side of the frame layout: version and reserved bits zero, flags, ten-bit
  spacecraft identifier, six-bit virtual channel, ten-bit length minus one, sequence number, data
  and check field.
\<close>

record tc_view =
  tv_bypass :: bool
  tv_command :: bool
  tv_scid :: u16
  tv_vc :: u8
  tv_length :: nat
  tv_seq :: u8
  tv_payload :: bytes
  tv_fecf :: bytes

definition tc_view_of :: "bytes \<Rightarrow> tc_view" where
  "tc_view_of bs =
     \<lparr>tv_bypass = bit (bs ! 0) 5, tv_command = bit (bs ! 0) 4,
      tv_scid = from_be16 (bs ! 0 AND 0x03) (bs ! 1),
      tv_vc = drop_bit 2 (bs ! 2),
      tv_length = unat (from_be16 (bs ! 2 AND 0x03) (bs ! 3)) + 1,
      tv_seq = bs ! 4,
      tv_payload = take (length bs - 7) (drop 5 bs),
      tv_fecf = drop (length bs - 2) bs\<rparr>"

lemma ten_bits:
  fixes w :: u16 and v :: u8
  assumes "v AND 0x03 = 0"
  shows "from_be16 ((v OR (ucast (drop_bit 8 w) AND 0x03)) AND 0x03) (ucast (w AND 0xFF)) = w AND 0x3FF"
proof -
  have "\<not> bit v 0" "\<not> bit v 1"
    using assms by (auto simp: u8_eq_iff bit_simps)
  then show ?thesis
    by (intro u16_eqI) (auto simp: from_be16_def bit_simps)
qed

lemma flag_bits:
  fixes s :: u8
  assumes "(bypass, cc) = frame_flags t"
  shows "bit (push_bit 5 bypass OR push_bit 4 cc OR (s AND 0x03)) 5 = (t \<noteq> TypeAd)"
    and "bit (push_bit 5 bypass OR push_bit 4 cc OR (s AND 0x03)) 4 = (t = TypeBc)"
    and "(push_bit 5 bypass OR push_bit 4 cc) AND 0x03 = 0"
  using assms by (cases t; simp add: u8_eq_iff bit_simps)+

lemma vc_bits:
  fixes v s :: u8
  shows "drop_bit 2 (push_bit 2 (v AND 0x3F) OR (s AND 0x03)) = v AND 0x3F"
    and "push_bit 2 (v AND 0x3F) AND 0x03 = 0"
  by (simp_all add: u8_eq_iff bit_simps)

lemma length_field: "n < 1024 \<Longrightarrow> unat ((of_nat n :: u16) AND 0x3FF) = n"
proof -
  assume n: "n < 1024"
  have "(of_nat n :: u16) AND 0x3FF = of_nat n"
  proof -
    have "(of_nat n :: u16) AND mask 10 = of_nat n"
      using n by (simp add: mask_eq_iff uint_nat unat_of_nat)
    then show ?thesis by (simp add: mask_eq_exp_minus_1)
  qed
  then show ?thesis using n by (simp add: unat_of_nat)
qed

definition frame_view :: "(bytes \<Rightarrow> u16) \<Rightarrow> tc_framer \<Rightarrow> tc_frame \<Rightarrow> bytes \<Rightarrow> tc_view" where
  "frame_view crc16 fr f bs =
     \<lparr>tv_bypass = (tf_type f \<noteq> TypeAd), tv_command = (tf_type f = TypeBc),
      tv_scid = tr_spacecraft_id fr AND 0x3FF, tv_vc = tf_vc_id f AND 0x3F,
      tv_length = length bs, tv_seq = tf_seq f, tv_payload = tf_payload f,
      tv_fecf = be16 (crc16 (take (length bs - 2) bs))\<rparr>"

lemma tc_encode_frame_view:
  assumes "length (tf_payload f) \<le> 505"
  shows "\<exists>bs. tc_encode_frame crc16 fr f = Inr bs \<and> length bs = 7 + length (tf_payload f)
    \<and> tc_view_of bs = frame_view crc16 fr f bs"
proof -
  obtain bypass cc where fl: "frame_flags (tf_type f) = (bypass, cc)" by fastforce
  note flags = flag_bits [OF fl [symmetric]]
  define n where "n = 5 + length (tf_payload f) + 2 - 1"
  define b0 where "b0 = push_bit 5 bypass OR push_bit 4 cc OR (ucast (drop_bit 8 (tr_spacecraft_id fr)) AND 0x03)"
  define b1 :: u8 where "b1 = ucast (tr_spacecraft_id fr AND 0xFF)"
  define b2 where "b2 = push_bit 2 (tf_vc_id f AND 0x3F) OR (ucast (drop_bit 8 (of_nat n :: u16)) AND 0x03)"
  define b3 :: u8 where "b3 = ucast ((of_nat n :: u16) AND 0xFF)"
  define out where "out = [b0, b1, b2, b3, tf_seq f] @ tf_payload f"
  have small: "\<not> 512 < 5 + length (tf_payload f) + 2" using assms by simp
  have enc: "tc_encode_frame crc16 fr f = Inr (out @ be16 (crc16 out))"
    unfolding tc_encode_frame_def Let_def fl prod.case n_def [symmetric] out_def
      b0_def b1_def b2_def b3_def tc_frame_max_bytes_def by (rule if_not_P [OF small])
  have scid: "from_be16 (b0 AND 0x03) b1 = tr_spacecraft_id fr AND 0x3FF"
    unfolding b0_def b1_def or.assoc [symmetric] by (rule ten_bits [OF flags(3)])
  have "n < 1024" using assms by (simp add: n_def)
  then have len: "unat (from_be16 (b2 AND 0x03) b3) = n"
    unfolding b2_def b3_def ten_bits [OF vc_bits(2)] by (rule length_field)
  have "bit b0 5 = (tf_type f \<noteq> TypeAd)" "bit b0 4 = (tf_type f = TypeBc)"
    "drop_bit 2 b2 = tf_vc_id f AND 0x3F"
    unfolding b0_def b2_def by (rule flags(1), rule flags(2), rule vc_bits(1))
  then show ?thesis
    using assms by (simp add: enc tc_view_of_def frame_view_def out_def scid len) (simp add: n_def)
qed

section \<open>Properties\<close>

text \<open>
  C30: A frame is built exactly for payloads of at most 505 bytes; it is at most 512 bytes long,
  and read back by its layout it yields the frame's type flags, the low ten bits of the spacecraft
  identifier, the low six bits of the virtual channel, its own length, the sequence number, the
  payload, and the CRC of everything before the check field.
\<close>

theorem tc_frame_roundtrip:
  "case tc_encode_frame crc16 fr f of
     Inl e \<Rightarrow> length (tf_payload f) > 505 \<and> e = PayloadTooLarge (length (tf_payload f))
   | Inr bs \<Rightarrow> length (tf_payload f) \<le> 505 \<and> length bs = 7 + length (tf_payload f)
       \<and> length bs \<le> 512
       \<and> tc_view_of bs =
          \<lparr>tv_bypass = (tf_type f \<noteq> TypeAd), tv_command = (tf_type f = TypeBc),
           tv_scid = tr_spacecraft_id fr AND 0x3FF, tv_vc = tf_vc_id f AND 0x3F,
           tv_length = length bs, tv_seq = tf_seq f, tv_payload = tf_payload f,
           tv_fecf = be16 (crc16 (take (length bs - 2) bs))\<rparr>"
  using tc_encode_frame_view [of f crc16 fr]
  by (cases "length (tf_payload f) > 505")
    (auto simp: frame_view_def tc_encode_frame_def tc_frame_max_bytes_def)

end
