(* ===== verification/Text.thy ===== *)
theory Text
  imports Prelude
begin

text \<open>
  Text as the Rust code handles it.  A \<open>String\<close> is modelled by its UTF-8 bytes, one HOL
  character per byte, so that ASCII literals are ordinary string literals.  The theory holds
  number formatting (\<open>{}\<close> and \<open>{:03X}\<close>) and the decoding of byte strings (\<open>String::from_utf8\<close>
  and \<open>String::from_utf8_lossy\<close>).
\<close>

definition byte_char :: "u8 \<Rightarrow> char" where
  "byte_char b = char_of (unat b)"

definition char_byte :: "char \<Rightarrow> u8" where
  "char_byte c = word_of_nat (of_char c)"

lemma char_byte_inverse [simp]: "char_byte (byte_char b) = b"
proof -
  have "unat b < 2 ^ LENGTH(8)"
    by (rule unsigned_less)
  then show ?thesis
    by (simp add: char_byte_def byte_char_def)
qed

lemma byte_char_inverse [simp]: "byte_char (char_byte c) = c"
  by (simp add: char_byte_def byte_char_def unat_of_nat)

section \<open>Numbers\<close>

fun digits :: "nat \<Rightarrow> nat \<Rightarrow> nat list" where
  "digits b n = (if b < 2 \<or> n < b then [n] else digits b (n div b) @ [n mod b])"

declare digits.simps [simp del]

definition digit_char :: "nat \<Rightarrow> char" where
  "digit_char d = (if d < 10 then char_of (48 + d) else char_of (55 + d))"

definition dec_string :: "nat \<Rightarrow> string" where
  "dec_string n = map digit_char (digits 10 n)"

definition hex_string :: "nat \<Rightarrow> string" where
  "hex_string n = map digit_char (digits 16 n)"

definition zero_pad :: "nat \<Rightarrow> string \<Rightarrow> string" where
  "zero_pad w s = replicate (w - length s) CHR ''0'' @ s"

lemma digits_value: "2 \<le> b \<Longrightarrow> foldl (\<lambda>a d. a * b + d) 0 (digits b n) = n"
proof (induction b n rule: digits.induct)
  case (1 b n)
  show ?case
  proof (cases "n < b")
    case False
    then show ?thesis
      using 1 by (simp add: digits.simps [of b n])
  qed (simp add: digits.simps [of b n])
qed

lemma digits_bound: "2 \<le> b \<Longrightarrow> d \<in> set (digits b n) \<Longrightarrow> d < b"
proof (induction b n rule: digits.induct)
  case (1 b n)
  show ?case
  proof (cases "n < b")
    case True
    then show ?thesis using 1(2,3) by (simp add: digits.simps [of b n])
  next
    case False
    then show ?thesis
      using 1 by (auto simp: digits.simps [of b n])
  qed
qed

lemma digits_not_Nil [simp]: "digits b n \<noteq> []"
  by (cases "b < 2 \<or> n < b") (simp_all add: digits.simps [of b n])

lemma of_char_digit: "d < 16 \<Longrightarrow> (of_char (digit_char d) :: nat) = (if d < 10 then 48 + d else 55 + d)"
proof -
  assume "d < 16"
  then have "(48 + d) mod 256 = 48 + d" "(55 + d) mod 256 = 55 + d"
    by (intro mod_less; linarith)+
  then show ?thesis
    unfolding digit_char_def by (cases "d < 10") (simp_all only: if_True if_False of_char_of)
qed

lemma digit_char_inj:
  assumes "d < 16" "e < 16" "digit_char d = digit_char e"
  shows "d = e"
proof -
  have "(if d < 10 then 48 + d else 55 + d) = (if e < 10 then 48 + e else 55 + e)"
    unfolding of_char_digit [OF assms(1), symmetric] of_char_digit [OF assms(2), symmetric] assms(3) ..
  then show ?thesis by (simp split: if_splits)
qed

lemma dec_string_inj: "dec_string m = dec_string n \<Longrightarrow> m = n"
proof -
  assume eq: "dec_string m = dec_string n"
  have bound: "\<And>d k. d \<in> set (digits 10 k) \<Longrightarrow> d < 16"
    using digits_bound [of 10] by fastforce
  have "inj_on digit_char {..<16}"
    by (rule inj_onI, rule digit_char_inj) (simp_all only: lessThan_iff)
  moreover have "set (digits 10 m) \<union> set (digits 10 n) \<subseteq> {..<16}"
    using bound by blast
  ultimately have "inj_on digit_char (set (digits 10 m) \<union> set (digits 10 n))"
    by (rule inj_on_subset)
  from inj_on_map_eq_map [OF this] have "digits 10 m = digits 10 n"
    using eq by (simp add: dec_string_def)
  moreover have "foldl (\<lambda>a d. a * 10 + d) 0 (digits 10 k) = k" for k
    by (rule digits_value) simp
  ultimately show "m = n" by metis
qed

section \<open>UTF-8\<close>

text \<open>
  The decoder of the standard library: \<open>utf8_head\<close> classifies the head of a nonempty byte string
  as one scalar value of 1 to 4 bytes, or as a maximal malformed prefix.  \<open>from_utf8\<close> accepts a
  string of scalars; \<open>from_utf8_lossy\<close> replaces each malformed prefix by U+FFFD.  Reading past
  the end gives zero, as the library's \<open>safe_get\<close> does.
\<close>

datatype utf8_unit = Scalar nat | Malformed nat

definition is_cont :: "u8 \<Rightarrow> bool" where
  "is_cont b \<longleftrightarrow> b AND 0xC0 = 0x80"

definition byte_in :: "u8 \<Rightarrow> u8 \<Rightarrow> u8 \<Rightarrow> bool" where
  "byte_in lo hi b \<longleftrightarrow> lo \<le> b \<and> b \<le> hi"

definition utf8_head :: "bytes \<Rightarrow> utf8_unit" where
  "utf8_head bs =
     (let g = (\<lambda>i. if i < length bs then bs ! i else 0); b = g 0 in
      if b < 0x80 then Scalar 1
      else if byte_in 0xC2 0xDF b then (if is_cont (g 1) then Scalar 2 else Malformed 1)
      else if byte_in 0xE0 0xEF b then
        (if (b = 0xE0 \<and> byte_in 0xA0 0xBF (g 1)) \<or> (byte_in 0xE1 0xEC b \<and> byte_in 0x80 0xBF (g 1))
            \<or> (b = 0xED \<and> byte_in 0x80 0x9F (g 1)) \<or> (byte_in 0xEE 0xEF b \<and> byte_in 0x80 0xBF (g 1))
         then (if is_cont (g 2) then Scalar 3 else Malformed 2)
         else Malformed 1)
      else if byte_in 0xF0 0xF4 b then
        (if (b = 0xF0 \<and> byte_in 0x90 0xBF (g 1)) \<or> (byte_in 0xF1 0xF3 b \<and> byte_in 0x80 0xBF (g 1))
            \<or> (b = 0xF4 \<and> byte_in 0x80 0x8F (g 1))
         then (if is_cont (g 2) then (if is_cont (g 3) then Scalar 4 else Malformed 3) else Malformed 2)
         else Malformed 1)
      else Malformed 1)"

lemma utf8_head_size:
  "utf8_head bs = Scalar n \<Longrightarrow> 0 < n" "utf8_head bs = Malformed n \<Longrightarrow> 0 < n"
  by (auto simp: utf8_head_def Let_def split: if_splits)

lemma utf8_drop:
  "bs \<noteq> [] \<Longrightarrow> utf8_head bs = Scalar n \<Longrightarrow> length bs - n < length bs"
  "bs \<noteq> [] \<Longrightarrow> utf8_head bs = Malformed n \<Longrightarrow> length bs - n < length bs"
  using utf8_head_size [of bs n] by simp_all

function from_utf8 :: "bytes \<Rightarrow> string option" where
  "from_utf8 bs =
     (if bs = [] then Some []
      else case utf8_head bs of
        Scalar n \<Rightarrow> map_option ((@) (map byte_char (take n bs))) (from_utf8 (drop n bs))
      | Malformed n \<Rightarrow> None)"
  by pat_completeness auto
termination
  by (relation "measure length") (auto simp: utf8_drop)

function from_utf8_lossy :: "bytes \<Rightarrow> string" where
  "from_utf8_lossy bs =
     (if bs = [] then []
      else case utf8_head bs of
        Scalar n \<Rightarrow> map byte_char (take n bs) @ from_utf8_lossy (drop n bs)
      | Malformed n \<Rightarrow> map byte_char [0xEF, 0xBF, 0xBD] @ from_utf8_lossy (drop n bs))"
  by pat_completeness auto
termination
  by (relation "measure length") (auto simp: utf8_drop)

declare from_utf8.simps [simp del] from_utf8_lossy.simps [simp del]

lemma from_utf8_bytes: "from_utf8 bs = Some s \<Longrightarrow> s = map byte_char bs"
proof (induction bs arbitrary: s rule: from_utf8.induct)
  case (1 bs)
  show ?case
  proof (cases "bs = []")
    case False
    then obtain n t where "utf8_head bs = Scalar n" "from_utf8 (drop n bs) = Some t"
      "s = map byte_char (take n bs) @ t"
      using 1(2) by (subst (asm) from_utf8.simps) (auto split: utf8_unit.splits)
    then show ?thesis
      using 1(1) [OF False, of n t] by (metis append_take_drop_id map_append)
  qed (use 1 in \<open>simp add: from_utf8.simps\<close>)
qed

text \<open>On valid UTF-8 the lossy decoder loses nothing.\<close>

lemma from_utf8_lossy_valid: "from_utf8 bs = Some s \<Longrightarrow> from_utf8_lossy bs = s"
proof (induction bs arbitrary: s rule: from_utf8.induct)
  case (1 bs)
  show ?case
  proof (cases "bs = []")
    case False
    then obtain n t where "utf8_head bs = Scalar n" "from_utf8 (drop n bs) = Some t"
      "s = map byte_char (take n bs) @ t"
      using 1(2) by (subst (asm) from_utf8.simps) (auto split: utf8_unit.splits)
    then show ?thesis
      using 1(1) [OF False] False by (subst from_utf8_lossy.simps) simp
  qed (use 1 in \<open>simp add: from_utf8.simps from_utf8_lossy.simps\<close>)
qed

definition is_ascii :: "bytes \<Rightarrow> bool" where
  "is_ascii bs \<longleftrightarrow> (\<forall>b\<in>set bs. b < 0x80)"

lemma from_utf8_ascii: "is_ascii bs \<Longrightarrow> from_utf8 bs = Some (map byte_char bs)"
proof (induction bs)
  case (Cons b bs)
  then have "utf8_head (b # bs) = Scalar 1"
    by (simp add: utf8_head_def is_ascii_def)
  then show ?case
    using Cons by (subst from_utf8.simps) (simp add: is_ascii_def)
qed (simp add: from_utf8.simps)

end
