(* ===== verification/File_System.thy ===== *)
theory File_System
  imports Text
begin

text \<open>
  The part of \<open>std::path\<close> and \<open>std::fs\<close> that the two file receivers (\<open>cfdp/class1.rs\<close> and
  \<open>mfile/mod.rs\<close>) use.  A path is its text.  The file system is a map from paths to contents
  together with the paths on which opening fails; a call returns an I/O error or the new state.
\<close>

section \<open>Paths\<close>

definition is_absolute :: "string \<Rightarrow> bool" where
  "is_absolute p \<longleftrightarrow> p \<noteq> [] \<and> hd p = CHR ''/''"

text \<open>\<open>Path::join\<close> and \<open>PathBuf::push\<close>: an absolute argument replaces the path.\<close>

definition path_join :: "string \<Rightarrow> string \<Rightarrow> string" where
  "path_join d p =
     (if is_absolute p then p
      else if d \<noteq> [] \<and> last d \<noteq> CHR ''/'' then d @ ''/'' @ p
      else d @ p)"

lemma path_join_inj:
  "\<not> is_absolute p \<Longrightarrow> \<not> is_absolute q \<Longrightarrow> path_join d p = path_join d q \<longleftrightarrow> p = q"
  by (simp add: path_join_def)

section \<open>Files\<close>

record fs =
  fs_files :: "string \<rightharpoonup> bytes"
  fs_denied :: "string \<Rightarrow> io_error option"

definition not_found :: io_error where
  "not_found = IoError ''No such file or directory (os error 2)''"

definition fs_read :: "fs \<Rightarrow> string \<Rightarrow> io_error + bytes" where
  "fs_read s p = (case fs_files s p of None \<Rightarrow> Inl not_found | Some d \<Rightarrow> Inr d)"

text \<open>\<open>fs::write\<close>: create or truncate, then write everything.\<close>

definition fs_write :: "fs \<Rightarrow> string \<Rightarrow> bytes \<Rightarrow> io_error + fs" where
  "fs_write s p d =
     (case fs_denied s p of Some e \<Rightarrow> Inl e | None \<Rightarrow> Inr (s\<lparr>fs_files := (fs_files s)(p \<mapsto> d)\<rparr>))"

text \<open>
  \<open>seek(SeekFrom::Start(offset))\<close> and \<open>write_all(chunk)\<close>: a gap before the offset reads as zeros,
  and writing nothing does not extend the file.
\<close>

definition write_at :: "nat \<Rightarrow> bytes \<Rightarrow> bytes \<Rightarrow> bytes" where
  "write_at offset chunk d =
     (if chunk = [] then d
      else take offset (d @ replicate (offset - length d) 0) @ chunk @ drop (offset + length chunk) d)"

text \<open>Open for writing without truncation, creating the file if needed, and write at an offset.\<close>

definition fs_write_at :: "fs \<Rightarrow> string \<Rightarrow> nat \<Rightarrow> bytes \<Rightarrow> io_error + fs" where
  "fs_write_at s p offset chunk =
     (case fs_denied s p of
        Some e \<Rightarrow> Inl e
      | None \<Rightarrow> Inr (s\<lparr>fs_files := (fs_files s)(p \<mapsto>
          write_at offset chunk (case fs_files s p of None \<Rightarrow> [] | Some d \<Rightarrow> d))\<rparr>))"

definition fs_rename :: "fs \<Rightarrow> string \<Rightarrow> string \<Rightarrow> io_error + fs" where
  "fs_rename s p q =
     (case fs_files s p of
        None \<Rightarrow> Inl not_found
      | Some d \<Rightarrow>
          (case fs_denied s q of
             Some e \<Rightarrow> Inl e
           | None \<Rightarrow> Inr (s\<lparr>fs_files := ((fs_files s)(p := None))(q \<mapsto> d)\<rparr>)))"

lemma fs_write_other:
  "fs_write s p d = Inr s' \<Longrightarrow> q \<noteq> p \<Longrightarrow> fs_files s' q = fs_files s q"
  "fs_write_at s p n c = Inr s' \<Longrightarrow> q \<noteq> p \<Longrightarrow> fs_files s' q = fs_files s q"
  by (auto simp: fs_write_def fs_write_at_def split: option.splits)

section \<open>Reassembly by positioned writes\<close>

lemma length_write_at:
  "length (write_at n c d) = (if c = [] then length d else max (length d) (n + length c))"
  by (auto simp: write_at_def)

lemma nth_write_at:
  assumes "i < length (write_at n c d)"
  shows "write_at n c d ! i =
    (if n \<le> i \<and> i < n + length c then c ! (i - n) else if i < length d then d ! i else 0)"
proof (cases "c = []")
  case False
  have "length (take n (d @ replicate (n - length d) 0)) = n" by simp
  then show ?thesis
    using assms False by (auto simp: write_at_def nth_append)
qed (use assms in \<open>auto simp: write_at_def\<close>)

text \<open>A segment is a piece of the file \<open>F\<close> at its place.\<close>

definition segment_of :: "bytes \<Rightarrow> nat \<times> bytes \<Rightarrow> bool" where
  "segment_of F s \<longleftrightarrow> fst s + length (snd s) \<le> length F \<and> snd s = take (length (snd s)) (drop (fst s) F)"

definition covers :: "(nat \<times> bytes) list \<Rightarrow> nat set" where
  "covers segs = (\<Union>s \<in> set segs. {fst s ..< fst s + length (snd s)})"

definition write_all :: "(nat \<times> bytes) list \<Rightarrow> bytes \<Rightarrow> bytes" where
  "write_all segs d = fold (\<lambda>s. write_at (fst s) (snd s)) segs d"

lemma segment_nth: "segment_of F s \<Longrightarrow> j < length (snd s) \<Longrightarrow> snd s ! j = F ! (fst s + j)"
  unfolding segment_of_def by (metis add_leD1 nth_drop nth_take)

lemma write_all_agrees:
  assumes "\<forall>s \<in> set segs. segment_of F s"
    and "length d \<le> length F" "\<forall>i \<in> C. i < length d \<and> d ! i = F ! i"
  shows "length (write_all segs d) \<le> length F
    \<and> (\<forall>i \<in> C \<union> covers segs. i < length (write_all segs d) \<and> write_all segs d ! i = F ! i)"
  using assms
proof (induction segs arbitrary: d C)
  case Nil
  then show ?case by (simp add: write_all_def covers_def)
next
  case (Cons s segs)
  let ?d = "write_at (fst s) (snd s) d"
  let ?C = "C \<union> {fst s ..< fst s + length (snd s)}"
  have seg: "segment_of F s" using Cons.prems(1) by simp
  have len: "length ?d \<le> length F"
    using seg Cons.prems(2) by (auto simp: length_write_at segment_of_def)
  have "i < length ?d \<and> ?d ! i = F ! i" if "i \<in> ?C" for i
  proof -
    have "i < length ?d"
      using that Cons.prems(3) by (auto simp: length_write_at less_max_iff_disj)
    then show ?thesis
      using that Cons.prems(3) segment_nth [OF seg, of "i - fst s"] by (auto simp: nth_write_at)
  qed
  then have "length (write_all segs ?d) \<le> length F
    \<and> (\<forall>i \<in> ?C \<union> covers segs. i < length (write_all segs ?d) \<and> write_all segs ?d ! i = F ! i)"
    using Cons.prems(1) len by (intro Cons.IH) auto
  then show ?case by (simp add: write_all_def covers_def Un_assoc)
qed

text \<open>
  Segments of a file, in any order and with any repetition, rebuild it once they cover it.
\<close>

lemma write_all_reassembles:
  assumes "\<forall>s \<in> set segs. segment_of F s" "{..<length F} \<subseteq> covers segs"
  shows "write_all segs [] = F"
proof -
  have a: "length (write_all segs []) \<le> length F"
    "\<And>i. i \<in> covers segs \<Longrightarrow> i < length (write_all segs []) \<and> write_all segs [] ! i = F ! i"
    using write_all_agrees [OF assms(1), of "[]" "{}"] by auto
  have "length F \<le> length (write_all segs [])"
  proof (cases "length F")
    case (Suc n)
    then show ?thesis using a(2) [of n] assms(2) by auto
  qed simp
  then show ?thesis
    using a assms(2) by (intro nth_equalityI) auto
qed

end
