(* ===== verification/Tables.thy ===== *)
theory Tables
  imports Prelude "HOL-Library.AList"
begin

text \<open>
  The keyed tables of the two file receivers.  The locale \<open>table\<close> is the interface their
  transaction bookkeeping relies on; it is interpreted on the association list that models a
  \<open>HashMap\<close> and on the sorted association list that models a \<open>BTreeMap\<close>.
\<close>

locale table =
  fixes find :: "'t \<Rightarrow> 'k \<Rightarrow> 'v option"
    and put :: "'k \<Rightarrow> 'v \<Rightarrow> 't \<Rightarrow> 't"
    and remove :: "'k \<Rightarrow> 't \<Rightarrow> 't"
    and keys :: "'t \<Rightarrow> 'k list"
    and ok :: "'t \<Rightarrow> bool"
  assumes find_put: "ok t \<Longrightarrow> find (put k v t) j = (if j = k then Some v else find t j)"
    and find_remove: "ok t \<Longrightarrow> find (remove k t) j = (if j = k then None else find t j)"
    and ok_put: "ok t \<Longrightarrow> ok (put k v t)"
    and ok_remove: "ok t \<Longrightarrow> ok (remove k t)"
    and keys_set: "ok t \<Longrightarrow> set (keys t) = {k. find t k \<noteq> None}"
    and keys_distinct: "ok t \<Longrightarrow> distinct (keys t)"
begin

lemma size_card: "ok t \<Longrightarrow> length (keys t) = card {k. find t k \<noteq> None}"
  using keys_set keys_distinct distinct_card by metis

lemma size_put:
  assumes "ok t"
  shows "length (keys (put k v t)) = (if find t k = None then Suc (length (keys t)) else length (keys t))"
proof -
  have "{j. find (put k v t) j \<noteq> None} = insert k {j. find t j \<noteq> None}"
    using find_put [OF assms] by auto
  moreover have "finite {j. find t j \<noteq> None}"
    using keys_set [OF assms] by (metis List.finite_set)
  ultimately show ?thesis
    by (simp add: size_card assms ok_put card_insert_if)
qed

lemma size_remove: "ok t \<Longrightarrow> length (keys (remove k t)) \<le> length (keys t)"
proof -
  assume ok: "ok t"
  have "{j. find (remove k t) j \<noteq> None} \<subseteq> {j. find t j \<noteq> None}"
    using find_remove [OF ok] by auto
  moreover have "finite {j. find t j \<noteq> None}"
    using keys_set [OF ok] by (metis List.finite_set)
  ultimately show ?thesis
    by (simp add: size_card ok ok_remove card_mono)
qed

text \<open>An insertion that checks for room first keeps the capacity.\<close>

lemma capacity_put:
  "ok t \<Longrightarrow> length (keys t) \<le> n \<Longrightarrow> find t k \<noteq> None \<or> length (keys t) < n \<Longrightarrow>
     length (keys (put k v t)) \<le> n"
  by (auto simp: size_put)

definition remove_all :: "'k list \<Rightarrow> 't \<Rightarrow> 't" where
  "remove_all ks t = fold remove ks t"

lemma remove_all_find:
  "ok t \<Longrightarrow> ok (remove_all ks t) \<and> find (remove_all ks t) j = (if j \<in> set ks then None else find t j)"
  by (induction ks arbitrary: t) (auto simp: remove_all_def ok_remove find_remove)

end

section \<open>Hash maps\<close>

definition keys_unique :: "('k \<times> 'v) list \<Rightarrow> bool" where
  "keys_unique t \<longleftrightarrow> distinct (map fst t)"

interpretation hash_map: table map_of AList.update AList.delete "map fst" keys_unique
proof (unfold_locales, goal_cases)
  case (5 t)
  then show ?case by (auto simp: dom_map_of_conv_image_fst [symmetric] dom_def)
qed (auto simp: keys_unique_def update_conv' delete_conv' distinct_update distinct_delete)

section \<open>Ordered maps\<close>

fun bt_insert :: "'k::linorder \<Rightarrow> 'v \<Rightarrow> ('k \<times> 'v) list \<Rightarrow> ('k \<times> 'v) list" where
  "bt_insert k v [] = [(k, v)]"
| "bt_insert k v ((j, w) # t) =
     (if k < j then (k, v) # (j, w) # t
      else if k = j then (k, v) # t
      else (j, w) # bt_insert k v t)"

definition keys_sorted :: "('k::linorder \<times> 'v) list \<Rightarrow> bool" where
  "keys_sorted t \<longleftrightarrow> sorted_wrt (<) (map fst t)"

lemma bt_insert_keys: "set (map fst (bt_insert k v t)) = insert k (set (map fst t))"
  by (induction k v t rule: bt_insert.induct) auto

lemma bt_insert_sorted: "keys_sorted t \<Longrightarrow> keys_sorted (bt_insert k v t)"
proof (induction k v t rule: bt_insert.induct)
  case (2 k v j w t)
  then show ?case
    using bt_insert_keys [of k v t]
    by (auto simp: keys_sorted_def simp del: set_map)
qed (simp add: keys_sorted_def)

lemma bt_insert_find: "map_of (bt_insert k v t) = (map_of t)(k \<mapsto> v)"
  by (induction k v t rule: bt_insert.induct) auto

lemma keys_sorted_unique: "keys_sorted t \<Longrightarrow> keys_unique t"
  by (simp add: keys_sorted_def keys_unique_def strict_sorted_iff)

lemma delete_sorted: "keys_sorted t \<Longrightarrow> keys_sorted (AList.delete k t)"
  by (simp add: keys_sorted_def delete_keys removeAll_filter_not_eq sorted_wrt_filter)

interpretation btree_map: table map_of bt_insert AList.delete "map fst"
    "keys_sorted :: ('k::linorder \<times> 'v) list \<Rightarrow> bool"
proof (unfold_locales, goal_cases)
  case (5 t)
  then show ?case by (rule hash_map.keys_set [OF keys_sorted_unique])
next
  case (6 t)
  then show ?case using keys_sorted_unique [of t] by (simp add: keys_unique_def)
qed (auto simp: bt_insert_find delete_conv' bt_insert_sorted delete_sorted)

end
