(* ===== verification/Cfdp.thy ===== *)
theory Cfdp
  imports File_System Ccsds_Headers Tables
begin

text \<open>
  The CFDP Class 1 receiver, \<open>rust/ground_station/src/cfdp\<close> (\<open>mod.rs\<close>, \<open>adapter.rs\<close> and
  \<open>class1.rs\<close>).  The transaction table (a \<open>HashMap\<close>) is an association list with distinct keys;
  the order in which the library iterates over it is unspecified, and no property depends on it.
  The CRC-32 engine of the \<open>crc\<close> crate is the argument \<open>crc32\<close>, over the whole file.
\<close>

section \<open>Types\<close>

definition cfdp_max_transactions :: nat where
  "cfdp_max_transactions = 16"

definition cfdp_segment_size_bytes :: nat where
  "cfdp_segment_size_bytes = 1024"

definition cfdp_timeout_owlt_mult :: nat where
  "cfdp_timeout_owlt_mult = 10"

datatype cfdp_error =
    Parse string
  | UnknownTransaction u64
  | CapacityExceeded
  | CrcMismatch u64
  | Timeout u64
  | CfdpIo io_error

datatype transaction_outcome =
    Completed u64 string u64
  | Abandoned u64 string u64

definition tai_unix_offset_secs :: nat where
  "tai_unix_offset_secs = 378691200"

definition tai_to_unix_secs :: "cuc \<Rightarrow> nat" where
  "tai_to_unix_secs t = unat (coarse t) - tai_unix_offset_secs"

definition fixed_hdr_len :: nat where
  "fixed_hdr_len = 4"

definition pdu_type_file_data_mask :: u8 where
  "pdu_type_file_data_mask = 0x10"

definition dir_eof :: u8 where
  "dir_eof = 0x04"

definition dir_metadata :: u8 where
  "dir_metadata = 0x07"

definition cond_no_error :: u8 where
  "cond_no_error = 0"

record file_metadata =
  fm_dest_path :: string
  fm_file_size :: u64

record transaction_state =
  ts_started_tai_coarse :: u32
  ts_last_pdu_tai :: u32
  ts_metadata :: "file_metadata option"
  ts_partial_path :: string
  ts_bytes_written :: u64
  ts_expected_crc :: "u32 option"

record class1_receiver =
  c1_owlt :: duration
  c1_active :: "(u64 \<times> transaction_state) list"
  c1_output_dir :: string
  c1_next_tx_id :: u64

definition class1_new :: "duration \<Rightarrow> string \<Rightarrow> class1_receiver" where
  "class1_new owlt dir =
     \<lparr>c1_owlt = owlt, c1_active = [], c1_output_dir = dir, c1_next_tx_id = 1\<rparr>"

section \<open>Reading a PDU\<close>

definition decode_fixed_header :: "bytes \<Rightarrow> cfdp_error + bool \<times> nat \<times> nat \<times> nat" where
  "decode_fixed_header pdu =
     (case (get_at pdu 0, get_at pdu 3) of
        (Some byte0, Some byte3) \<Rightarrow>
          (let entity_id_len = unat (drop_bit 4 byte3 AND 0x07) + 1;
               seqnum_len = unat (byte3 AND 0x07) + 1;
               var_hdr_end = fixed_hdr_len + entity_id_len + seqnum_len + entity_id_len in
           if length pdu < var_hdr_end
           then Inl (Parse (''PDU too short for variable header: '' @ dec_string (length pdu) @
                  '' bytes (need '' @ dec_string var_hdr_end @ '')''))
           else Inr (byte0 AND pdu_type_file_data_mask \<noteq> 0, entity_id_len, seqnum_len, var_hdr_end))
      | _ \<Rightarrow> Inl (Parse (''PDU too short: '' @ dec_string (length pdu) @ '' bytes (minimum '' @
               dec_string fixed_hdr_len @ '')'')))"

definition cfdp_read_be_u64 :: "bytes \<Rightarrow> u64" where
  "cfdp_read_be_u64 bs = foldl (\<lambda>acc b. push_bit 8 acc OR ucast b) 0 bs"

definition extract_transaction_id :: "bytes \<Rightarrow> nat \<Rightarrow> nat \<Rightarrow> cfdp_error + u64" where
  "extract_transaction_id pdu entity_id_len seqnum_len =
     (let src_start = fixed_hdr_len; src_end = src_start + entity_id_len;
          seq_end = src_end + seqnum_len in
      and_then (ok_or (Parse ''PDU truncated in source entity ID'') (get_range pdu src_start src_end))
        (\<lambda>src_bytes.
      and_then (ok_or (Parse ''PDU truncated in transaction seq num'') (get_range pdu src_end seq_end))
        (\<lambda>seq_bytes.
      Inr (push_bit 32 (cfdp_read_be_u64 src_bytes) OR cfdp_read_be_u64 seq_bytes))))"

text \<open>\<open>iter().position(|&b| b == 0)\<close>, and the message of \<open>Utf8Error\<close>.\<close>

fun nul_position :: "bytes \<Rightarrow> nat option" where
  "nul_position [] = None"
| "nul_position (b # bs) = (if b = 0 then Some 0 else map_option Suc (nul_position bs))"

function utf8_error :: "nat \<Rightarrow> bytes \<Rightarrow> string" where
  "utf8_error i bs =
     (if bs = [] then []
      else case utf8_head bs of
        Scalar n \<Rightarrow> utf8_error (i + n) (drop n bs)
      | Malformed n \<Rightarrow>
          (if byte_in 0xC2 0xF4 (hd bs) \<and> length bs \<le> n
           then ''incomplete utf-8 byte sequence from index '' @ dec_string i
           else ''invalid utf-8 sequence of '' @ dec_string n @ '' bytes from index '' @ dec_string i))"
  by pat_completeness auto
termination
  by (relation "measure (\<lambda>(i, bs). length bs)") (auto simp: utf8_drop)

declare utf8_error.simps [simp del]

definition parse_metadata_pdu :: "bytes \<Rightarrow> cfdp_error + file_metadata" where
  "parse_metadata_pdu data_field =
     and_then (ok_or (Parse ''Metadata PDU data field too short'')
         (Option.bind (get_range data_field 2 6) slice_be32)) (\<lambda>size.
     and_then (ok_or (Parse ''Metadata PDU missing filenames'') (get_from data_field 6)) (\<lambda>names.
     and_then (ok_or (Parse ''Metadata: unterminated source filename'') (nul_position names)) (\<lambda>src_end.
     and_then (ok_or (Parse ''Metadata: no destination filename field'')
         (get_from names (src_end + 1))) (\<lambda>dest_slice.
     and_then (ok_or (Parse ''Metadata: unterminated destination filename'')
         (nul_position dest_slice)) (\<lambda>dest_end.
     and_then (ok_or (Parse ''Metadata: dest filename slice error'')
         (get_range dest_slice 0 dest_end)) (\<lambda>dest.
     and_then (ok_or (Parse (''Metadata: invalid dest filename UTF-8: '' @ utf8_error 0 dest))
         (from_utf8 dest)) (\<lambda>dest_name.
     Inr \<lparr>fm_dest_path = dest_name, fm_file_size = ucast size\<rparr>)))))))"

definition parse_eof_pdu :: "bytes \<Rightarrow> cfdp_error + u8 \<times> u32 \<times> u64" where
  "parse_eof_pdu data_field =
     and_then (ok_or (Parse ''EOF PDU too short for condition code'') (get_at data_field 1)) (\<lambda>cond_byte.
     and_then (ok_or (Parse ''EOF PDU too short for CRC-32'')
         (Option.bind (get_range data_field 2 6) slice_be32)) (\<lambda>crc.
     and_then (ok_or (Parse ''EOF PDU too short for file size'')
         (Option.bind (get_range data_field 6 10) slice_be32)) (\<lambda>size.
     Inr (drop_bit 4 cond_byte AND 0x0F, crc, ucast size))))"

definition parse_file_data_pdu :: "bytes \<Rightarrow> cfdp_error + nat \<times> bytes" where
  "parse_file_data_pdu data_field =
     and_then (ok_or (Parse ''File Data PDU too short for offset'')
         (Option.bind (get_range data_field 0 4) slice_be32)) (\<lambda>offset.
     and_then (ok_or (Parse ''File Data PDU has no data after offset'') (get_from data_field 4)) (\<lambda>chunk.
     Inr (unat offset, chunk)))"

section \<open>The receiver\<close>

definition u64_max_nat :: nat where
  "u64_max_nat = 18446744073709551615"

definition timeout_secs :: "class1_receiver \<Rightarrow> nat" where
  "timeout_secs r = min u64_max_nat (as_secs (c1_owlt r) * cfdp_timeout_owlt_mult)"

definition partial_path_for :: "string \<Rightarrow> u64 \<Rightarrow> string" where
  "partial_path_for dir i = path_join dir (dec_string (unat i) @ ''.partial'')"

definition new_state :: "class1_receiver \<Rightarrow> u64 \<Rightarrow> transaction_state" where
  "new_state r i =
     \<lparr>ts_started_tai_coarse = 0, ts_last_pdu_tai = 0, ts_metadata = None,
      ts_partial_path = partial_path_for (c1_output_dir r) i, ts_bytes_written = 0,
      ts_expected_crc = None\<rparr>"

definition file_crc32 :: "(bytes \<Rightarrow> u32) \<Rightarrow> fs \<Rightarrow> string \<Rightarrow> cfdp_error + u32" where
  "file_crc32 crc32 s path = map_err CfdpIo (and_then (fs_read s path) (\<lambda>d. Inr (crc32 d)))"

definition sat_add64 :: "u64 \<Rightarrow> nat \<Rightarrow> u64" where
  "sat_add64 a n = of_nat (min u64_max_nat (unat a + n))"

text \<open>The first lines of the File Data and the Metadata arm: open a transaction unless it is active.\<close>

definition open_transaction :: "class1_receiver \<Rightarrow> u64 \<Rightarrow> cfdp_error + class1_receiver" where
  "open_transaction r i =
     (if map_of (c1_active r) i \<noteq> None then Inr r
      else if length (c1_active r) \<ge> cfdp_max_transactions then Inl CapacityExceeded
      else Inr (r\<lparr>c1_active := AList.update i (new_state r i) (c1_active r)\<rparr>))"

definition set_transaction :: "class1_receiver \<Rightarrow> u64 \<Rightarrow> transaction_state \<Rightarrow> class1_receiver" where
  "set_transaction r i st = r\<lparr>c1_active := AList.update i st (c1_active r)\<rparr>"

type_synonym 'a cfdp_result = "(cfdp_error + 'a) \<times> class1_receiver \<times> fs"

definition on_file_data :: "class1_receiver \<Rightarrow> fs \<Rightarrow> u64 \<Rightarrow> bytes \<Rightarrow> unit cfdp_result" where
  "on_file_data r s i data_field =
     (case open_transaction r i of
        Inl e \<Rightarrow> (Inl e, r, s)
      | Inr r \<Rightarrow>
          (case parse_file_data_pdu data_field of
             Inl e \<Rightarrow> (Inl e, r, s)
           | Inr (offset, chunk) \<Rightarrow>
               (case map_of (c1_active r) i of
                  None \<Rightarrow> (Inl CapacityExceeded, r, s)
                | Some st \<Rightarrow>
                    (case fs_write_at s (ts_partial_path st) offset chunk of
                       Inl e \<Rightarrow> (Inl (CfdpIo e), r, s)
                     | Inr s \<Rightarrow>
                         (Inr (), set_transaction r i
                           (st\<lparr>ts_bytes_written := sat_add64 (ts_bytes_written st) (length chunk)\<rparr>), s)))))"

definition on_directive :: "class1_receiver \<Rightarrow> fs \<Rightarrow> u64 \<Rightarrow> bytes \<Rightarrow> unit cfdp_result" where
  "on_directive r s i data_field =
     (case get_at data_field 0 of
        None \<Rightarrow> (Inl (Parse ''Empty directive data field''), r, s)
      | Some dir_code \<Rightarrow>
          if dir_code = dir_metadata then
            (case open_transaction r i of
               Inl e \<Rightarrow> (Inl e, r, s)
             | Inr r \<Rightarrow>
                 (case parse_metadata_pdu data_field of
                    Inl e \<Rightarrow> (Inl e, r, s)
                  | Inr meta \<Rightarrow>
                      (case map_of (c1_active r) i of
                         None \<Rightarrow> (Inl CapacityExceeded, r, s)
                       | Some st \<Rightarrow> (Inr (), set_transaction r i (st\<lparr>ts_metadata := Some meta\<rparr>), s))))
          else if dir_code = dir_eof then
            (case parse_eof_pdu data_field of
               Inl e \<Rightarrow> (Inl e, r, s)
             | Inr (cond_code, crc, _) \<Rightarrow>
                 (case map_of (c1_active r) i of
                    None \<Rightarrow> (Inl (UnknownTransaction i), r, s)
                  | Some st \<Rightarrow>
                      (Inr (), set_transaction r i
                        (st\<lparr>ts_expected_crc := (if cond_code = cond_no_error then Some crc else None)\<rparr>), s)))
          else (Inr (), r, s))"

definition pdu_fields :: "bytes \<Rightarrow> cfdp_error + bool \<times> u64 \<times> bytes" where
  "pdu_fields pdu =
     and_then (decode_fixed_header pdu) (\<lambda>(is_file_data, entity_id_len, seqnum_len, var_hdr_end).
     and_then (extract_transaction_id pdu entity_id_len seqnum_len) (\<lambda>tx_id.
     and_then (ok_or (Parse ''PDU has no data field after variable header'')
         (get_from pdu var_hdr_end)) (\<lambda>data_field.
     Inr (is_file_data, tx_id, data_field))))"

definition on_pdu :: "class1_receiver \<Rightarrow> fs \<Rightarrow> bytes \<Rightarrow> unit cfdp_result" where
  "on_pdu r s pdu =
     (case pdu_fields pdu of
        Inl e \<Rightarrow> (Inl e, r, s)
      | Inr (is_file_data, tx_id, data_field) \<Rightarrow>
          if is_file_data then on_file_data r s tx_id data_field
          else on_directive r s tx_id data_field)"

definition final_path :: "class1_receiver \<Rightarrow> u64 \<Rightarrow> transaction_state \<Rightarrow> string" where
  "final_path r i st =
     (case ts_metadata st of
        Some m \<Rightarrow>
          (if is_absolute (fm_dest_path m) then fm_dest_path m
           else path_join (c1_output_dir r) (fm_dest_path m))
      | None \<Rightarrow> path_join (c1_output_dir r) (dec_string (unat i) @ ''.bin''))"

definition finalize_transaction ::
  "(bytes \<Rightarrow> u32) \<Rightarrow> class1_receiver \<Rightarrow> fs \<Rightarrow> u64 \<Rightarrow> transaction_outcome cfdp_result" where
  "finalize_transaction crc32 r s i =
     (case map_of (c1_active r) i of
        None \<Rightarrow> (Inl (UnknownTransaction i), r, s)
      | Some st \<Rightarrow>
          (let r = r\<lparr>c1_active := AList.delete i (c1_active r)\<rparr> in
           case file_crc32 crc32 s (ts_partial_path st) of
             Inl e \<Rightarrow> (Inl e, r, s)
           | Inr actual_crc \<Rightarrow>
               if (case ts_expected_crc st of Some expected \<Rightarrow> actual_crc \<noteq> expected | None \<Rightarrow> False)
               then (Inl (CrcMismatch i), r, s)
               else
                 (let path = final_path r i st in
                  case fs_rename s (ts_partial_path st) path of
                    Inl e \<Rightarrow> (Inl (CfdpIo e), r, s)
                  | Inr s \<Rightarrow> (Inr (Completed i path (ts_bytes_written st)), r, s))))"

definition send_file :: "class1_receiver \<Rightarrow> (cfdp_error + u64) \<times> class1_receiver" where
  "send_file r = (Inr (c1_next_tx_id r), r\<lparr>c1_next_tx_id := c1_next_tx_id r + 1\<rparr>)"

definition cfdp_cancel :: "class1_receiver \<Rightarrow> u64 \<Rightarrow> (cfdp_error + unit) \<times> class1_receiver" where
  "cfdp_cancel r i =
     (case map_of (c1_active r) i of
        None \<Rightarrow> (Inl (UnknownTransaction i), r)
      | Some _ \<Rightarrow> (Inr (), r\<lparr>c1_active := AList.delete i (c1_active r)\<rparr>))"

definition timed_out :: "class1_receiver \<Rightarrow> cuc \<Rightarrow> transaction_state \<Rightarrow> bool" where
  "timed_out r now st \<longleftrightarrow> unat (coarse now) - unat (ts_last_pdu_tai st) > timeout_secs r"

definition timeout_reason :: "class1_receiver \<Rightarrow> string" where
  "timeout_reason r = ''timeout after '' @ dec_string (timeout_secs r) @ ''s''"

fun evict :: "class1_receiver \<Rightarrow> u64 list \<Rightarrow> transaction_outcome list \<times> class1_receiver" where
  "evict r [] = ([], r)"
| "evict r (i # ids) =
     (case map_of (c1_active r) i of
        None \<Rightarrow> evict r ids
      | Some st \<Rightarrow>
          (let (out, r') = evict (r\<lparr>c1_active := AList.delete i (c1_active r)\<rparr>) ids in
           (Abandoned i (timeout_reason r) (ts_bytes_written st) # out, r')))"

definition cfdp_poll :: "class1_receiver \<Rightarrow> cuc \<Rightarrow> transaction_outcome list \<times> class1_receiver" where
  "cfdp_poll r now = evict r (map fst (filter (\<lambda>(i, st). timed_out r now st) (c1_active r)))"

definition active_transactions :: "class1_receiver \<Rightarrow> u64 list" where
  "active_transactions r = map fst (c1_active r)"

section \<open>The transaction table\<close>

definition fresh_id :: "class1_receiver \<Rightarrow> u64 \<times> transaction_state \<Rightarrow> bool" where
  "fresh_id r = (\<lambda>(i, st). ts_partial_path st = partial_path_for (c1_output_dir r) i
     \<and> ts_last_pdu_tai st = 0 \<and> ts_started_tai_coarse st = 0)"

definition table_ok :: "class1_receiver \<Rightarrow> bool" where
  "table_ok r \<longleftrightarrow> keys_unique (c1_active r) \<and> length (active_transactions r) \<le> cfdp_max_transactions
     \<and> (\<forall>i st. map_of (c1_active r) i = Some st \<longrightarrow> fresh_id r (i, st))"

lemma table_ok_put:
  assumes "table_ok r" "fresh_id r (i, st)"
    "map_of (c1_active r) i \<noteq> None \<or> length (active_transactions r) < cfdp_max_transactions"
  shows "table_ok (set_transaction r i st)"
  using assms hash_map.ok_put [of "c1_active r" i st]
    hash_map.capacity_put [of "c1_active r" cfdp_max_transactions i st]
  by (auto simp: table_ok_def set_transaction_def active_transactions_def update_conv' fresh_id_def
      split: if_splits)

lemma table_ok_drop:
  "table_ok r \<Longrightarrow> table_ok (r\<lparr>c1_active := AList.delete i (c1_active r)\<rparr>)"
  using hash_map.ok_remove [of "c1_active r" i] hash_map.size_remove [of "c1_active r" i]
  by (auto simp: table_ok_def active_transactions_def delete_conv' fresh_id_def split: if_splits)

lemma fresh_new_state: "fresh_id r (i, new_state r i)"
  by (simp add: fresh_id_def new_state_def)

lemma open_transaction_ok:
  assumes "table_ok r" "open_transaction r i = Inr r'"
  shows "table_ok r' \<and> map_of (c1_active r') i \<noteq> None \<and> c1_output_dir r' = c1_output_dir r"
proof (cases "map_of (c1_active r) i")
  case None
  then have "r' = set_transaction r i (new_state r i)" "length (active_transactions r) < cfdp_max_transactions"
    using assms(2) by (auto simp: open_transaction_def set_transaction_def active_transactions_def split: if_splits)
  then show ?thesis
    using table_ok_put [OF assms(1) fresh_new_state, of i] by (simp add: set_transaction_def update_conv')
qed (use assms in \<open>simp add: open_transaction_def\<close>)

lemma update_state_ok:
  assumes "table_ok r" "map_of (c1_active r) i = Some st" "ts_partial_path st' = ts_partial_path st"
    "ts_last_pdu_tai st' = ts_last_pdu_tai st" "ts_started_tai_coarse st' = ts_started_tai_coarse st"
  shows "table_ok (set_transaction r i st')"
  using assms by (intro table_ok_put) (auto simp: table_ok_def fresh_id_def)

lemma on_file_data_ok: "table_ok r \<Longrightarrow> table_ok (fst (snd (on_file_data r s i d)))"
  by (auto simp: on_file_data_def dest: open_transaction_ok intro!: update_state_ok
      split: sum.split option.split)

lemma on_directive_ok: "table_ok r \<Longrightarrow> table_ok (fst (snd (on_directive r s i d)))"
  by (auto simp: on_directive_def dest: open_transaction_ok intro!: update_state_ok
      split: sum.split option.split)

lemma on_pdu_ok: "table_ok r \<Longrightarrow> table_ok (fst (snd (on_pdu r s pdu)))"
  by (auto simp: on_pdu_def on_file_data_ok on_directive_ok split: sum.split)

lemma finalize_ok: "table_ok r \<Longrightarrow> table_ok (fst (snd (finalize_transaction crc32 r s i)))"
  by (auto simp: finalize_transaction_def Let_def table_ok_drop split: sum.split option.split)

lemma evict_ok: "table_ok r \<Longrightarrow> table_ok (snd (evict r ids))"
  by (induction r ids rule: evict.induct)
    (auto simp: table_ok_drop Let_def split: option.split prod.split)

section \<open>Reachable receivers\<close>

inductive class1_step :: "(bytes \<Rightarrow> u32) \<Rightarrow> class1_receiver \<times> fs \<Rightarrow> class1_receiver \<times> fs \<Rightarrow> bool"
  for crc32 where
  pdu: "on_pdu r s pdu = (res, r', s') \<Longrightarrow> class1_step crc32 (r, s) (r', s')"
| finalize: "finalize_transaction crc32 r s i = (out, r', s') \<Longrightarrow> class1_step crc32 (r, s) (r', s')"
| cancel: "cfdp_cancel r i = (res, r') \<Longrightarrow> class1_step crc32 (r, s) (r', s)"
| poll: "cfdp_poll r now = (outs, r') \<Longrightarrow> class1_step crc32 (r, s) (r', s)"
| send: "send_file r = (res, r') \<Longrightarrow> class1_step crc32 (r, s) (r', s)"
| outside: "class1_step crc32 (r, s) (r, s')"

inductive class1_reach :: "(bytes \<Rightarrow> u32) \<Rightarrow> duration \<Rightarrow> string \<Rightarrow> class1_receiver \<times> fs \<Rightarrow> bool"
  for crc32 owlt dir where
  start: "class1_reach crc32 owlt dir (class1_new owlt dir, s)"
| step: "class1_reach crc32 owlt dir x \<Longrightarrow> class1_step crc32 x y \<Longrightarrow> class1_reach crc32 owlt dir y"

lemma open_config:
  "open_transaction r i = Inr r' \<Longrightarrow> c1_output_dir r' = c1_output_dir r \<and> c1_owlt r' = c1_owlt r"
  by (auto simp: open_transaction_def split: if_splits)

lemma on_pdu_config:
  "c1_output_dir (fst (snd (on_file_data r s i d))) = c1_output_dir r
     \<and> c1_owlt (fst (snd (on_file_data r s i d))) = c1_owlt r"
  "c1_output_dir (fst (snd (on_directive r s i d))) = c1_output_dir r
     \<and> c1_owlt (fst (snd (on_directive r s i d))) = c1_owlt r"
  by (auto simp: on_file_data_def on_directive_def set_transaction_def dest: open_config
      split: sum.split option.split)

lemma same_config:
  "c1_output_dir (fst (snd (on_pdu r s p))) = c1_output_dir r"
  "c1_owlt (fst (snd (on_pdu r s p))) = c1_owlt r"
  "c1_output_dir (fst (snd (finalize_transaction crc32 r s i))) = c1_output_dir r"
  "c1_owlt (fst (snd (finalize_transaction crc32 r s i))) = c1_owlt r"
  by (simp_all add: on_pdu_def on_pdu_config finalize_transaction_def Let_def
      split: sum.split option.split)

lemma evict_config: "c1_output_dir (snd (evict r ids)) = c1_output_dir r \<and> c1_owlt (snd (evict r ids)) = c1_owlt r"
  by (induction r ids rule: evict.induct) (auto simp: Let_def split: option.split prod.split)

lemma class1_step_ok:
  assumes "class1_step crc32 x y" "table_ok (fst x)"
  shows "table_ok (fst y) \<and> c1_output_dir (fst y) = c1_output_dir (fst x) \<and> c1_owlt (fst y) = c1_owlt (fst x)"
  using assms
proof (cases rule: class1_step.cases)
  case (pdu r s p res r' s')
  then show ?thesis using assms(2) on_pdu_ok [of r s p] same_config(1,2) [of r s p] by simp
next
  case (finalize r s i out r' s')
  then show ?thesis
    using assms(2) finalize_ok [of r crc32 s i] same_config(3,4) [of crc32 r s i] by simp
next
  case (cancel r i res r' s)
  then show ?thesis using assms(2) table_ok_drop [of r i] by (auto simp: cfdp_cancel_def split: option.splits)
next
  case (poll r now outs r' s)
  then show ?thesis
    using assms(2) evict_ok evict_config unfolding cfdp_poll_def by (metis fst_conv snd_conv)
next
  case (send r res r' s)
  then show ?thesis using assms(2) by (auto simp: send_file_def table_ok_def fresh_id_def active_transactions_def)
qed simp

lemma class1_reach_ok:
  "class1_reach crc32 owlt dir x \<Longrightarrow>
     table_ok (fst x) \<and> c1_output_dir (fst x) = dir \<and> c1_owlt (fst x) = owlt"
proof (induction rule: class1_reach.induct)
  case (start s)
  show ?case by (simp add: class1_new_def table_ok_def keys_unique_def active_transactions_def)
next
  case (step x y)
  then show ?case using class1_step_ok by metis
qed

section \<open>Eviction\<close>

lemma evict_exact:
  assumes "distinct ids" "\<forall>i \<in> set ids. map_of (c1_active r) i \<noteq> None"
  shows "evict r ids =
     (map (\<lambda>i. Abandoned i (timeout_reason r) (ts_bytes_written (the (map_of (c1_active r) i)))) ids,
      r\<lparr>c1_active := fold AList.delete ids (c1_active r)\<rparr>)"
  using assms
proof (induction ids arbitrary: r)
  case (Cons i ids)
  then obtain st where st: "map_of (c1_active r) i = Some st" by auto
  let ?r = "r\<lparr>c1_active := AList.delete i (c1_active r)\<rparr>"
  have "timeout_reason ?r = timeout_reason r" by (simp add: timeout_reason_def timeout_secs_def)
  moreover have "\<And>j. j \<in> set ids \<Longrightarrow> map_of (c1_active ?r) j = map_of (c1_active r) j"
    using Cons.prems by (auto simp: delete_conv')
  ultimately show ?case
    using Cons.IH [of ?r] Cons.prems st by (auto simp: Let_def cong: map_cong)
qed simp

lemma poll_exact:
  assumes "table_ok r"
  shows "cfdp_poll r now =
     (if unat (coarse now) > timeout_secs r
      then (map (\<lambda>(i, st). Abandoned i (timeout_reason r) (ts_bytes_written st)) (c1_active r), r\<lparr>c1_active := []\<rparr>)
      else ([], r))"
proof -
  have find: "\<And>i st. (i, st) \<in> set (c1_active r) \<Longrightarrow> map_of (c1_active r) i = Some st"
    using assms by (auto simp: table_ok_def keys_unique_def)
  have out: "\<And>p. p \<in> set (c1_active r) \<Longrightarrow>
      (\<lambda>(i, st). timed_out r now st) p = (unat (coarse now) > timeout_secs r)"
    using assms find by (force simp: table_ok_def fresh_id_def timed_out_def)
  show ?thesis
  proof (cases "unat (coarse now) > timeout_secs r")
    case True
    let ?ids = "map fst (c1_active r)"
    have "filter (\<lambda>(i, st). timed_out r now st) (c1_active r) = c1_active r"
      using out True by (simp add: filter_id_conv)
    moreover have "fold AList.delete ?ids (c1_active r) = []"
    proof -
      have "\<And>j. map_of (fold AList.delete ?ids (c1_active r)) j = None"
        using assms hash_map.remove_all_find [of "c1_active r" ?ids]
        by (auto simp: table_ok_def hash_map.remove_all_def map_of_eq_None_iff)
      then show ?thesis by (metis map_of_eq_empty_iff ext)
    qed
    moreover have "evict r ?ids =
      (map (\<lambda>i. Abandoned i (timeout_reason r) (ts_bytes_written (the (map_of (c1_active r) i)))) ?ids,
       r\<lparr>c1_active := fold AList.delete ?ids (c1_active r)\<rparr>)"
      using assms by (intro evict_exact) (auto simp: table_ok_def keys_unique_def map_of_eq_None_iff)
    ultimately show ?thesis
      using True find by (auto simp: cfdp_poll_def)
  next
    case False
    then have "filter (\<lambda>(i, st). timed_out r now st) (c1_active r) = []"
      using out by (simp add: filter_empty_conv)
    then show ?thesis using False by (simp add: cfdp_poll_def)
  qed
qed

section \<open>What a transaction has received\<close>

text \<open>
  The contract of one transaction: it is the sequence of the well-formed PDUs that name it.  A
  PDU of another transaction, or one that does not parse, is no event.
\<close>

datatype cfdp_event =
    Segment nat bytes
  | Metadata file_metadata
  | EndOfFile "u32 option"

definition event_of :: "u64 \<Rightarrow> bytes \<Rightarrow> cfdp_event option" where
  "event_of i pdu =
     (case pdu_fields pdu of
        Inl _ \<Rightarrow> None
      | Inr (is_file_data, j, d) \<Rightarrow>
          if j \<noteq> i then None
          else if is_file_data then
            (case parse_file_data_pdu d of Inl _ \<Rightarrow> None | Inr (n, c) \<Rightarrow> Some (Segment n c))
          else if d = [] then None
          else if hd d = dir_metadata then
            (case parse_metadata_pdu d of Inl _ \<Rightarrow> None | Inr m \<Rightarrow> Some (Metadata m))
          else if hd d = dir_eof then
            (case parse_eof_pdu d of Inl _ \<Rightarrow> None
             | Inr (cc, crc, _) \<Rightarrow> Some (EndOfFile (if cc = cond_no_error then Some crc else None)))
          else None)"

record received =
  rc_segments :: "(nat \<times> bytes) list"
  rc_metadata :: "file_metadata option"
  rc_crc :: "u32 option"

definition nothing_received :: received where
  "nothing_received = \<lparr>rc_segments = [], rc_metadata = None, rc_crc = None\<rparr>"

fun receive :: "received \<Rightarrow> cfdp_event \<Rightarrow> received" where
  "receive a (Segment n c) = a\<lparr>rc_segments := rc_segments a @ [(n, c)]\<rparr>"
| "receive a (Metadata m) = a\<lparr>rc_metadata := Some m\<rparr>"
| "receive a (EndOfFile crc) = a\<lparr>rc_crc := crc\<rparr>"

definition events_of :: "u64 \<Rightarrow> bytes list \<Rightarrow> cfdp_event list" where
  "events_of i pdus = List.map_filter (event_of i) pdus"

definition assembled :: "received \<Rightarrow> bytes option" where
  "assembled a = (if rc_segments a = [] then None else Some (write_all (rc_segments a) []))"

definition total_received :: "received \<Rightarrow> nat" where
  "total_received a = sum_list (map (length \<circ> snd) (rc_segments a))"

definition holds :: "class1_receiver \<Rightarrow> fs \<Rightarrow> u64 \<Rightarrow> received \<Rightarrow> bool" where
  "holds r s i a \<longleftrightarrow>
     (case map_of (c1_active r) i of
        None \<Rightarrow> False
      | Some st \<Rightarrow> ts_metadata st = rc_metadata a \<and> ts_expected_crc st = rc_crc a
          \<and> unat (ts_bytes_written st) = min u64_max_nat (total_received a)
          \<and> ts_partial_path st = partial_path_for (c1_output_dir r) i)
     \<and> fs_files s (partial_path_for (c1_output_dir r) i) = assembled a"

primrec class1_run :: "class1_receiver \<Rightarrow> fs \<Rightarrow> bytes list \<Rightarrow> class1_receiver \<times> fs" where
  "class1_run r s [] = (r, s)"
| "class1_run r s (p # ps) = (case on_pdu r s p of (_, r', s') \<Rightarrow> class1_run r' s' ps)"

lemma digits_first: "hd (dec_string n @ x) \<noteq> CHR ''/'' \<and> dec_string n \<noteq> []"
proof -
  have ne: "digits 10 n \<noteq> []" by simp
  then have "hd (digits 10 n) < 10" using digits_bound [of 10 "hd (digits 10 n)" n] by simp
  then have a: "(of_char (digit_char (hd (digits 10 n))) :: nat) = 48 + hd (digits 10 n)"
    using of_char_digit [of "hd (digits 10 n)"] by simp
  have b: "(of_char CHR ''/'' :: nat) = 47" by simp
  have "digit_char (hd (digits 10 n)) \<noteq> CHR ''/''"
  proof
    assume "digit_char (hd (digits 10 n)) = CHR ''/''"
    then show False using a b by simp
  qed
  then show ?thesis using ne by (simp add: dec_string_def hd_map)
qed

lemma partial_path_inj: "partial_path_for dir i = partial_path_for dir j \<longleftrightarrow> i = j"
proof -
  have rel: "\<not> is_absolute (dec_string n @ ''.partial'')" for n
    using digits_first [of n "[]"] by (simp add: is_absolute_def)
  show ?thesis
    unfolding partial_path_for_def path_join_inj [OF rel rel] append_same_eq
    using dec_string_inj [of "unat i" "unat j"] by (auto simp: word_unat_eq_iff)
qed

lemma unat_sat_add64: "unat (sat_add64 a n) = min u64_max_nat (unat a + n)"
  by (simp add: sat_add64_def u64_max_nat_def unat_of_nat)

lemma open_idle: "map_of (c1_active r) i \<noteq> None \<Longrightarrow> open_transaction r i = Inr r"
  by (simp add: open_transaction_def)

lemma assembled_snoc:
  "write_at n c (case assembled a of None \<Rightarrow> [] | Some d \<Rightarrow> d) =
     write_all (rc_segments a @ [(n, c)]) []"
  by (simp add: assembled_def write_all_def)

lemma file_data_step:
  assumes "holds r s i a" "fs_denied s (partial_path_for (c1_output_dir r) i) = None"
    "parse_file_data_pdu d = Inr (n, c)"
  shows "case on_file_data r s i d of (res, r', s') \<Rightarrow>
    res = Inr () \<and> holds r' s' i (receive a (Segment n c)) \<and> fs_denied s' = fs_denied s"
proof -
  obtain st where st: "map_of (c1_active r) i = Some st" "ts_metadata st = rc_metadata a"
    "ts_expected_crc st = rc_crc a" "unat (ts_bytes_written st) = min u64_max_nat (total_received a)"
    "ts_partial_path st = partial_path_for (c1_output_dir r) i"
    "fs_files s (partial_path_for (c1_output_dir r) i) = assembled a"
    using assms(1) by (auto simp: holds_def split: option.splits)
  show ?thesis
    using st assms(2,3)
    by (simp add: on_file_data_def open_idle fs_write_at_def holds_def set_transaction_def
        update_conv' assembled_snoc assembled_def [of "a\<lparr>rc_segments := _\<rparr>"] unat_sat_add64
        total_received_def min_def)
qed

lemma directive_step:
  assumes "holds r s i a" "d \<noteq> []"
    "(hd d = dir_metadata \<and> parse_metadata_pdu d = Inr m \<and> e = Metadata m) \<or>
     (hd d \<noteq> dir_metadata \<and> hd d = dir_eof \<and> parse_eof_pdu d = Inr (cc, crc, z)
        \<and> e = EndOfFile (if cc = cond_no_error then Some crc else None))"
  shows "case on_directive r s i d of (res, r', s') \<Rightarrow>
    res = Inr () \<and> holds r' s' i (receive a e) \<and> s' = s"
proof -
  obtain st where st: "map_of (c1_active r) i = Some st" "ts_metadata st = rc_metadata a"
    "ts_expected_crc st = rc_crc a" "unat (ts_bytes_written st) = min u64_max_nat (total_received a)"
    "ts_partial_path st = partial_path_for (c1_output_dir r) i"
    "fs_files s (partial_path_for (c1_output_dir r) i) = assembled a"
    using assms(1) by (auto simp: holds_def split: option.splits)
  have first: "get_at d 0 = Some (hd d)"
    using assms(2) by (simp add: get_at_def hd_conv_nth)
  show ?thesis
    using assms(3) st first
    by (auto simp: on_directive_def open_idle holds_def set_transaction_def update_conv'
        assembled_def total_received_def)
qed

lemma no_event_step:
  assumes "holds r s i a" "pdu_fields p = Inr (fd, i, d)" "event_of i p = None"
  shows "case on_pdu r s p of (res, r', s') \<Rightarrow> r' = r \<and> s' = s"
proof -
  have "map_of (c1_active r) i \<noteq> None"
    using assms(1) by (auto simp: holds_def split: option.splits)
  moreover have "d \<noteq> [] \<Longrightarrow> get_at d 0 = Some (hd d)" "d = [] \<Longrightarrow> get_at d 0 = None"
    by (simp_all add: get_at_def hd_conv_nth)
  ultimately show ?thesis
    using assms(2,3)
    by (cases "d = []")
      (auto simp: on_pdu_def event_of_def on_file_data_def on_directive_def open_idle
        split: sum.splits if_splits)
qed

lemma open_transaction_other:
  assumes "open_transaction r j = Inr r'" "j \<noteq> i"
  shows "map_of (c1_active r') i = map_of (c1_active r) i \<and> c1_output_dir r' = c1_output_dir r"
  using assms by (auto simp: open_transaction_def update_conv' split: if_splits)

lemma partial_path_of:
  "table_ok r \<Longrightarrow> map_of (c1_active r) i = Some st \<Longrightarrow> ts_partial_path st = partial_path_for (c1_output_dir r) i"
  by (auto simp: table_ok_def fresh_id_def)

lemma file_data_other:
  assumes "table_ok r" "j \<noteq> i"
  shows "case on_file_data r s j d of (_, r', s') \<Rightarrow>
    map_of (c1_active r') i = map_of (c1_active r) i \<and> fs_denied s' = fs_denied s
    \<and> fs_files s' (partial_path_for (c1_output_dir r) i) = fs_files s (partial_path_for (c1_output_dir r) i)"
proof (cases "open_transaction r j")
  case (Inr r')
  then have r': "table_ok r'" "c1_output_dir r' = c1_output_dir r"
    "map_of (c1_active r') i = map_of (c1_active r) i"
    using open_transaction_ok [OF assms(1)] open_transaction_other [OF Inr assms(2)] by auto
  show ?thesis
    using Inr assms(2) r' partial_path_of [OF r'(1), of j]
    by (auto simp: on_file_data_def fs_write_at_def set_transaction_def update_conv' partial_path_inj
        split: sum.split option.split)
qed (simp add: on_file_data_def)

lemma directive_other:
  assumes "j \<noteq> i"
  shows "case on_directive r s j d of (_, r', s') \<Rightarrow>
    map_of (c1_active r') i = map_of (c1_active r) i \<and> s' = s"
  using assms open_transaction_other [of r j _ i]
  by (auto simp: on_directive_def set_transaction_def update_conv' split: sum.split option.split)

lemma holds_cong:
  "holds r s i a \<Longrightarrow> map_of (c1_active r') i = map_of (c1_active r) i \<Longrightarrow>
   c1_output_dir r' = c1_output_dir r \<Longrightarrow>
   fs_files s' (partial_path_for (c1_output_dir r) i) = fs_files s (partial_path_for (c1_output_dir r) i) \<Longrightarrow>
   holds r' s' i a"
  by (auto simp: holds_def split: option.splits)

lemma on_pdu_refines:
  assumes "table_ok r" "holds r s i a" "fs_denied s (partial_path_for (c1_output_dir r) i) = None"
  shows "case on_pdu r s p of (_, r', s') \<Rightarrow>
    holds r' s' i (case event_of i p of None \<Rightarrow> a | Some e \<Rightarrow> receive a e) \<and> fs_denied s' = fs_denied s"
proof (cases "pdu_fields p")
  case (Inr f)
  then obtain fd j d where f: "pdu_fields p = Inr (fd, j, d)" by (cases f) auto
  show ?thesis
  proof (cases "j = i")
    case False
    then have none: "event_of i p = None" by (simp add: event_of_def f)
    obtain res r' s' where on: "on_pdu r s p = (res, r', s')" by (metis prod_cases3)
    then have dir: "c1_output_dir r' = c1_output_dir r" using same_config(1) [of r s p] by simp
    have "map_of (c1_active r') i = map_of (c1_active r) i \<and> fs_denied s' = fs_denied s
      \<and> fs_files s' (partial_path_for (c1_output_dir r) i) = fs_files s (partial_path_for (c1_output_dir r) i)"
      using on f file_data_other [OF assms(1) False, of s d] directive_other [OF False, of r s d]
      by (cases fd) (simp_all add: on_pdu_def)
    then show ?thesis
      using on none dir holds_cong [OF assms(2)] by simp
  next
    case True
    note f = f [unfolded True]
    show ?thesis
    proof (cases "event_of i p")
      case None
      then show ?thesis using no_event_step [OF assms(2) f] assms(2) by auto
    next
      case (Some e)
      show ?thesis
      proof (cases fd)
        case True
        then obtain n c where nc: "parse_file_data_pdu d = Inr (n, c)" "e = Segment n c"
          using Some f by (auto simp: event_of_def split: sum.splits if_splits)
        show ?thesis
          using file_data_step [OF assms(2,3) nc(1)] nc(2) Some f True by (auto simp: on_pdu_def)
      next
        case False
        then obtain m cc crc z where "d \<noteq> []"
          "(hd d = dir_metadata \<and> parse_metadata_pdu d = Inr m \<and> e = Metadata m) \<or>
           (hd d \<noteq> dir_metadata \<and> hd d = dir_eof \<and> parse_eof_pdu d = Inr (cc, crc, z)
             \<and> e = EndOfFile (if cc = cond_no_error then Some crc else None))"
          using Some f by (auto simp: event_of_def split: sum.splits if_splits)
        from directive_step [OF assms(2) this] show ?thesis
          using assms(3) Some f False by (auto simp: on_pdu_def)
      qed
    qed
  qed
qed (use assms in \<open>simp add: on_pdu_def event_of_def\<close>)

text \<open>The first event of a transaction opens it.\<close>

lemma open_holds:
  assumes "table_ok r" "map_of (c1_active r) i = None"
    "length (active_transactions r) < cfdp_max_transactions"
    "fs_files s (partial_path_for (c1_output_dir r) i) = None"
  shows "\<exists>r'. open_transaction r i = Inr r' \<and> table_ok r' \<and> holds r' s i nothing_received
    \<and> c1_output_dir r' = c1_output_dir r"
proof -
  have eq: "open_transaction r i = Inr (set_transaction r i (new_state r i))"
    using assms(2,3) by (simp add: open_transaction_def set_transaction_def active_transactions_def)
  then show ?thesis
    using open_transaction_ok [OF assms(1) eq] assms(4)
    by (simp add: holds_def set_transaction_def update_conv' new_state_def nothing_received_def
        assembled_def total_received_def u64_max_nat_def)
qed

lemma on_pdu_opened:
  assumes "open_transaction r i = Inr r'" "map_of (c1_active r') i \<noteq> None"
    "event_of i p = Some e" "\<forall>c. e \<noteq> EndOfFile c"
  shows "on_pdu r s p = on_pdu r' s p"
proof -
  obtain fd d where f: "pdu_fields p = Inr (fd, i, d)"
    using assms(3) by (auto simp: event_of_def split: sum.splits if_splits)
  have "\<not> fd \<Longrightarrow> d \<noteq> [] \<and> hd d = dir_metadata"
    using assms(3,4) f by (auto simp: event_of_def split: sum.splits if_splits)
  then have "\<not> fd \<Longrightarrow> get_at d 0 = Some dir_metadata"
    by (auto simp: get_at_def hd_conv_nth)
  then show ?thesis
    using assms(1) f open_idle [OF assms(2)]
    by (cases fd) (simp_all add: on_pdu_def on_file_data_def on_directive_def)
qed

lemma class1_run_refines:
  assumes "table_ok r" "holds r s i a" "fs_denied s (partial_path_for (c1_output_dir r) i) = None"
  shows "case class1_run r s ps of (r', s') \<Rightarrow>
    table_ok r' \<and> holds r' s' i (foldl receive a (events_of i ps)) \<and> fs_denied s' = fs_denied s
    \<and> c1_output_dir r' = c1_output_dir r"
  using assms
proof (induction ps arbitrary: r s a)
  case (Cons p ps)
  obtain res r' s' where on: "on_pdu r s p = (res, r', s')" by (metis prod_cases3)
  have step: "holds r' s' i (case event_of i p of None \<Rightarrow> a | Some e \<Rightarrow> receive a e)"
    "fs_denied s' = fs_denied s" "table_ok r'" "c1_output_dir r' = c1_output_dir r"
    using on_pdu_refines [OF Cons.prems, of p] on_pdu_ok [OF Cons.prems(1), of s p]
      same_config(1) [of r s p] on by auto
  have "foldl receive a (events_of i (p # ps)) =
      foldl receive (case event_of i p of None \<Rightarrow> a | Some e \<Rightarrow> receive a e) (events_of i ps)"
    by (auto simp: events_of_def List.map_filter_simps split: option.split)
  then show ?case
    using Cons.IH [OF step(3,1)] Cons.prems(3) step(2,4) on by (simp add: split_beta)
qed (simp add: events_of_def List.map_filter_simps)

section \<open>Outcomes\<close>

definition delivery_path :: "string \<Rightarrow> u64 \<Rightarrow> file_metadata option \<Rightarrow> string" where
  "delivery_path dir i m =
     (case m of
        Some m \<Rightarrow> (if is_absolute (fm_dest_path m) then fm_dest_path m else path_join dir (fm_dest_path m))
      | None \<Rightarrow> path_join dir (dec_string (unat i) @ ''.bin''))"

definition outcome_of :: "(bytes \<Rightarrow> u32) \<Rightarrow> string \<Rightarrow> u64 \<Rightarrow> received \<Rightarrow> cfdp_error + transaction_outcome" where
  "outcome_of crc32 dir i a =
     (case assembled a of
        None \<Rightarrow> Inl (CfdpIo not_found)
      | Some d \<Rightarrow>
          if rc_crc a \<in> {None, Some (crc32 d)}
          then Inr (Completed i (delivery_path dir i (rc_metadata a)) (of_nat (min u64_max_nat (total_received a))))
          else Inl (CrcMismatch i))"

definition files_after :: "(bytes \<Rightarrow> u32) \<Rightarrow> string \<Rightarrow> u64 \<Rightarrow> received \<Rightarrow> (string \<rightharpoonup> bytes) \<Rightarrow> string \<rightharpoonup> bytes" where
  "files_after crc32 dir i a files =
     (case outcome_of crc32 dir i a of
        Inl _ \<Rightarrow> files
      | Inr _ \<Rightarrow> (files(partial_path_for dir i := None))
                   (delivery_path dir i (rc_metadata a) := assembled a))"

lemma finalize_exact:
  assumes "holds r s i a" "fs_denied s = (\<lambda>_. None)" "c1_output_dir r = dir"
  shows "finalize_transaction crc32 r s i =
    (outcome_of crc32 dir i a, r\<lparr>c1_active := AList.delete i (c1_active r)\<rparr>,
     s\<lparr>fs_files := files_after crc32 dir i a (fs_files s)\<rparr>)"
proof -
  obtain st where st: "map_of (c1_active r) i = Some st" "ts_metadata st = rc_metadata a"
    "ts_expected_crc st = rc_crc a" "unat (ts_bytes_written st) = min u64_max_nat (total_received a)"
    "ts_partial_path st = partial_path_for dir i" "fs_files s (partial_path_for dir i) = assembled a"
    using assms(1,3) by (auto simp: holds_def split: option.splits)
  have written: "ts_bytes_written st = of_nat (min u64_max_nat (total_received a))"
    using st(4) by (metis of_nat_unat ucast_id)
  have path: "final_path r' i st = delivery_path dir i (rc_metadata a)" if "c1_output_dir r' = dir" for r'
    using st(2) that by (simp add: final_path_def delivery_path_def split: option.split)
  show ?thesis
    using st written path assms(2,3)
    by (cases "assembled a"; cases "rc_crc a")
      (auto simp: finalize_transaction_def file_crc32_def fs_read_def outcome_of_def files_after_def
        fs_rename_def Let_def)
qed

lemma class1_outcome:
  assumes "table_ok r" "c1_output_dir r = dir"
    and "map_of (c1_active r) i = None" "length (active_transactions r) < cfdp_max_transactions"
    and "fs_files s (partial_path_for dir i) = None" "fs_denied s = (\<lambda>_. None)"
    and "event_of i p = Some e" "\<forall>c. e \<noteq> EndOfFile c"
    and a: "a = foldl receive nothing_received (events_of i (p # ps))"
  shows "case class1_run r s (p # ps) of (r', s') \<Rightarrow>
    (case finalize_transaction crc32 r' s' i of (out, r'', s'') \<Rightarrow>
       out = outcome_of crc32 dir i a \<and> map_of (c1_active r'') i = None
       \<and> fs_files s'' = files_after crc32 dir i a (fs_files s')
       \<and> fs_files s' (partial_path_for dir i) = assembled a)"
proof -
  obtain r1 where r1: "open_transaction r i = Inr r1" "table_ok r1" "holds r1 s i nothing_received"
    "c1_output_dir r1 = dir"
    using open_holds [OF assms(1,3,4), of s] assms(2,5) by auto
  have "map_of (c1_active r1) i \<noteq> None"
    using r1(3) by (auto simp: holds_def split: option.splits)
  from on_pdu_opened [OF r1(1) this assms(7,8)] have first: "class1_run r s (p # ps) = class1_run r1 s (p # ps)"
    by simp
  obtain r' s' where run: "class1_run r1 s (p # ps) = (r', s')" by fastforce
  then have fin: "holds r' s' i a" "fs_denied s' = (\<lambda>_. None)" "c1_output_dir r' = dir"
    using class1_run_refines [OF r1(2,3), of "p # ps"] assms(6) r1(4) a by (simp_all del: class1_run.simps)
  from finalize_exact [OF this, of crc32] fin(1,3) show ?thesis
    by (simp add: first run delete_conv' del: class1_run.simps) (simp add: holds_def)
qed

lemma receive_segments:
  "rc_segments (foldl receive a es) = rc_segments a @ List.map_filter (\<lambda>e. case e of Segment n c \<Rightarrow> Some (n, c) | _ \<Rightarrow> None) es"
proof (induction es arbitrary: a)
  case (Cons e es)
  then show ?case by (cases e) (simp_all add: List.map_filter_simps)
qed (simp add: List.map_filter_simps)

lemma receive_metadata:
  "\<forall>x. Metadata x \<in> set es \<longrightarrow> x = m \<Longrightarrow> rc_metadata a = Some m \<or> Metadata m \<in> set es \<Longrightarrow>
     rc_metadata (foldl receive a es) = Some m"
proof (induction es arbitrary: a)
  case (Cons e es)
  then show ?case by (cases e) auto
qed simp

lemma receive_crc:
  "\<forall>x. EndOfFile x \<in> set es \<longrightarrow> x = Some c \<Longrightarrow> rc_crc a \<in> {None, Some c} \<Longrightarrow>
     rc_crc (foldl receive a es) \<in> {None, Some c}"
proof (induction es arbitrary: a)
  case (Cons e es)
  have "rc_crc (receive a e) \<in> {None, Some c}"
    using Cons.prems by (cases e) auto
  then show ?case using Cons by simp
qed simp

lemma segments_in:
  "x \<in> set (List.map_filter (\<lambda>e. case e of Segment n c \<Rightarrow> Some (n, c) | _ \<Rightarrow> None) es) \<longleftrightarrow>
     Segment (fst x) (snd x) \<in> set es"
proof (induction es)
  case (Cons e es)
  then show ?case by (cases x; cases e) (auto simp: List.map_filter_simps)
qed (simp add: List.map_filter_simps)

lemma idle_iff: "map_of (c1_active r) i = None \<longleftrightarrow> i \<notin> set (active_transactions r)"
  by (simp add: active_transactions_def map_of_eq_None_iff)

lemma delivers_file:
  assumes "class1_reach crc32 owlt dir (r, s)"
    and "i \<notin> set (active_transactions r)" "length (active_transactions r) < 16"
    and "fs_files s (partial_path_for dir i) = None" "fs_denied s = (\<lambda>_. None)"
    and "event_of i p = Some e" "\<forall>c. e \<noteq> EndOfFile c"
    and es: "es = events_of i (p # ps)"
    and "\<forall>n c. Segment n c \<in> set es \<longrightarrow> segment_of F (n, c)"
    and "\<forall>k < length F. \<exists>n c. Segment n c \<in> set es \<and> n \<le> k \<and> k < n + length c"
    and "Segment off chunk \<in> set es" "Metadata m \<in> set es"
    and "\<forall>x. Metadata x \<in> set es \<longrightarrow> x = m" "\<forall>x. EndOfFile x \<in> set es \<longrightarrow> x = Some (crc32 F)"
  shows "case class1_run r s (p # ps) of (r', s') \<Rightarrow>
    (case finalize_transaction crc32 r' s' i of (out, r'', s'') \<Rightarrow>
       (\<exists>n. out = Inr (Completed i (delivery_path dir i (Some m)) n))
       \<and> fs_files s'' (delivery_path dir i (Some m)) = Some F)"
proof -
  let ?a = "foldl receive nothing_received es"
  let ?segs = "rc_segments ?a"
  have segs: "x \<in> set ?segs \<longleftrightarrow> Segment (fst x) (snd x) \<in> set es" for x
    by (simp add: receive_segments segments_in nothing_received_def)
  have "\<forall>x \<in> set ?segs. segment_of F x"
  proof
    fix x assume "x \<in> set ?segs"
    then show "segment_of F x" using segs [of x] assms(9) by (metis prod.collapse)
  qed
  moreover have "{..<length F} \<subseteq> covers ?segs"
  proof
    fix k assume "k \<in> {..<length F}"
    then obtain n c where nc: "Segment n c \<in> set es" "n \<le> k" "k < n + length c"
      using assms(10) by auto
    then have "(n, c) \<in> set ?segs" "k \<in> {fst (n, c) ..< fst (n, c) + length (snd (n, c))}"
      using segs [of "(n, c)"] by simp_all
    then show "k \<in> covers ?segs" unfolding covers_def by (rule UN_I)
  qed
  moreover have "?segs \<noteq> []" using segs [of "(off, chunk)"] assms(11) by auto
  ultimately have "assembled ?a = Some F"
    using write_all_reassembles unfolding assembled_def by (metis (no_types, lifting))
  moreover have "rc_metadata ?a = Some m"
    by (rule receive_metadata [OF assms(13) disjI2 [OF assms(12)]])
  moreover have "rc_crc ?a \<in> {None, Some (crc32 F)}"
    by (rule receive_crc [OF assms(14)]) (simp add: nothing_received_def)
  ultimately have "\<exists>n. outcome_of crc32 dir i ?a = Inr (Completed i (delivery_path dir i (Some m)) n)"
    "\<And>f. files_after crc32 dir i ?a f (delivery_path dir i (Some m)) = Some F"
    by (simp_all add: outcome_of_def files_after_def)
  then show ?thesis
    using class1_outcome [OF _ _ _ _ assms(4-7), of r ?a ps crc32] class1_reach_ok [OF assms(1)] assms(2,3)
    by (auto simp: idle_iff cfdp_max_transactions_def es split: prod.splits)
qed

section \<open>Properties\<close>

text \<open>
  In every reachable state the receiver holds at most sixteen transactions, each identifier
  once, and each writes the partial file named after its own identifier, so that no two
  transactions share a file.
\<close>

theorem class1_table_invariant:
  assumes "class1_reach crc32 owlt dir (r, s)"
  shows "distinct (active_transactions r) \<and> length (active_transactions r) \<le> 16
    \<and> inj_on (\<lambda>i. ts_partial_path (the (map_of (c1_active r) i))) (set (active_transactions r))"
proof -
  have ok: "table_ok r" "c1_output_dir r = dir"
    using class1_reach_ok [OF assms] by simp_all
  have "ts_partial_path (the (map_of (c1_active r) i)) = partial_path_for dir i"
    if "i \<in> set (active_transactions r)" for i
    using that idle_iff [of r i] partial_path_of [OF ok(1)] ok(2) by force
  then have "inj_on (\<lambda>i. ts_partial_path (the (map_of (c1_active r) i))) (set (active_transactions r))"
    by (intro inj_onI) (simp add: partial_path_inj)
  then show ?thesis
    using ok by (simp add: table_ok_def keys_unique_def active_transactions_def cfdp_max_transactions_def)
qed

theorem class1_table_invariant_witness:
  "distinct (active_transactions (class1_new 0 ''/rx''))
   \<and> length (active_transactions (class1_new 0 ''/rx'')) \<le> 16
   \<and> inj_on (\<lambda>i. ts_partial_path (the (map_of (c1_active (class1_new 0 ''/rx'')) i)))
       (set (active_transactions (class1_new 0 ''/rx'')))"
  by (rule class1_table_invariant [of "\<lambda>_. 0" 0 "''/rx''" _ "\<lparr>fs_files = Map.empty, fs_denied = \<lambda>_. None\<rparr>"])
    (rule class1_reach.start)

text \<open>
  C19: The outcome of a transaction is determined by its own well-formed PDUs.  Starting from any
  reachable receiver with room, on a disk that does not refuse, with no left-over partial file,
  and with a first PDU that opens the transaction: whatever other PDUs follow, of other
  transactions or unreadable, finalizing fails when no segment came, reports a checksum mismatch
  when the last EOF PDU declared no error and another checksum, and otherwise completes, checked
  or not; in every case the transaction is closed.
\<close>

theorem class1_outcome_exact:
  assumes "class1_reach crc32 owlt dir (r, s)"
    and "i \<notin> set (active_transactions r)" "length (active_transactions r) < 16"
    and "fs_files s (partial_path_for dir i) = None" "fs_denied s = (\<lambda>_. None)"
    and "event_of i p = Some e" "\<forall>c. e \<noteq> EndOfFile c"
    and "a = foldl receive nothing_received (events_of i (p # ps))"
  shows "case class1_run r s (p # ps) of (r', s') \<Rightarrow>
    (case finalize_transaction crc32 r' s' i of (out, r'', s'') \<Rightarrow>
       out = outcome_of crc32 dir i a \<and> i \<notin> set (active_transactions r'')
       \<and> fs_files s'' = files_after crc32 dir i a (fs_files s')
       \<and> fs_files s' (partial_path_for dir i) = assembled a)"
  using class1_outcome [OF _ _ _ _ assms(4-8), of r crc32] class1_reach_ok [OF assms(1)] assms(2,3)
  by (simp add: idle_iff cfdp_max_transactions_def)

definition example_disk :: fs where
  "example_disk = \<lparr>fs_files = Map.empty, fs_denied = \<lambda>_. None\<rparr>"

definition example_segment :: bytes where
  "example_segment = [0x10, 0, 0, 0, 1, 2, 1, 0, 0, 0, 0, 7, 8]"

definition example_metadata :: bytes where
  "example_metadata = [0, 0, 0, 0, 1, 2, 1, 7, 0, 0, 0, 0, 2, 0, 0x61, 0x62, 0]"

definition example_eof :: bytes where
  "example_eof = [0, 0, 0, 0, 1, 2, 1, 4, 0, 0, 0, 0, 5, 0, 0, 0, 2]"

definition example_meta :: file_metadata where
  "example_meta = \<lparr>fm_dest_path = ''ab'', fm_file_size = 2\<rparr>"

lemma example_events:
  "event_of 0x100000002 example_segment = Some (Segment 0 [7, 8])"
  "events_of 0x100000002 [example_segment, example_metadata, example_eof] =
     [Segment 0 [7, 8], Metadata example_meta, EndOfFile (Some 5)]"
  "events_of 0x100000002 [example_segment, example_metadata] = [Segment 0 [7, 8], Metadata example_meta]"
  by code_simp+

lemma example_start:
  "class1_reach crc32 0 ''/rx'' (class1_new 0 ''/rx'', example_disk)"
  "active_transactions (class1_new 0 ''/rx'') = []"
  "fs_files example_disk p = None" "fs_denied example_disk = (\<lambda>_. None)"
  by (rule class1_reach.start) (simp_all add: class1_new_def active_transactions_def example_disk_def)

theorem class1_outcome_exact_witness:
  "case class1_run (class1_new 0 ''/rx'') example_disk [example_segment, example_metadata] of (r', s') \<Rightarrow>
    (case finalize_transaction (\<lambda>_. 6) r' s' 0x100000002 of (out, r'', s'') \<Rightarrow>
       out = Inr (Completed 0x100000002 ''/rx/ab'' 2))"
proof -
  let ?a = "foldl receive nothing_received (events_of 0x100000002 [example_segment, example_metadata])"
  have "outcome_of (\<lambda>_. 6) ''/rx'' 0x100000002 ?a = Inr (Completed 0x100000002 ''/rx/ab'' 2)"
    unfolding example_events
    by (simp add: outcome_of_def assembled_def write_all_def write_at_def total_received_def
        nothing_received_def delivery_path_def path_join_def is_absolute_def example_meta_def u64_max_nat_def)
  then show ?thesis
    using class1_outcome_exact [OF example_start(1), of "0x100000002" example_segment _ ?a "[example_metadata]" "\<lambda>_. 6"]
    by (auto simp: example_start example_events split: prod.splits)
qed

text \<open>
  C15: A file arrives whole.  When the segments of a transaction are pieces of the file \<open>F\<close> at
  their places, in any order, repeated, overlapping and interleaved with the PDUs of other
  transactions, and they cover it, the EOF PDUs carry its checksum and the Metadata PDU names it,
  then finalizing completes and the named path holds exactly \<open>F\<close>.
\<close>

theorem class1_delivers_file:
  assumes "class1_reach crc32 owlt dir (r, s)"
    and "i \<notin> set (active_transactions r)" "length (active_transactions r) < 16"
    and "fs_files s (partial_path_for dir i) = None" "fs_denied s = (\<lambda>_. None)"
    and "event_of i p = Some e" "\<forall>c. e \<noteq> EndOfFile c"
    and es: "es = events_of i (p # ps)"
    and "\<forall>n c. Segment n c \<in> set es \<longrightarrow> segment_of F (n, c)"
    and "\<forall>k < length F. \<exists>n c. Segment n c \<in> set es \<and> n \<le> k \<and> k < n + length c"
    and "Segment off chunk \<in> set es" "Metadata m \<in> set es"
    and "\<forall>x. Metadata x \<in> set es \<longrightarrow> x = m" "\<forall>x. EndOfFile x \<in> set es \<longrightarrow> x = Some (crc32 F)"
  shows "case class1_run r s (p # ps) of (r', s') \<Rightarrow>
    (case finalize_transaction crc32 r' s' i of (out, r'', s'') \<Rightarrow>
       (\<exists>n. out = Inr (Completed i (delivery_path dir i (Some m)) n))
       \<and> fs_files s'' (delivery_path dir i (Some m)) = Some F)"
  by (rule delivers_file [OF assms])

theorem class1_delivers_file_witness:
  "case class1_run (class1_new 0 ''/rx'') example_disk [example_segment, example_metadata, example_eof] of
    (r', s') \<Rightarrow>
    (case finalize_transaction (\<lambda>_. 5) r' s' 0x100000002 of (out, r'', s'') \<Rightarrow>
       (\<exists>n. out = Inr (Completed 0x100000002 (delivery_path ''/rx'' 0x100000002 (Some example_meta)) n))
       \<and> fs_files s'' (delivery_path ''/rx'' 0x100000002 (Some example_meta)) = Some [7, 8])"
  by (rule class1_delivers_file [OF example_start(1) _ _ example_start(3,4) example_events(1) _ refl,
        where chunk = "[7, 8]" and off = 0])
    (auto simp: example_start example_events segment_of_def less_2_cases_iff)

text \<open>
  C32: \<open>poll\<close> is all or nothing: while the clock reads at most ten light times (in seconds) it does
  nothing, and after that it abandons every transaction, however recent its last PDU, because the
  time of the last PDU is never recorded.
\<close>

theorem class1_poll_all_or_nothing:
  assumes "class1_reach crc32 owlt dir (r, s)"
  shows "cfdp_poll r now =
    (if unat (coarse now) > min u64_max_nat (as_secs owlt * 10)
     then (map (\<lambda>(i, st). Abandoned i (timeout_reason r) (ts_bytes_written st)) (c1_active r), r\<lparr>c1_active := []\<rparr>)
     else ([], r))"
  using poll_exact [of r now] class1_reach_ok [OF assms]
  by (simp add: timeout_secs_def cfdp_timeout_owlt_mult_def)

lemma example_receives:
  "case on_pdu (class1_new 0 ''/rx'') example_disk example_segment of (_, r, _) \<Rightarrow>
     map (\<lambda>(i, st). (i, ts_bytes_written st)) (c1_active r) = [(0x100000002, 2)] \<and> c1_owlt r = 0"
proof -
  have "pdu_fields example_segment = Inr (True, 0x100000002, [0, 0, 0, 0, 7, 8])"
    "parse_file_data_pdu [0, 0, 0, 0, 7, 8] = Inr (0, [7, 8])"
    by code_simp+
  then show ?thesis
    by (simp add: on_pdu_def on_file_data_def open_transaction_def new_state_def set_transaction_def
        class1_new_def fs_write_at_def example_disk_def sat_add64_def cfdp_max_transactions_def u64_max_nat_def)
qed

theorem class1_poll_all_or_nothing_witness:
  "\<exists>r s. class1_reach (\<lambda>_. 0) 0 ''/rx'' (r, s) \<and> map fst (c1_active r) = [0x100000002]
     \<and> cfdp_poll r \<lparr>coarse = 0, fine = 7\<rparr> = ([], r)
     \<and> cfdp_poll r \<lparr>coarse = 1, fine = 0\<rparr> =
         ([Abandoned 0x100000002 ''timeout after 0s'' 2], r\<lparr>c1_active := []\<rparr>)"
proof -
  obtain res r s where run: "on_pdu (class1_new 0 ''/rx'') example_disk example_segment = (res, r, s)"
    by (metis prod_cases3)
  then obtain st where r: "c1_active r = [(0x100000002, st)]" "ts_bytes_written st = 2" "c1_owlt r = 0"
    using example_receives by auto
  have reach: "class1_reach (\<lambda>_. 0) 0 ''/rx'' (r, s)"
    by (rule class1_reach.step [OF class1_reach.start class1_step.pdu [OF run]])
  have reason: "timeout_reason r = ''timeout after 0s''"
    by (simp add: timeout_reason_def timeout_secs_def r(3) as_secs_def u64_max_nat_def) code_simp
  show ?thesis
    using reach class1_poll_all_or_nothing [OF reach, of "\<lparr>coarse = 0, fine = 7\<rparr>"]
      class1_poll_all_or_nothing [OF reach, of "\<lparr>coarse = 1, fine = 0\<rparr>"] r(1,2)
    by (intro exI [of _ r] exI [of _ s]) (simp add: reason as_secs_def)
qed

end
