(* ===== verification/Mfile.thy ===== *)
theory Mfile
  imports File_System Ccsds_Headers Tables
begin

text \<open>
  The mission file assembler, \<open>rust/ground_station/src/mfile/mod.rs\<close>.  Both ordered maps are
  sorted association lists.  An index past the end of the bit set and an allocation the system
  does not grant end in \<open>Panicked\<close>; the allocator is the argument \<open>alloc\<close>, which answers
  whether a request of that many bytes is granted, and \<open>crc32\<close> is the CRC engine of the \<open>crc\<close>
  crate.  \<open>usize\<close> has 64 bits.
\<close>

section \<open>Constants and wire fields\<close>

definition mfile_chunk_max_bytes :: nat where
  "mfile_chunk_max_bytes = 1024"

definition mfile_timeout_owlt_mult :: nat where
  "mfile_timeout_owlt_mult = 10"

definition mfile_header_len :: nat where
  "mfile_header_len = 34"

definition read_u32_be :: "bytes \<Rightarrow> nat \<Rightarrow> u32 option" where
  "read_u32_be buf offset = Option.bind (get_range buf offset (offset + 4)) slice_be32"

definition read_u64_be :: "bytes \<Rightarrow> nat \<Rightarrow> u64 option" where
  "read_u64_be buf offset = Option.bind (get_range buf offset (offset + 8)) slice_be64"

definition read_u16_be :: "bytes \<Rightarrow> nat \<Rightarrow> u16 option" where
  "read_u16_be buf offset = Option.bind (get_range buf offset (offset + 2)) slice_be16"

datatype assembly_outcome =
    Complete u32 string nat
  | Incomplete u32 string nat

datatype mfile_error =
    TooShort
  | ChunkLenExceeded u16
  | ChunkCrcMismatch u32 u32 u32
  | MfileIo io_error

section \<open>The bit set\<close>

record bit_set =
  bs_words :: "u64 list"
  bs_len :: u32
  bs_set_count :: u32

definition bitset_new :: "(nat \<Rightarrow> bool) \<Rightarrow> u32 \<Rightarrow> bit_set exec" where
  "bitset_new alloc n =
     (let word_count = (unat n + 63) div 64 in
      if word_count = 0 \<or> alloc (8 * word_count)
      then Returned \<lparr>bs_words = replicate word_count 0, bs_len = n, bs_set_count = 0\<rparr>
      else Panicked)"

definition bitset_set :: "bit_set \<Rightarrow> u32 \<Rightarrow> (bool \<times> bit_set) exec" where
  "bitset_set b idx =
     (let word = unat (idx div 64); bitmask = push_bit (unat (idx mod 64)) 1 in
      case get_at (bs_words b) word of
        None \<Rightarrow> Panicked
      | Some w \<Rightarrow>
          if w AND bitmask = 0
          then Returned (True, b\<lparr>bs_words := (bs_words b)[word := w OR bitmask], bs_set_count := bs_set_count b + 1\<rparr>)
          else Returned (False, b))"

definition bitset_is_set :: "bit_set \<Rightarrow> u32 \<Rightarrow> bool exec" where
  "bitset_is_set b idx =
     (case get_at (bs_words b) (unat (idx div 64)) of
        None \<Rightarrow> Panicked
      | Some w \<Rightarrow> Returned (w AND push_bit (unat (idx mod 64)) 1 \<noteq> 0))"

definition bitset_is_full :: "bit_set \<Rightarrow> bool" where
  "bitset_is_full b \<longleftrightarrow> bs_set_count b = bs_len b"

section \<open>The assembler\<close>

record tx_state =
  tx_chunks :: "(u32 \<times> bytes) list"
  tx_received :: bit_set
  tx_total_chunks :: u32
  tx_total_size_bytes :: u64
  tx_crc32_full_file :: u32
  tx_timeout_tai_coarse :: u32
  tx_in_flight_bytes :: nat

record assembler =
  as_owlt_secs :: u32
  as_output_dir :: string
  as_max_ram_bytes :: nat
  as_active :: "(u32 \<times> tx_state) list"
  as_total_ram_bytes :: nat
  as_dup_ok_total :: u64
  as_dup_mismatch_total :: u64

definition assembler_new :: "duration \<Rightarrow> string \<Rightarrow> nat \<Rightarrow> assembler" where
  "assembler_new owlt dir max_ram_mb =
     \<lparr>as_owlt_secs = of_nat (as_secs owlt), as_output_dir = dir,
      as_max_ram_bytes = max_ram_mb * 1024 * 1024, as_active = [], as_total_ram_bytes = 0,
      as_dup_ok_total = 0, as_dup_mismatch_total = 0\<rparr>"

definition complete_path :: "assembler \<Rightarrow> u32 \<Rightarrow> string" where
  "complete_path m i = path_join (as_output_dir m) (dec_string (unat i) @ ''.bin'')"

definition partial_path :: "assembler \<Rightarrow> u32 \<Rightarrow> string" where
  "partial_path m i = path_join (as_output_dir m) (dec_string (unat i) @ ''.partial'')"

definition sat_mul32 :: "u32 \<Rightarrow> nat \<Rightarrow> u32" where
  "sat_mul32 a n = of_nat (min 4294967295 (unat a * n))"

definition chunk_data :: "(u32 \<times> bytes) list \<Rightarrow> bytes" where
  "chunk_data chunks = concat (map snd chunks)"

definition remove_tx :: "assembler \<Rightarrow> u32 \<Rightarrow> tx_state \<Rightarrow> assembler" where
  "remove_tx m i tx =
     m\<lparr>as_active := AList.delete i (as_active m),
       as_total_ram_bytes := as_total_ram_bytes m - tx_in_flight_bytes tx\<rparr>"

type_synonym 'a mfile_result = "(mfile_error + 'a) \<times> assembler \<times> fs"

definition mfile_abandon :: "assembler \<Rightarrow> fs \<Rightarrow> u32 \<Rightarrow> assembly_outcome mfile_result exec" where
  "mfile_abandon m s i =
     (case map_of (as_active m) i of
        None \<Rightarrow> Returned (Inr (Incomplete i (partial_path m i) 0), m, s)
      | Some tx \<Rightarrow>
          (let m = remove_tx m i tx;
               chunks = unat (tx_total_chunks tx); got = unat (bs_set_count (tx_received tx)) in
           if chunks < got then Panicked
           else
             (case fs_write s (partial_path m i) (chunk_data (tx_chunks tx)) of
                Inl e \<Rightarrow> Returned (Inl (MfileIo e), m, s)
              | Inr s \<Rightarrow> Returned (Inr (Incomplete i (partial_path m i) (chunks - got)), m, s))))"

definition isize_max :: nat where
  "isize_max = 9223372036854775807"

definition mfile_finalize ::
  "(bytes \<Rightarrow> u32) \<Rightarrow> (nat \<Rightarrow> bool) \<Rightarrow> assembler \<Rightarrow> fs \<Rightarrow> u32 \<Rightarrow> assembly_outcome mfile_result exec" where
  "mfile_finalize crc32 alloc m s i =
     (case map_of (as_active m) i of
        None \<Rightarrow> Returned (Inl TooShort, m, s)
      | Some tx \<Rightarrow>
          (let m = remove_tx m i tx; capacity = unat (tx_total_size_bytes tx) in
           if capacity > isize_max \<or> (capacity \<noteq> 0 \<and> \<not> alloc capacity) then Panicked
           else
             (let data = chunk_data (tx_chunks tx); computed = crc32 data in
              if computed \<noteq> tx_crc32_full_file tx then
                (case fs_write s (partial_path m i) data of
                   Inl e \<Rightarrow> Returned (Inl (MfileIo e), m, s)
                 | Inr s \<Rightarrow> Returned (Inr (Incomplete i (partial_path m i) 0), m, s))
              else
                (case fs_write s (complete_path m i) data of
                   Inl e \<Rightarrow> Returned (Inl (MfileIo e), m, s)
                 | Inr s \<Rightarrow> Returned (Inr (Complete i (complete_path m i) (length data)), m, s)))))"

text \<open>\<open>min_by_key\<close> returns the first entry with the smallest key.\<close>

fun min_by_timeout :: "(u32 \<times> tx_state) list \<Rightarrow> u32 option" where
  "min_by_timeout [] = None"
| "min_by_timeout [(i, _)] = Some i"
| "min_by_timeout ((i, tx) # (j, ty) # t) =
     (if tx_timeout_tai_coarse tx \<le> tx_timeout_tai_coarse ty then min_by_timeout ((i, tx) # t)
      else min_by_timeout ((j, ty) # t))"

definition enforce_ram_cap :: "assembler \<Rightarrow> fs \<Rightarrow> (assembler \<times> fs) exec" where
  "enforce_ram_cap m s =
     (if as_total_ram_bytes m \<le> as_max_ram_bytes m then Returned (m, s)
      else case min_by_timeout (as_active m) of
        None \<Rightarrow> Returned (m, s)
      | Some i \<Rightarrow> exec_bind (mfile_abandon m s i) (\<lambda>(_, m, s). Returned (m, s)))"

text \<open>The header and the checks before any state is touched.\<close>

record chunk_frame =
  cf_transaction_id :: u32
  cf_total_size_bytes :: u64
  cf_total_chunks :: u32
  cf_crc32_full_file :: u32
  cf_chunk_index :: u32
  cf_payload :: bytes

definition parse_chunk :: "(bytes \<Rightarrow> u32) \<Rightarrow> bytes \<Rightarrow> mfile_error + chunk_frame" where
  "parse_chunk crc32 raw =
     (if length raw < mfile_header_len then Inl TooShort
      else
        and_then (ok_or TooShort (read_u32_be raw 0)) (\<lambda>transaction_id.
        and_then (ok_or TooShort (read_u64_be raw 4)) (\<lambda>total_size_bytes.
        and_then (ok_or TooShort (read_u32_be raw 12)) (\<lambda>total_chunks.
        and_then (ok_or TooShort (read_u32_be raw 16)) (\<lambda>crc32_full_file.
        and_then (ok_or TooShort (read_u32_be raw 20)) (\<lambda>chunk_index.
        and_then (ok_or TooShort (read_u16_be raw 24)) (\<lambda>chunk_len.
        and_then (ok_or TooShort (read_u32_be raw 26)) (\<lambda>last_chunk_index.
        and_then (ok_or TooShort (read_u32_be raw 30)) (\<lambda>crc32_sent.
        if unat chunk_len > mfile_chunk_max_bytes then Inl (ChunkLenExceeded chunk_len)
        else
          and_then (ok_or TooShort (get_range raw mfile_header_len (mfile_header_len + unat chunk_len)))
            (\<lambda>payload.
          if crc32 payload \<noteq> crc32_sent
          then Inl (ChunkCrcMismatch transaction_id crc32_sent (crc32 payload))
          else Inr \<lparr>cf_transaction_id = transaction_id, cf_total_size_bytes = total_size_bytes,
                    cf_total_chunks = total_chunks, cf_crc32_full_file = crc32_full_file,
                    cf_chunk_index = chunk_index, cf_payload = payload\<rparr>))))))))))"

definition new_tx :: "(nat \<Rightarrow> bool) \<Rightarrow> assembler \<Rightarrow> chunk_frame \<Rightarrow> tx_state exec" where
  "new_tx alloc m f =
     exec_bind (bitset_new alloc (cf_total_chunks f)) (\<lambda>b.
     Returned \<lparr>tx_chunks = [], tx_received = b, tx_total_chunks = cf_total_chunks f,
       tx_total_size_bytes = cf_total_size_bytes f, tx_crc32_full_file = cf_crc32_full_file f,
       tx_timeout_tai_coarse = sat_mul32 (as_owlt_secs m) mfile_timeout_owlt_mult,
       tx_in_flight_bytes = 0\<rparr>)"

definition upsert_tx :: "(nat \<Rightarrow> bool) \<Rightarrow> assembler \<Rightarrow> fs \<Rightarrow> chunk_frame \<Rightarrow> (assembler \<times> fs) exec" where
  "upsert_tx alloc m s f =
     (if map_of (as_active m) (cf_transaction_id f) \<noteq> None then Returned (m, s)
      else
        exec_bind (new_tx alloc m f) (\<lambda>tx.
        enforce_ram_cap (m\<lparr>as_active := bt_insert (cf_transaction_id f) tx (as_active m)\<rparr>) s))"

definition store_chunk ::
  "(bytes \<Rightarrow> u32) \<Rightarrow> (nat \<Rightarrow> bool) \<Rightarrow> assembler \<Rightarrow> fs \<Rightarrow> chunk_frame \<Rightarrow> assembly_outcome option mfile_result exec" where
  "store_chunk crc32 alloc m s f =
     (let i = cf_transaction_id f; idx = cf_chunk_index f; n = length (cf_payload f) in
      case map_of (as_active m) i of
        None \<Rightarrow> Returned (Inr None, m, s)
      | Some tx \<Rightarrow>
          exec_bind (bitset_is_set (tx_received tx) idx) (\<lambda>dup.
          if dup then
            Returned (Inr None,
              (if map_of (tx_chunks tx) idx = Some (cf_payload f)
               then m\<lparr>as_dup_ok_total := as_dup_ok_total m + 1\<rparr>
               else m\<lparr>as_dup_mismatch_total := as_dup_mismatch_total m + 1\<rparr>), s)
          else
            exec_bind (bitset_set (tx_received tx) idx) (\<lambda>(_, b).
            let tx = tx\<lparr>tx_received := b, tx_in_flight_bytes := tx_in_flight_bytes tx + n,
                        tx_chunks := bt_insert idx (cf_payload f) (tx_chunks tx)\<rparr>;
                m = m\<lparr>as_total_ram_bytes := as_total_ram_bytes m + n,
                      as_active := bt_insert i tx (as_active m)\<rparr> in
            if bitset_is_full b then
              exec_bind (mfile_finalize crc32 alloc m s i) (\<lambda>(res, m, s).
              Returned (and_then res (\<lambda>out. Inr (Some out)), m, s))
            else Returned (Inr None, m, s))))"

definition on_chunk ::
  "(bytes \<Rightarrow> u32) \<Rightarrow> (nat \<Rightarrow> bool) \<Rightarrow> assembler \<Rightarrow> fs \<Rightarrow> bytes \<Rightarrow> assembly_outcome option mfile_result exec" where
  "on_chunk crc32 alloc m s raw =
     (case parse_chunk crc32 raw of
        Inl e \<Rightarrow> Returned (Inl e, m, s)
      | Inr f \<Rightarrow> exec_bind (upsert_tx alloc m s f) (\<lambda>(m, s). store_chunk crc32 alloc m s f))"

fun abandon_all :: "assembler \<Rightarrow> fs \<Rightarrow> u32 list \<Rightarrow> (assembly_outcome list \<times> assembler \<times> fs) exec" where
  "abandon_all m s [] = Returned ([], m, s)"
| "abandon_all m s (i # ids) =
     exec_bind (mfile_abandon m s i) (\<lambda>(res, m, s).
     exec_bind (abandon_all m s ids) (\<lambda>(outs, m, s).
     Returned ((case res of Inr out \<Rightarrow> out # outs | Inl _ \<Rightarrow> outs), m, s)))"

definition mfile_poll :: "assembler \<Rightarrow> fs \<Rightarrow> cuc \<Rightarrow> (assembly_outcome list \<times> assembler \<times> fs) exec" where
  "mfile_poll m s now =
     abandon_all m s
       (map fst (filter (\<lambda>(_, tx). coarse now > tx_timeout_tai_coarse tx) (as_active m)))"

definition mfile_active_count :: "assembler \<Rightarrow> nat" where
  "mfile_active_count m = length (as_active m)"

definition mfile_dup_ok_total :: "assembler \<Rightarrow> u64" where
  "mfile_dup_ok_total m = as_dup_ok_total m"

definition mfile_dup_mismatch_total :: "assembler \<Rightarrow> u64" where
  "mfile_dup_mismatch_total m = as_dup_mismatch_total m"

section \<open>The bit set as a set\<close>

definition bits_of :: "bit_set \<Rightarrow> u32 set" where
  "bits_of b = {idx. bitset_is_set b idx = Returned True}"

lemma single_bit: "k < 64 \<Longrightarrow> (w :: u64) AND push_bit k 1 \<noteq> 0 \<longleftrightarrow> bit w k"
  by (simp add: push_bit_eq_mult and_exp_eq_0_iff_not_bit)

lemma index_bound: "unat ((idx :: u32) mod 64) < 64"
  by (simp add: unat_mod)

lemma is_set_bit:
  "bitset_is_set b idx =
     (if unat (idx div 64) < length (bs_words b)
      then Returned (bit (bs_words b ! unat (idx div 64)) (unat (idx mod 64))) else Panicked)"
  unfolding bitset_is_set_def get_at_def single_bit [OF index_bound] by simp

lemma set_fresh:
  assumes "bitset_is_set b idx = Returned False"
  shows "bitset_set b idx =
    Returned (True, b\<lparr>bs_words := (bs_words b)[unat (idx div 64) :=
      bs_words b ! unat (idx div 64) OR push_bit (unat (idx mod 64)) 1], bs_set_count := bs_set_count b + 1\<rparr>)"
  using assms single_bit [OF index_bound, of _ idx]
  by (auto simp: bitset_set_def Let_def is_set_bit get_at_def split: if_splits)

lemma same_index:
  "unat (i div 64) = unat (j div 64) \<Longrightarrow> unat (i mod 64) = unat (j mod 64) \<Longrightarrow> i = (j :: u32)"
  by (metis word_mod_div_equality word_unat_eq_iff)

lemma set_is_set:
  assumes "bitset_set b idx = Returned (True, b')" "bitset_is_set b idx = Returned False"
  shows "bitset_is_set b' j = (if j = idx then Returned True else bitset_is_set b j)"
proof -
  let ?w = "unat (idx div 64)" and ?k = "unat (idx mod 64)"
  have b': "bs_words b' = (bs_words b)[?w := bs_words b ! ?w OR push_bit ?k 1]"
    using assms(1) set_fresh [OF assms(2)] by auto
  have range: "?w < length (bs_words b)"
    using assms(2) by (simp add: is_set_bit split: if_splits)
  show ?thesis
  proof (cases "unat (j div 64) = ?w")
    case False
    then show ?thesis by (auto simp: is_set_bit b')
  next
    case True
    have "bit (bs_words b ! ?w OR push_bit ?k 1) l = (bit (bs_words b ! ?w) l \<or> l = ?k)" if "l < 64" for l
      using index_bound [of idx] that by (auto simp: bit_or_iff push_bit_of_1 bit_exp_iff)
    moreover have "j \<noteq> idx \<Longrightarrow> unat (j mod 64) \<noteq> ?k"
      using same_index [OF True] by blast
    ultimately show ?thesis
      using range True index_bound [of j] by (cases "j = idx") (simp_all add: is_set_bit b')
  qed
qed

lemma set_bits_of:
  "bitset_set b idx = Returned (True, b') \<Longrightarrow> bitset_is_set b idx = Returned False \<Longrightarrow>
     bits_of b' = insert idx (bits_of b)"
  by (auto simp: bits_of_def set_is_set split: if_splits)

lemma new_bits_of: "bitset_new alloc n = Returned b \<Longrightarrow> bits_of b = {} \<and> bs_len b = n \<and> bs_set_count b = 0"
  by (auto simp: bitset_new_def Let_def bits_of_def is_set_bit split: if_splits)

section \<open>Invariant\<close>

definition tx_ok :: "tx_state \<Rightarrow> bool" where
  "tx_ok tx \<longleftrightarrow> keys_sorted (tx_chunks tx) \<and> fst ` set (tx_chunks tx) = bits_of (tx_received tx)
     \<and> bs_len (tx_received tx) = tx_total_chunks tx
     \<and> length (bs_words (tx_received tx)) = (unat (tx_total_chunks tx) + 63) div 64
     \<and> unat (bs_set_count (tx_received tx)) = length (tx_chunks tx)
     \<and> (length (tx_chunks tx) < unat (tx_total_chunks tx) \<or> tx_chunks tx = [] \<and> tx_total_chunks tx = 0)
     \<and> tx_in_flight_bytes tx = sum_list (map (length \<circ> snd) (tx_chunks tx))"

definition ram_of :: "(u32 \<times> tx_state) list \<Rightarrow> nat" where
  "ram_of t = sum_list (map (tx_in_flight_bytes \<circ> snd) t)"

definition deadline :: "assembler \<Rightarrow> u32" where
  "deadline m = sat_mul32 (as_owlt_secs m) mfile_timeout_owlt_mult"

definition assembler_ok :: "assembler \<Rightarrow> bool" where
  "assembler_ok m \<longleftrightarrow> keys_sorted (as_active m)
     \<and> (\<forall>i tx. map_of (as_active m) i = Some tx \<longrightarrow> tx_ok tx \<and> tx_timeout_tai_coarse tx = deadline m)
     \<and> as_total_ram_bytes m = ram_of (as_active m)"

lemma bt_insert_sum:
  "keys_sorted t \<Longrightarrow> sum_list (map (f \<circ> snd) (bt_insert k v t)) + (case map_of t k of None \<Rightarrow> 0 | Some w \<Rightarrow> f w) =
     sum_list (map (f \<circ> snd) t) + (f v :: nat)"
proof (induction k v t rule: bt_insert.induct)
  case (2 k v j w t)
  have "k < j \<Longrightarrow> map_of t k = None"
    using 2 by (force simp: keys_sorted_def map_of_eq_None_iff)
  then show ?case
    using 2 by (auto simp: keys_sorted_def split: option.splits)
qed simp

lemma delete_sum:
  "keys_unique t \<Longrightarrow> sum_list (map (f \<circ> snd) (AList.delete k t)) + (case map_of t k of None \<Rightarrow> 0 | Some w \<Rightarrow> (f w :: nat)) =
     sum_list (map (f \<circ> snd) t)"
proof (induction t)
  case (Cons p t)
  have "fst p = k \<Longrightarrow> map_of t k = None"
    using Cons.prems by (auto simp: keys_unique_def map_of_eq_None_iff)
  then show ?case
    using Cons by (cases p) (auto simp: keys_unique_def AList.delete_eq split: option.splits)
qed (simp add: AList.delete_eq)

lemma remove_tx_ok:
  assumes "assembler_ok m" "map_of (as_active m) i = Some tx"
  shows "assembler_ok (remove_tx m i tx)"
  using assms delete_sum [OF keys_sorted_unique, of "as_active m" tx_in_flight_bytes i]
  by (auto simp: assembler_ok_def remove_tx_def delete_sorted delete_conv' ram_of_def deadline_def
      split: if_splits)

lemma same_paths: "partial_path (remove_tx m i tx) j = partial_path m j" "complete_path (remove_tx m i tx) j = complete_path m j"
  by (simp_all add: partial_path_def complete_path_def remove_tx_def)

lemma abandon_returns:
  assumes "assembler_ok m" "map_of (as_active m) i = Some tx"
  shows "mfile_abandon m s i =
    (case fs_write s (partial_path m i) (chunk_data (tx_chunks tx)) of
       Inl e \<Rightarrow> Returned (Inl (MfileIo e), remove_tx m i tx, s)
     | Inr s' \<Rightarrow> Returned (Inr (Incomplete i (partial_path m i)
         (unat (tx_total_chunks tx) - length (tx_chunks tx))), remove_tx m i tx, s'))"
proof -
  have "unat (bs_set_count (tx_received tx)) = length (tx_chunks tx)" "length (tx_chunks tx) \<le> unat (tx_total_chunks tx)"
  proof -
    have "tx_ok tx" using assms by (simp add: assembler_ok_def)
    then show "unat (bs_set_count (tx_received tx)) = length (tx_chunks tx)" "length (tx_chunks tx) \<le> unat (tx_total_chunks tx)"
      by (auto simp: tx_ok_def)
  qed
  then show ?thesis
    using assms(2) by (simp add: mfile_abandon_def Let_def same_paths split: sum.split)
qed

lemma abandon_ok:
  assumes "assembler_ok m" "mfile_abandon m s i = Returned (res, m', s')"
  shows "assembler_ok m' \<and> as_owlt_secs m' = as_owlt_secs m \<and> as_output_dir m' = as_output_dir m
    \<and> as_max_ram_bytes m' = as_max_ram_bytes m \<and> as_active m' = AList.delete i (as_active m)"
proof (cases "map_of (as_active m) i")
  case None
  then have "AList.delete i (as_active m) = as_active m"
    by (simp add: map_of_eq_None_iff AList.delete_eq filter_id_conv image_iff) fastforce
  then show ?thesis using assms None by (auto simp: mfile_abandon_def)
next
  case (Some tx)
  then have "m' = remove_tx m i tx"
    using assms by (auto simp: abandon_returns split: sum.splits)
  then show ?thesis
    using remove_tx_ok [OF assms(1) Some] by (simp add: remove_tx_def)
qed

lemma delete_bt_insert: "keys_sorted t \<Longrightarrow> AList.delete k (bt_insert k v t) = AList.delete k t"
proof (induction k v t rule: bt_insert.induct)
  case (2 k v j w t)
  then show ?case by (auto simp: keys_sorted_def AList.delete_eq)
qed (simp add: AList.delete_eq)

definition same_setup :: "assembler \<Rightarrow> assembler \<Rightarrow> bool" where
  "same_setup m m' \<longleftrightarrow> as_owlt_secs m' = as_owlt_secs m \<and> as_output_dir m' = as_output_dir m
     \<and> as_max_ram_bytes m' = as_max_ram_bytes m"

lemma same_setup_refl [simp]: "same_setup m m"
  by (simp add: same_setup_def)

lemma same_setup_trans: "same_setup m m' \<Longrightarrow> same_setup m' m'' \<Longrightarrow> same_setup m m''"
  by (simp add: same_setup_def)

text \<open>The transaction after a fresh chunk.\<close>

definition add_chunk :: "bit_set \<Rightarrow> chunk_frame \<Rightarrow> tx_state \<Rightarrow> tx_state" where
  "add_chunk b f tx =
     tx\<lparr>tx_received := b, tx_in_flight_bytes := tx_in_flight_bytes tx + length (cf_payload f),
        tx_chunks := bt_insert (cf_chunk_index f) (cf_payload f) (tx_chunks tx)\<rparr>"

definition put_tx :: "assembler \<Rightarrow> u32 \<Rightarrow> nat \<Rightarrow> tx_state \<Rightarrow> assembler" where
  "put_tx m i n tx =
     m\<lparr>as_total_ram_bytes := as_total_ram_bytes m + n, as_active := bt_insert i tx (as_active m)\<rparr>"

lemma remove_put:
  "assembler_ok m \<Longrightarrow> remove_tx (put_tx m i (length (cf_payload f)) (add_chunk b f tx)) i (add_chunk b f tx) = remove_tx m i tx"
  by (simp add: remove_tx_def put_tx_def add_chunk_def delete_bt_insert assembler_ok_def)

lemma fresh_index:
  assumes "tx_ok tx" "bitset_is_set (tx_received tx) idx = Returned False"
  shows "map_of (tx_chunks tx) idx = None"
  using assms by (auto simp: tx_ok_def bits_of_def map_of_eq_None_iff)

lemma length_bt_insert: "map_of t k = None \<Longrightarrow> length (bt_insert k v t) = Suc (length t)"
  by (induction k v t rule: bt_insert.induct) (auto split: if_splits)

lemma room_left:
  assumes "tx_ok tx" "bitset_is_set (tx_received tx) idx = Returned x"
  shows "length (tx_chunks tx) < unat (tx_total_chunks tx)"
proof (cases "tx_total_chunks tx = 0")
  case True
  then show ?thesis using assms by (simp add: tx_ok_def is_set_bit)
qed (use assms in \<open>simp add: tx_ok_def\<close>)

lemma set_count_Suc:
  assumes "tx_ok tx" "bitset_is_set (tx_received tx) idx = Returned x"
  shows "unat (bs_set_count (tx_received tx) + 1) = Suc (length (tx_chunks tx))"
proof -
  have "Suc (unat (bs_set_count (tx_received tx))) \<le> unat (tx_total_chunks tx)"
    using assms(1) room_left [OF assms] by (simp add: tx_ok_def)
  also have "\<dots> < 2 ^ LENGTH(32)" by (rule unsigned_less)
  finally show ?thesis
    using assms by (simp add: tx_ok_def unat_word_ariths)
qed

lemma add_chunk_facts:
  assumes "tx_ok tx" "bitset_is_set (tx_received tx) (cf_chunk_index f) = Returned False"
    and "bitset_set (tx_received tx) (cf_chunk_index f) = Returned (True, b)"
  shows "bitset_is_full b \<longleftrightarrow> Suc (length (tx_chunks tx)) = unat (tx_total_chunks tx)"
    and "\<not> bitset_is_full b \<Longrightarrow> tx_ok (add_chunk b f tx)"
proof -
  have b: "bs_len b = bs_len (tx_received tx)" "bs_set_count b = bs_set_count (tx_received tx) + 1"
    using assms(3) set_fresh [OF assms(2)] by auto
  have count: "unat (bs_set_count b) = Suc (length (tx_chunks tx))"
    using set_count_Suc [OF assms(1,2)] b by simp
  have words: "length (bs_words b) = length (bs_words (tx_received tx))"
    using assms(3) set_fresh [OF assms(2)] by auto
  have len: "bs_len b = tx_total_chunks tx" using assms(1) b by (simp add: tx_ok_def)
  show full: "bitset_is_full b \<longleftrightarrow> Suc (length (tx_chunks tx)) = unat (tx_total_chunks tx)"
    unfolding bitset_is_full_def len word_unat_eq_iff count by blast
  note none = fresh_index [OF assms(1,2)]
  assume "\<not> bitset_is_full b"
  then have "Suc (length (tx_chunks tx)) < unat (tx_total_chunks tx)"
    using full room_left [OF assms(1,2)] by simp
  moreover have "fst ` set (bt_insert (cf_chunk_index f) (cf_payload f) (tx_chunks tx)) = bits_of b"
    using set_bits_of [OF assms(3,2)] assms(1) bt_insert_keys [of "cf_chunk_index f" "cf_payload f" "tx_chunks tx"]
    by (simp add: tx_ok_def)
  ultimately show "tx_ok (add_chunk b f tx)"
    using assms(1) count len words none bt_insert_sum [of "tx_chunks tx" length "cf_chunk_index f" "cf_payload f"]
    by (simp add: tx_ok_def add_chunk_def bt_insert_sorted length_bt_insert)
qed

lemma put_tx_ok:
  assumes "assembler_ok m" "map_of (as_active m) i = Some tx" "tx_ok (add_chunk b f tx)"
  shows "assembler_ok (put_tx m i (length (cf_payload f)) (add_chunk b f tx))"
  using assms bt_insert_sum [of "as_active m" tx_in_flight_bytes i "add_chunk b f tx"]
  by (auto simp: assembler_ok_def put_tx_def bt_insert_sorted bt_insert_find ram_of_def deadline_def add_chunk_def
      split: if_splits)

lemma finalize_put:
  assumes "assembler_ok m" "map_of (as_active m) i = Some tx" "mx = put_tx m i (length (cf_payload f)) (add_chunk b f tx)"
  shows "mfile_finalize crc32 alloc mx s i =
    (if unat (tx_total_size_bytes tx) > isize_max
       \<or> (unat (tx_total_size_bytes tx) \<noteq> 0 \<and> \<not> alloc (unat (tx_total_size_bytes tx))) then Panicked
     else
       let data = chunk_data (tx_chunks (add_chunk b f tx)) in
       if crc32 data \<noteq> tx_crc32_full_file tx then
         (case fs_write s (partial_path m i) data of
            Inl e \<Rightarrow> Returned (Inl (MfileIo e), remove_tx m i tx, s)
          | Inr s' \<Rightarrow> Returned (Inr (Incomplete i (partial_path m i) 0), remove_tx m i tx, s'))
       else
         (case fs_write s (complete_path m i) data of
            Inl e \<Rightarrow> Returned (Inl (MfileIo e), remove_tx m i tx, s)
          | Inr s' \<Rightarrow> Returned (Inr (Complete i (complete_path m i) (length data)), remove_tx m i tx, s')))"
proof -
  have "map_of (as_active mx) i = Some (add_chunk b f tx)"
    using assms(3) by (simp add: put_tx_def bt_insert_find)
  then show ?thesis
    using remove_put [OF assms(1), of i f b tx] assms(3)
    by (simp add: mfile_finalize_def same_paths Let_def) (simp add: add_chunk_def same_paths split: sum.split)
qed

fun the_returned :: "'a exec \<Rightarrow> 'a" where
  "the_returned (Returned a) = a"
| "the_returned Panicked = undefined"

lemma store_chunk_cases:
  assumes "map_of (as_active m) (cf_transaction_id f) = Some tx"
  shows "store_chunk crc32 alloc m s f =
    (case bitset_is_set (tx_received tx) (cf_chunk_index f) of
       Panicked \<Rightarrow> Panicked
     | Returned True \<Rightarrow> Returned (Inr None,
         (if map_of (tx_chunks tx) (cf_chunk_index f) = Some (cf_payload f)
          then m\<lparr>as_dup_ok_total := as_dup_ok_total m + 1\<rparr>
          else m\<lparr>as_dup_mismatch_total := as_dup_mismatch_total m + 1\<rparr>), s)
     | Returned False \<Rightarrow>
         (let b = snd (the_returned (bitset_set (tx_received tx) (cf_chunk_index f)));
              mx = put_tx m (cf_transaction_id f) (length (cf_payload f)) (add_chunk b f tx) in
          if bitset_is_full b then
            exec_bind (mfile_finalize crc32 alloc mx s (cf_transaction_id f)) (\<lambda>(res, m, s).
              Returned (and_then res (\<lambda>out. Inr (Some out)), m, s))
          else Returned (Inr None, mx, s)))"
  using assms set_fresh [of "tx_received tx" "cf_chunk_index f"]
  by (auto simp: store_chunk_def Let_def put_tx_def add_chunk_def split: exec.split bool.split)

lemma new_tx_ok:
  assumes "new_tx alloc m f = Returned tx"
  shows "tx_ok tx \<and> tx_timeout_tai_coarse tx = deadline m \<and> tx_in_flight_bytes tx = 0
    \<and> tx_total_chunks tx = cf_total_chunks f \<and> tx_total_size_bytes tx = cf_total_size_bytes f
    \<and> tx_crc32_full_file tx = cf_crc32_full_file f \<and> tx_chunks tx = []"
proof -
  obtain b where b: "bitset_new alloc (cf_total_chunks f) = Returned b"
    using assms by (auto simp: new_tx_def exec_bind_Returned_iff)
  moreover have "length (bs_words b) = (unat (cf_total_chunks f) + 63) div 64"
    using b by (auto simp: bitset_new_def Let_def split: if_splits)
  ultimately show ?thesis
    using assms new_bits_of [OF b]
    by (auto simp: new_tx_def tx_ok_def keys_sorted_def deadline_def unat_gt_0)
qed

lemma insert_new_ok:
  assumes "assembler_ok m" "new_tx alloc m f = Returned tx" "map_of (as_active m) i = None"
  shows "assembler_ok (m\<lparr>as_active := bt_insert i tx (as_active m)\<rparr>)"
  using assms(1,3) new_tx_ok [OF assms(2)] bt_insert_sum [of "as_active m" tx_in_flight_bytes i tx]
  by (auto simp: assembler_ok_def bt_insert_sorted bt_insert_find ram_of_def deadline_def split: if_splits)

lemma enforce_cases:
  assumes "assembler_ok m" "enforce_ram_cap m s = Returned (m', s')"
  shows "assembler_ok m' \<and> same_setup m m' \<and> (as_active m' = as_active m \<or> (\<exists>j. as_active m' = AList.delete j (as_active m)))"
  using assms abandon_ok [OF assms(1)]
  by (auto simp: enforce_ram_cap_def exec_bind_Returned_iff same_setup_def split: if_splits option.splits)

definition no_empty_tx :: "assembler \<Rightarrow> bool" where
  "no_empty_tx m \<longleftrightarrow> (\<forall>i tx. map_of (as_active m) i = Some tx \<longrightarrow> tx_total_chunks tx \<noteq> 0)"

lemma upsert_ok:
  assumes "assembler_ok m" "no_empty_tx m" "upsert_tx alloc m s f = Returned (m', s')"
  shows "assembler_ok m' \<and> same_setup m m'
    \<and> (\<forall>i tx. map_of (as_active m') i = Some tx \<longrightarrow> tx_total_chunks tx \<noteq> 0 \<or> i = cf_transaction_id f)"
proof (cases "map_of (as_active m) (cf_transaction_id f)")
  case None
  then obtain tx where tx: "new_tx alloc m f = Returned tx"
    "enforce_ram_cap (m\<lparr>as_active := bt_insert (cf_transaction_id f) tx (as_active m)\<rparr>) s = Returned (m', s')"
    using assms(3) by (auto simp: upsert_tx_def exec_bind_Returned_iff)
  from enforce_cases [OF insert_new_ok [OF assms(1) tx(1) None] tx(2)] show ?thesis
    using assms(2)
    by (auto simp: no_empty_tx_def same_setup_def bt_insert_find delete_conv' split: if_splits)
qed (use assms in \<open>auto simp: upsert_tx_def no_empty_tx_def\<close>)

lemma finalize_result:
  assumes "assembler_ok m" "map_of (as_active m) i = Some tx"
    "mfile_finalize crc32 alloc (put_tx m i (length (cf_payload f)) (add_chunk b f tx)) s i = Returned (res, m', s')"
  shows "m' = remove_tx m i tx"
  using assms(3) unfolding finalize_put [OF assms(1,2) refl]
  by (auto simp: Let_def split: if_splits sum.splits)

lemma store_ok:
  assumes "assembler_ok m"
    "\<forall>i tx. map_of (as_active m) i = Some tx \<longrightarrow> tx_total_chunks tx \<noteq> 0 \<or> i = cf_transaction_id f"
    "store_chunk crc32 alloc m s f = Returned (res, m', s')"
  shows "assembler_ok m' \<and> no_empty_tx m' \<and> same_setup m m'"
proof (cases "map_of (as_active m) (cf_transaction_id f)")
  case None
  then show ?thesis using assms by (auto simp: store_chunk_def no_empty_tx_def)
next
  case (Some tx)
  let ?i = "cf_transaction_id f"
  have tx: "tx_ok tx" using assms(1) Some by (simp add: assembler_ok_def)
  obtain x where x: "bitset_is_set (tx_received tx) (cf_chunk_index f) = Returned x"
    using assms(3) store_chunk_cases [OF Some, of crc32 alloc s] by (auto split: exec.splits)
  have nonzero: "tx_total_chunks tx \<noteq> 0"
    using room_left [OF tx x] by auto
  then have no_empty: "no_empty_tx m"
    using assms(2) Some unfolding no_empty_tx_def by (metis option.inject)
  show ?thesis
  proof (cases x)
    case True
    then show ?thesis
      using assms(1,3) store_chunk_cases [OF Some, of crc32 alloc s] x no_empty
      by (auto simp: assembler_ok_def no_empty_tx_def same_setup_def deadline_def split: if_splits)
  next
    case False
    have fresh: "bitset_is_set (tx_received tx) (cf_chunk_index f) = Returned False"
      using x False by simp
    obtain b where b: "bitset_set (tx_received tx) (cf_chunk_index f) = Returned (True, b)"
      using set_fresh [OF fresh] by blast
    note facts = add_chunk_facts [OF tx fresh b]
    show ?thesis
    proof (cases "bitset_is_full b")
      case True
      then obtain res' where "mfile_finalize crc32 alloc (put_tx m ?i (length (cf_payload f)) (add_chunk b f tx)) s ?i
          = Returned (res', m', s')"
        using assms(3) store_chunk_cases [OF Some, of crc32 alloc s] fresh b
        by (auto simp: exec_bind_Returned_iff)
      from finalize_result [OF assms(1) Some this] show ?thesis
        using remove_tx_ok [OF assms(1) Some] no_empty
        by (auto simp: remove_tx_def same_setup_def no_empty_tx_def delete_conv' split: if_splits)
    next
      case False
      then have m': "m' = put_tx m ?i (length (cf_payload f)) (add_chunk b f tx)"
        using assms(3) store_chunk_cases [OF Some, of crc32 alloc s] fresh b by simp
      show ?thesis
        using put_tx_ok [OF assms(1) Some facts(2) [OF False]] no_empty nonzero m'
        by (auto simp: put_tx_def same_setup_def no_empty_tx_def bt_insert_find add_chunk_def split: if_splits)
    qed
  qed
qed

lemma on_chunk_ok:
  assumes "assembler_ok m" "no_empty_tx m" "on_chunk crc32 alloc m s raw = Returned (res, m', s')"
  shows "assembler_ok m' \<and> no_empty_tx m' \<and> same_setup m m'"
proof (cases "parse_chunk crc32 raw")
  case (Inr f)
  then obtain m1 s1 where "upsert_tx alloc m s f = Returned (m1, s1)"
    "store_chunk crc32 alloc m1 s1 f = Returned (res, m', s')"
    using assms(3) by (auto simp: on_chunk_def exec_bind_Returned_iff)
  then show ?thesis
    using upsert_ok [OF assms(1,2)] store_ok same_setup_trans by metis
qed (use assms in \<open>simp add: on_chunk_def\<close>)

lemma abandon_all_ok:
  assumes "assembler_ok m" "no_empty_tx m"
  shows "\<exists>outs m' s'. abandon_all m s ids = Returned (outs, m', s')
    \<and> assembler_ok m' \<and> no_empty_tx m' \<and> same_setup m m' \<and> as_active m' = fold AList.delete ids (as_active m)"
  using assms
proof (induction ids arbitrary: m s)
  case (Cons i ids)
  obtain res m1 s1 where one: "mfile_abandon m s i = Returned (res, m1, s1)"
  proof (cases "map_of (as_active m) i")
    case (Some tx)
    then show ?thesis
      using that abandon_returns [OF Cons.prems(1) Some, of s] by (auto split: sum.splits)
  qed (use that in \<open>simp add: mfile_abandon_def\<close>)
  then have m1: "assembler_ok m1" "same_setup m m1" "as_active m1 = AList.delete i (as_active m)"
    using abandon_ok [OF Cons.prems(1) one] by (simp_all add: same_setup_def)
  then have "no_empty_tx m1"
    using Cons.prems(2) by (auto simp: no_empty_tx_def delete_conv' split: if_splits)
  with Cons.IH [OF m1(1), of s1] show ?case
    using one m1(2,3) by (auto simp: same_setup_def)
qed simp

text \<open>
  What \<open>poll\<close> does when everything is overdue: the transactions in the order of their ids, each with
  the chunks that arrived written to its partial file and the number of missing chunks in its
  outcome; a transaction whose file cannot be written is closed without an outcome.
\<close>

definition writable :: "assembler \<Rightarrow> fs \<Rightarrow> (u32 \<times> tx_state) list" where
  "writable m s = filter (\<lambda>(i, _). fs_denied s (partial_path m i) = None) (as_active m)"

definition give_up :: "assembler \<Rightarrow> u32 \<times> tx_state \<Rightarrow> assembly_outcome" where
  "give_up m t = (case t of (i, tx) \<Rightarrow>
     Incomplete i (partial_path m i) (unat (tx_total_chunks tx) - length (tx_chunks tx)))"

definition keep_partial :: "assembler \<Rightarrow> u32 \<times> tx_state \<Rightarrow> (string \<Rightarrow> bytes option) \<Rightarrow> string \<Rightarrow> bytes option" where
  "keep_partial m t files = (case t of (i, tx) \<Rightarrow> files(partial_path m i \<mapsto> chunk_data (tx_chunks tx)))"

lemma abandon_everything:
  assumes "assembler_ok m"
  shows "abandon_all m s (map fst (as_active m)) =
    Returned (map (give_up m) (writable m s), m\<lparr>as_active := [], as_total_ram_bytes := 0\<rparr>,
      s\<lparr>fs_files := fold (keep_partial m) (writable m s) (fs_files s)\<rparr>)"
  using assms
proof (induction "as_active m" arbitrary: m s)
  case Nil
  then show ?case by (cases m) (simp add: writable_def assembler_ok_def ram_of_def)
next
  case (Cons t ts)
  obtain i tx where t: "t = (i, tx)" by (cases t)
  have find: "map_of (as_active m) i = Some tx" by (simp add: Cons.hyps(2) [symmetric] t)
  define m1 where "m1 = remove_tx m i tx"
  have "i \<notin> fst ` set ts"
    using keys_sorted_unique [of "as_active m"] Cons.prems
    by (simp add: assembler_ok_def keys_unique_def t flip: Cons.hyps(2))
  then have "AList.delete i ts = ts"
    by (force simp: AList.delete_eq filter_id_conv)
  then have ts: "ts = as_active m1"
    by (simp add: m1_def remove_tx_def t flip: Cons.hyps(2))
  have same: "partial_path m1 = partial_path m" by (simp add: m1_def same_paths fun_eq_iff)
  have eqs: "give_up m1 = give_up m" "keep_partial m1 = keep_partial m"
      "m1\<lparr>as_active := [], as_total_ram_bytes := 0\<rparr> = m\<lparr>as_active := [], as_total_ram_bytes := 0\<rparr>"
    by (simp_all add: give_up_def keep_partial_def same fun_eq_iff) (simp add: m1_def remove_tx_def)
  note IH = Cons.hyps(1) [OF ts remove_tx_ok [OF Cons.prems find, folded m1_def]]
  have ids: "map fst (as_active m) = i # map fst (as_active m1)"
    by (simp add: t ts flip: Cons.hyps(2))
  have w: "writable m s' = (if fs_denied s' (partial_path m i) = None then [(i, tx)] else []) @ writable m1 s'" for s'
    by (simp add: writable_def same t ts flip: Cons.hyps(2))
  show ?case
  proof (cases "fs_denied s (partial_path m i)")
    case None
    have "writable m1 (s\<lparr>fs_files := f\<rparr>) = writable m1 s" for f by (simp add: writable_def)
    then show ?thesis
      using None by (simp add: ids abandon_returns [OF Cons.prems find] fs_write_def IH eqs w flip: m1_def)
        (simp add: give_up_def keep_partial_def)
  next
    case (Some e)
    then show ?thesis
      by (simp add: ids abandon_returns [OF Cons.prems find] fs_write_def IH eqs w flip: m1_def)
  qed
qed

section \<open>Reachable assemblers\<close>

inductive mfile_reach ::
  "(bytes \<Rightarrow> u32) \<Rightarrow> (nat \<Rightarrow> bool) \<Rightarrow> duration \<Rightarrow> string \<Rightarrow> nat \<Rightarrow> assembler \<times> fs \<Rightarrow> bool"
  for crc32 alloc owlt dir mb where
  start: "mfile_reach crc32 alloc owlt dir mb (assembler_new owlt dir mb, s)"
| chunk: "mfile_reach crc32 alloc owlt dir mb (m, s) \<Longrightarrow> on_chunk crc32 alloc m s raw = Returned (res, m', s') \<Longrightarrow>
    mfile_reach crc32 alloc owlt dir mb (m', s')"
| poll: "mfile_reach crc32 alloc owlt dir mb (m, s) \<Longrightarrow> mfile_poll m s now = Returned (outs, m', s') \<Longrightarrow>
    mfile_reach crc32 alloc owlt dir mb (m', s')"
| outside: "mfile_reach crc32 alloc owlt dir mb (m, s) \<Longrightarrow> mfile_reach crc32 alloc owlt dir mb (m, s')"

lemma mfile_reach_ok:
  "mfile_reach crc32 alloc owlt dir mb x \<Longrightarrow>
     assembler_ok (fst x) \<and> no_empty_tx (fst x) \<and> same_setup (assembler_new owlt dir mb) (fst x)"
proof (induction rule: mfile_reach.induct)
  case (start s)
  show ?case by (simp add: assembler_new_def assembler_ok_def no_empty_tx_def keys_sorted_def ram_of_def)
next
  case (chunk m s raw res m' s')
  then show ?case using on_chunk_ok [of m crc32 alloc s raw] same_setup_trans by auto
next
  case (poll m s now outs m' s')
  then show ?case
    using abandon_all_ok [of m s "map fst (filter (\<lambda>(_, tx). coarse now > tx_timeout_tai_coarse tx) (as_active m))"]
      same_setup_trans by (auto simp: mfile_poll_def)
qed simp

section \<open>Assembling a file\<close>

primrec mfile_run ::
  "(bytes \<Rightarrow> u32) \<Rightarrow> (nat \<Rightarrow> bool) \<Rightarrow> assembler \<Rightarrow> fs \<Rightarrow> bytes list \<Rightarrow>
   ((mfile_error + assembly_outcome option) list \<times> assembler \<times> fs) exec" where
  "mfile_run crc32 alloc m s [] = Returned ([], m, s)"
| "mfile_run crc32 alloc m s (raw # raws) =
     exec_bind (on_chunk crc32 alloc m s raw) (\<lambda>(res, m, s).
     exec_bind (mfile_run crc32 alloc m s raws) (\<lambda>(rs, m, s). Returned (res # rs, m, s)))"

text \<open>The contract of a transaction: the first payload of each index, in the order of the indices.\<close>

definition first_wins :: "(u32 \<times> bytes) list \<Rightarrow> chunk_frame \<Rightarrow> (u32 \<times> bytes) list" where
  "first_wins t f =
     (if map_of t (cf_chunk_index f) = None then bt_insert (cf_chunk_index f) (cf_payload f) t else t)"

definition first_payload :: "chunk_frame list \<Rightarrow> u32 \<Rightarrow> bytes" where
  "first_payload fs k = cf_payload (hd (filter (\<lambda>f. cf_chunk_index f = k) fs))"

definition indices :: "chunk_frame list \<Rightarrow> u32 set" where
  "indices fs = cf_chunk_index ` set fs"

lemma first_wins_run:
  "keys_sorted (foldl first_wins [] fs)
   \<and> map_of (foldl first_wins [] fs) k = (if k \<in> indices fs then Some (first_payload fs k) else None)"
proof (induction fs arbitrary: k rule: rev_induct)
  case (snoc f fs)
  have "first_payload (fs @ [f]) k = (if k \<in> indices fs then first_payload fs k else cf_payload f)"
    if "k \<in> indices (fs @ [f])"
    using that by (auto simp: first_payload_def indices_def filter_empty_conv hd_append image_iff)
  then show ?case
    using snoc by (auto simp: first_wins_def bt_insert_sorted bt_insert_find indices_def)
qed (simp add: keys_sorted_def indices_def)

lemma first_wins_length: "length (foldl first_wins [] fs) = card (indices fs)"
proof -
  have "length (foldl first_wins [] fs) = card {k. map_of (foldl first_wins [] fs) k \<noteq> None}"
    using btree_map.size_card [of "foldl first_wins [] fs"] first_wins_run by (metis length_map)
  then show ?thesis by (simp add: first_wins_run)
qed

lemma all_indices:
  assumes "card (indices fs) = unat n" "\<forall>f \<in> set fs. cf_chunk_index f < n"
  shows "indices fs = {..<n}"
proof -
  have fin: "finite {..<n}" by simp
  have "{..<n} = of_nat ` {..<unat n}"
    by (auto simp: word_less_nat_alt unat_of_nat take_bit_nat_eq_self intro!: image_eqI [of _ _ "unat _"])
  then have "card {..<n} \<le> unat n" by (metis card_image_le card_lessThan finite_lessThan)
  moreover have "indices fs \<subseteq> {..<n}" using assms(2) by (auto simp: indices_def)
  ultimately show ?thesis using fin assms(1) card_seteq by metis
qed

lemma sorted_words: "sorted_wrt (<) (map of_nat [0..<unat n] :: u32 list) \<and> set (map of_nat [0..<unat n]) = {..<n}"
  for n :: u32
proof -
  have small: "k < 2 ^ 32" if "k < unat n" for k
  proof -
    have "unat n < 2 ^ LENGTH(32)" by (rule unsigned_less)
    with that show ?thesis by simp
  qed
  have "sorted_wrt (\<lambda>a b. (of_nat a :: u32) < of_nat b) [0..<unat n]"
    using small by (intro sorted_wrt_mono_rel [OF _ sorted_wrt_upt]) (auto simp: of_nat_word_less_iff take_bit_nat_eq_self)
  moreover have "x \<in> of_nat ` {0..<unat n}" if "x < n" for x
    using that by (intro image_eqI [of _ _ "unat x"]) (simp_all add: word_less_nat_alt)
  ultimately show ?thesis
    using small by (auto simp: sorted_wrt_map word_less_nat_alt unat_of_nat take_bit_nat_eq_self)
qed

lemma chunk_data_complete:
  assumes "card (indices fs) = unat n" "\<forall>f \<in> set fs. cf_chunk_index f < n"
  shows "chunk_data (foldl first_wins [] fs) = concat (map (\<lambda>k. first_payload fs (of_nat k)) [0..<unat n])"
proof -
  let ?t = "foldl first_wins [] fs"
  have sorted: "keys_sorted ?t" and find: "\<And>k. map_of ?t k = (if k \<in> indices fs then Some (first_payload fs k) else None)"
    using first_wins_run by auto
  have "set (map fst ?t) = {..<n}"
    using btree_map.keys_set [OF sorted] find all_indices [OF assms] by auto
  then have keys: "map fst ?t = map of_nat [0..<unat n]"
    using sorted sorted_words [of n] by (intro strict_sorted_equal) (auto simp: keys_sorted_def)
  have "map snd ?t = map (\<lambda>k. first_payload fs k) (map fst ?t)"
    using keys_sorted_unique [OF sorted] find
    by (auto simp: keys_unique_def split: if_splits) (metis find map_of_is_SomeI option.inject option.distinct(1))
  then show ?thesis
    unfolding chunk_data_def keys by (simp add: comp_def)
qed

definition tx_holds :: "assembler \<Rightarrow> chunk_frame \<Rightarrow> chunk_frame list \<Rightarrow> bool" where
  "tx_holds m h gs \<longleftrightarrow> assembler_ok m \<and>
     (\<exists>tx. map_of (as_active m) (cf_transaction_id h) = Some tx \<and> tx_chunks tx = foldl first_wins [] gs
        \<and> tx_total_chunks tx = cf_total_chunks h \<and> tx_total_size_bytes tx = cf_total_size_bytes h
        \<and> tx_crc32_full_file tx = cf_crc32_full_file h)"

lemma index_in_range:
  assumes "tx_ok tx" "idx < tx_total_chunks tx"
  shows "bitset_is_set (tx_received tx) idx = Returned (map_of (tx_chunks tx) idx \<noteq> None)"
proof -
  have "unat (idx div 64) = unat idx div 64" by (simp add: unat_div)
  moreover have "unat idx < unat (tx_total_chunks tx)" using assms(2) by (simp add: word_less_nat_alt)
  ultimately have "unat (idx div 64) < length (bs_words (tx_received tx))"
    using assms(1) by (simp add: tx_ok_def)
  then obtain x where x: "bitset_is_set (tx_received tx) idx = Returned x" by (simp add: is_set_bit)
  moreover have "x \<longleftrightarrow> idx \<in> fst ` set (tx_chunks tx)"
    using assms(1) x by (auto simp: tx_ok_def bits_of_def)
  ultimately show ?thesis by (simp add: map_of_eq_None_iff)
qed

lemma store_dup:
  assumes "tx_holds m h gs" "cf_transaction_id f = cf_transaction_id h" "cf_chunk_index f < cf_total_chunks h"
    and dup: "map_of (foldl first_wins [] gs) (cf_chunk_index f) \<noteq> None"
  shows "\<exists>m'. store_chunk crc32 alloc m s f = Returned (Inr None, m', s) \<and> tx_holds m' h (gs @ [f]) \<and> same_setup m m'"
proof -
  obtain tx where tx: "assembler_ok m" "map_of (as_active m) (cf_transaction_id h) = Some tx"
    "tx_chunks tx = foldl first_wins [] gs" "tx_total_chunks tx = cf_total_chunks h"
    "tx_total_size_bytes tx = cf_total_size_bytes h" "tx_crc32_full_file tx = cf_crc32_full_file h"
    using assms(1) by (auto simp: tx_holds_def)
  then have "tx_ok tx" by (simp add: assembler_ok_def)
  then have "bitset_is_set (tx_received tx) (cf_chunk_index f) = Returned True"
    using index_in_range [of tx "cf_chunk_index f"] assms(3) tx(3,4) dup by simp
  moreover have "foldl first_wins [] (gs @ [f]) = foldl first_wins [] gs"
    using dup by (auto simp: first_wins_def)
  ultimately show ?thesis
    using store_chunk_cases [of m f tx crc32 alloc s, unfolded assms(2), OF tx(2)] tx
    by (simp add: tx_holds_def same_setup_def assembler_ok_def deadline_def)
qed

lemma store_new:
  assumes "tx_holds m h gs" "cf_transaction_id f = cf_transaction_id h" "cf_chunk_index f < cf_total_chunks h"
    and none: "map_of (foldl first_wins [] gs) (cf_chunk_index f) = None"
  obtains tx b where "map_of (as_active m) (cf_transaction_id h) = Some tx"
    "bitset_is_set (tx_received tx) (cf_chunk_index f) = Returned False"
    "bitset_set (tx_received tx) (cf_chunk_index f) = Returned (True, b)"
    "tx_chunks (add_chunk b f tx) = foldl first_wins [] (gs @ [f])"
    "bitset_is_full b \<longleftrightarrow> card (indices (gs @ [f])) = unat (cf_total_chunks h)"
    "\<not> bitset_is_full b \<Longrightarrow> tx_ok (add_chunk b f tx)"
    "tx_total_chunks tx = cf_total_chunks h" "tx_total_size_bytes tx = cf_total_size_bytes h"
    "tx_crc32_full_file tx = cf_crc32_full_file h"
proof -
  obtain tx where tx: "assembler_ok m" "map_of (as_active m) (cf_transaction_id h) = Some tx"
    "tx_chunks tx = foldl first_wins [] gs" "tx_total_chunks tx = cf_total_chunks h"
    "tx_total_size_bytes tx = cf_total_size_bytes h" "tx_crc32_full_file tx = cf_crc32_full_file h"
    using assms(1) by (auto simp: tx_holds_def)
  then have ok: "tx_ok tx" by (simp add: assembler_ok_def)
  have fresh: "bitset_is_set (tx_received tx) (cf_chunk_index f) = Returned False"
    using index_in_range [OF ok, of "cf_chunk_index f"] assms(3) tx(3,4) none by simp
  then obtain b where b: "bitset_set (tx_received tx) (cf_chunk_index f) = Returned (True, b)"
    using set_fresh by blast
  note facts = add_chunk_facts [OF ok fresh b]
  have new: "tx_chunks (add_chunk b f tx) = foldl first_wins [] (gs @ [f])"
    using none tx(3) by (simp add: add_chunk_def first_wins_def)
  then have "Suc (length (tx_chunks tx)) = card (indices (gs @ [f]))"
    using first_wins_length [of "gs @ [f]"] none tx(3) by (simp add: first_wins_def length_bt_insert)
  then show thesis
    using that [OF tx(2) fresh b new] facts tx(4-6) by simp
qed

lemma chunk_more:
  assumes "tx_holds m h gs" "cf_transaction_id f = cf_transaction_id h" "cf_chunk_index f < cf_total_chunks h"
    "card (indices (gs @ [f])) < unat (cf_total_chunks h)"
  shows "\<exists>m'. store_chunk crc32 alloc m s f = Returned (Inr None, m', s) \<and> tx_holds m' h (gs @ [f]) \<and> same_setup m m'"
proof (cases "map_of (foldl first_wins [] gs) (cf_chunk_index f)")
  case None
  note ok = assms(1) [unfolded tx_holds_def, THEN conjunct1]
  from store_new [OF assms(1-3) None] obtain tx b where
    tx: "map_of (as_active m) (cf_transaction_id h) = Some tx"
      "bitset_is_set (tx_received tx) (cf_chunk_index f) = Returned False"
      "bitset_set (tx_received tx) (cf_chunk_index f) = Returned (True, b)"
      "tx_chunks (add_chunk b f tx) = foldl first_wins [] (gs @ [f])"
      "\<not> bitset_is_full b" "tx_ok (add_chunk b f tx)" "tx_total_chunks tx = cf_total_chunks h"
      "tx_total_size_bytes tx = cf_total_size_bytes h" "tx_crc32_full_file tx = cf_crc32_full_file h"
    using assms(4) by (metis less_irrefl)
  let ?m = "put_tx m (cf_transaction_id h) (length (cf_payload f)) (add_chunk b f tx)"
  have "store_chunk crc32 alloc m s f = Returned (Inr None, ?m, s)"
    using store_chunk_cases [of m f tx crc32 alloc s, unfolded assms(2), OF tx(1)] tx(2,3,5) by simp
  moreover have "tx_holds ?m h (gs @ [f]) \<and> same_setup m ?m"
    using put_tx_ok [OF ok tx(1,6)] tx(4,7-9)
    by (simp add: tx_holds_def put_tx_def bt_insert_find same_setup_def) (simp add: add_chunk_def)
  ultimately show ?thesis by blast
qed (use store_dup [OF assms(1-3)] in simp)

lemma chunk_last:
  assumes "tx_holds m h gs" "cf_transaction_id f = cf_transaction_id h" "cf_chunk_index f < cf_total_chunks h"
    "card (indices gs) < unat (cf_total_chunks h)" "card (indices (gs @ [f])) = unat (cf_total_chunks h)"
    "fs_denied s = (\<lambda>_. None)" "alloc (unat (cf_total_size_bytes h))" "unat (cf_total_size_bytes h) \<le> isize_max"
    and data: "data = chunk_data (foldl first_wins [] (gs @ [f]))"
    and out: "(path, out) = (if crc32 data = cf_crc32_full_file h
         then (complete_path m (cf_transaction_id h),
               Complete (cf_transaction_id h) (complete_path m (cf_transaction_id h)) (length data))
         else (partial_path m (cf_transaction_id h),
               Incomplete (cf_transaction_id h) (partial_path m (cf_transaction_id h)) 0))"
  shows "\<exists>m'. as_active m' = AList.delete (cf_transaction_id h) (as_active m)
    \<and> store_chunk crc32 alloc m s f = Returned (Inr (Some out), m', s\<lparr>fs_files := (fs_files s)(path \<mapsto> data)\<rparr>)"
proof -
  have "foldl first_wins [] (gs @ [f]) \<noteq> foldl first_wins [] gs"
    using first_wins_length [of gs] first_wins_length [of "gs @ [f]"] assms(4,5) by force
  then have none: "map_of (foldl first_wins [] gs) (cf_chunk_index f) = None"
    by (auto simp: first_wins_def split: if_splits)
  note ok = assms(1) [unfolded tx_holds_def, THEN conjunct1]
  from store_new [OF assms(1-3) none] obtain tx b where
    tx: "map_of (as_active m) (cf_transaction_id h) = Some tx"
      "bitset_is_set (tx_received tx) (cf_chunk_index f) = Returned False"
      "bitset_set (tx_received tx) (cf_chunk_index f) = Returned (True, b)"
      "tx_chunks (add_chunk b f tx) = foldl first_wins [] (gs @ [f])"
      "bitset_is_full b" "tx_total_size_bytes tx = cf_total_size_bytes h"
      "tx_crc32_full_file tx = cf_crc32_full_file h"
    using assms(5) by metis
  have "store_chunk crc32 alloc m s f =
    Returned (Inr (Some out), remove_tx m (cf_transaction_id h) tx, s\<lparr>fs_files := (fs_files s)(path \<mapsto> data)\<rparr>)"
    using store_chunk_cases [of m f tx crc32 alloc s, unfolded assms(2), OF tx(1)] tx(2-7) assms(6-8) data out
      finalize_put [OF ok tx(1) refl, of crc32 alloc f b s]
    by (auto simp: fs_write_def Let_def split: if_splits)
  then show ?thesis by (intro exI [of _ "remove_tx m (cf_transaction_id h) tx"]) (simp add: remove_tx_def)
qed

lemma on_chunk_open:
  "parse_chunk crc32 raw = Inr f \<Longrightarrow> map_of (as_active m) (cf_transaction_id f) \<noteq> None \<Longrightarrow>
     on_chunk crc32 alloc m s raw = store_chunk crc32 alloc m s f"
  by (simp add: on_chunk_def upsert_tx_def)

lemma tx_holds_active: "tx_holds m h gs \<Longrightarrow> map_of (as_active m) (cf_transaction_id h) \<noteq> None"
  by (auto simp: tx_holds_def)

lemma indices_mono: "card (indices xs) \<le> card (indices (xs @ ys))"
  by (intro card_mono) (auto simp: indices_def)

lemma run_more:
  assumes "tx_holds m h gs" "map (parse_chunk crc32) raws = map Inr fs"
    "\<forall>f \<in> set fs. cf_transaction_id f = cf_transaction_id h \<and> cf_chunk_index f < cf_total_chunks h"
    "card (indices (gs @ fs)) < unat (cf_total_chunks h)"
  shows "\<exists>m'. mfile_run crc32 alloc m s raws = Returned (replicate (length fs) (Inr None), m', s)
    \<and> tx_holds m' h (gs @ fs) \<and> same_setup m m'"
  using assms
proof (induction fs arbitrary: m gs raws)
  case (Cons f fs)
  from Cons.prems(2) obtain raw raws' where raws: "raws = raw # raws'" "parse_chunk crc32 raw = Inr f"
    "map (parse_chunk crc32) raws' = map Inr fs" by auto
  have "card (indices (gs @ [f])) < unat (cf_total_chunks h)"
    using Cons.prems(4) indices_mono [of "gs @ [f]" fs] by simp
  moreover have mine: "cf_transaction_id f = cf_transaction_id h" "cf_chunk_index f < cf_total_chunks h"
    using Cons.prems(3) by simp_all
  ultimately obtain m1 where m1: "store_chunk crc32 alloc m s f = Returned (Inr None, m1, s)"
    "tx_holds m1 h (gs @ [f])" "same_setup m m1"
    using chunk_more [OF Cons.prems(1)] by blast
  moreover have "on_chunk crc32 alloc m s raw = store_chunk crc32 alloc m s f"
    using on_chunk_open [OF raws(2)] tx_holds_active [OF Cons.prems(1)] mine by simp
  moreover obtain m2 where "mfile_run crc32 alloc m1 s raws' = Returned (replicate (length fs) (Inr None), m2, s)"
    "tx_holds m2 h ((gs @ [f]) @ fs)" "same_setup m1 m2"
  proof -
    have "\<forall>f \<in> set fs. cf_transaction_id f = cf_transaction_id h \<and> cf_chunk_index f < cf_total_chunks h"
      "card (indices ((gs @ [f]) @ fs)) < unat (cf_total_chunks h)"
      using Cons.prems(3,4) by simp_all
    from Cons.IH [OF m1(2) raws(3) this] show ?thesis using that by blast
  qed
  ultimately show ?case
    using m1(1) raws(1) same_setup_trans [OF m1(3)] by simp
qed simp

lemma mfile_run_append:
  "mfile_run crc32 alloc m s xs = Returned (rs, m', s') \<Longrightarrow>
   on_chunk crc32 alloc m' s' x = Returned (res, m'', s'') \<Longrightarrow>
   mfile_run crc32 alloc m s (xs @ [x]) = Returned (rs @ [res], m'', s'')"
proof (induction xs arbitrary: m s rs)
  case (Cons y ys)
  from Cons.prems(1) obtain r m1 s1 rs1 where y: "on_chunk crc32 alloc m s y = Returned (r, m1, s1)"
    "mfile_run crc32 alloc m1 s1 ys = Returned (rs1, m', s')" "rs = r # rs1"
    by (auto simp: exec_bind_Returned_iff)
  show ?case using Cons.IH [OF y(2) Cons.prems(2)] y by simp
qed simp

lemma mfile_opens:
  assumes "assembler_ok m" "map_of (as_active m) (cf_transaction_id h) = None"
    "as_total_ram_bytes m \<le> as_max_ram_bytes m" "alloc (8 * ((unat (cf_total_chunks h) + 63) div 64))"
    "parse_chunk crc32 raw = Inr h"
  shows "\<exists>m1. tx_holds m1 h [] \<and> same_setup m m1
    \<and> on_chunk crc32 alloc m s raw = on_chunk crc32 alloc m1 s raw
    \<and> (\<forall>tx. map_of (as_active m1) (cf_transaction_id h) = Some tx \<longrightarrow> tx_ok tx \<and> tx_total_chunks tx = cf_total_chunks h)"
proof -
  obtain tx where tx: "new_tx alloc m h = Returned tx"
    using assms(4) by (auto simp: new_tx_def bitset_new_def Let_def)
  let ?m = "m\<lparr>as_active := bt_insert (cf_transaction_id h) tx (as_active m)\<rparr>"
  have up: "upsert_tx alloc m s h = Returned (?m, s)"
    using assms(2,3) tx by (simp add: upsert_tx_def enforce_ram_cap_def)
  have "tx_holds ?m h []"
    using insert_new_ok [OF assms(1) tx assms(2)] new_tx_ok [OF tx] by (simp add: tx_holds_def bt_insert_find)
  moreover have "on_chunk crc32 alloc m s raw = on_chunk crc32 alloc ?m s raw"
    using assms(5) up by (simp add: on_chunk_def upsert_tx_def [of _ ?m] bt_insert_find)
  ultimately show ?thesis
    using new_tx_ok [OF tx] by (intro exI [of _ ?m]) (auto simp: same_setup_def bt_insert_find)
qed

lemma assembles_file:
  assumes "mfile_reach crc32 alloc owlt dir mb (m, s)"
    and parse: "map (parse_chunk crc32) raws = map Inr (gs @ [g])"
    and h: "h = hd (gs @ [g])" "i = cf_transaction_id h" "n = cf_total_chunks h"
    and new: "map_of (as_active m) i = None" "as_total_ram_bytes m \<le> as_max_ram_bytes m"
    and grant: "alloc (8 * ((unat n + 63) div 64))" "alloc (unat (cf_total_size_bytes h))"
      "unat (cf_total_size_bytes h) \<le> isize_max" "fs_denied s = (\<lambda>_. None)"
    and frames: "\<forall>f \<in> set (gs @ [g]). cf_transaction_id f = i \<and> cf_chunk_index f < n"
    and count: "card (indices gs) < unat n" "card (indices (gs @ [g])) = unat n"
    and data: "data = concat (map (\<lambda>k. first_payload (gs @ [g]) (of_nat k)) [0..<unat n])"
    and out: "(path, out) = (if crc32 data = cf_crc32_full_file h
         then (path_join dir (dec_string (unat i) @ ''.bin''),
               Complete i (path_join dir (dec_string (unat i) @ ''.bin'')) (length data))
         else (path_join dir (dec_string (unat i) @ ''.partial''),
               Incomplete i (path_join dir (dec_string (unat i) @ ''.partial'')) 0))"
  shows "\<exists>m'. mfile_run crc32 alloc m s raws =
      Returned (replicate (length gs) (Inr None) @ [Inr (Some out)], m',
        s\<lparr>fs_files := (fs_files s)(path \<mapsto> data)\<rparr>)
    \<and> map_of (as_active m') i = None"
proof -
  have ok: "assembler_ok m" "as_output_dir m = dir"
    using mfile_reach_ok [OF assms(1)] by (simp_all add: same_setup_def assembler_new_def)
  obtain raws' x where raws: "raws = raws' @ [x]" "map (parse_chunk crc32) raws' = map Inr gs"
    "parse_chunk crc32 x = Inr g"
    using parse by (auto simp: map_eq_append_conv)
  obtain raw0 where raw0: "raw0 = hd raws" "parse_chunk crc32 raw0 = Inr h"
    using parse h(1) by (cases raws; cases gs) auto
  obtain m1 where m1: "tx_holds m1 h []" "same_setup m m1"
    "on_chunk crc32 alloc m s raw0 = on_chunk crc32 alloc m1 s raw0"
    using mfile_opens [OF ok(1), of h alloc crc32 raw0 s] new grant(1) raw0(2) h(2,3) by auto
  have first: "mfile_run crc32 alloc m s raws = mfile_run crc32 alloc m1 s raws"
    using m1(3) raw0(1) parse by (cases raws) auto
  have mine: "\<forall>f \<in> set gs. cf_transaction_id f = cf_transaction_id h \<and> cf_chunk_index f < cf_total_chunks h"
    "cf_transaction_id g = cf_transaction_id h" "cf_chunk_index g < cf_total_chunks h"
    using frames unfolding h(2,3) by simp_all
  obtain m2 where m2: "mfile_run crc32 alloc m1 s raws' = Returned (replicate (length gs) (Inr None), m2, s)"
    "tx_holds m2 h gs" "same_setup m1 m2"
    using run_more [OF m1(1) raws(2) mine(1), of alloc s] count(1) [unfolded h(3)] unfolding append_Nil by blast
  have dir: "as_output_dir m2 = dir" using ok(2) m1(2) m2(3) by (simp add: same_setup_def)
  have whole: "chunk_data (foldl first_wins [] (gs @ [g])) = data"
    using chunk_data_complete [OF count(2)] frames data by simp
  have "(path, out) = (if crc32 data = cf_crc32_full_file h
         then (complete_path m2 (cf_transaction_id h),
               Complete (cf_transaction_id h) (complete_path m2 (cf_transaction_id h)) (length data))
         else (partial_path m2 (cf_transaction_id h),
               Incomplete (cf_transaction_id h) (partial_path m2 (cf_transaction_id h)) 0))"
    using out unfolding h(2) complete_path_def partial_path_def dir .
  from chunk_last [where alloc = alloc and ?crc32.0 = crc32, OF m2(2) mine(2,3) count [unfolded h(3)] grant(4,2,3) whole [symmetric] this]
  obtain m3 where m3: "as_active m3 = AList.delete i (as_active m2)"
    "store_chunk crc32 alloc m2 s g = Returned (Inr (Some out), m3, s\<lparr>fs_files := (fs_files s)(path \<mapsto> data)\<rparr>)"
    unfolding h(2) by blast
  have "on_chunk crc32 alloc m2 s x = store_chunk crc32 alloc m2 s g"
    using on_chunk_open [OF raws(3)] tx_holds_active [OF m2(2)] mine(2) by simp
  from mfile_run_append [OF m2(1) this [unfolded m3(2)]]
  have "mfile_run crc32 alloc m s raws = Returned (replicate (length gs) (Inr None) @ [Inr (Some out)], m3,
      s\<lparr>fs_files := (fs_files s)(path \<mapsto> data)\<rparr>)"
    using first raws(1) by simp
  moreover have "map_of (as_active m3) i = None" by (simp add: m3(1) delete_conv')
  ultimately show ?thesis by blast
qed

section \<open>Properties\<close>

text \<open>
  C20: In every reachable state the memory account is exact: the total is the sum of the payload
  bytes held.  Every transaction holds fewer chunks than it expects, its received bits are the
  indices of the chunks it holds, each index once, and its deadline is the one constant ten light
  times, not counted from its start.
\<close>

theorem mfile_reachable_invariant:
  assumes "mfile_reach crc32 alloc owlt dir mb (m, s)"
  shows "distinct (map fst (as_active m))
    \<and> as_total_ram_bytes m = (\<Sum>(i, tx) \<leftarrow> as_active m. length (chunk_data (tx_chunks tx)))
    \<and> (\<forall>(i, tx) \<in> set (as_active m).
         length (tx_chunks tx) < unat (tx_total_chunks tx) \<and> distinct (map fst (tx_chunks tx))
         \<and> bits_of (tx_received tx) = fst ` set (tx_chunks tx)
         \<and> tx_timeout_tai_coarse tx = sat_mul32 (of_nat (as_secs owlt)) 10)"
proof -
  have ok: "assembler_ok m" "no_empty_tx m" "same_setup (assembler_new owlt dir mb) m"
    using mfile_reach_ok [OF assms] by simp_all
  have unique: "keys_unique (as_active m)"
    using ok(1) by (simp add: assembler_ok_def keys_sorted_unique)
  have one: "tx_ok tx \<and> tx_timeout_tai_coarse tx = deadline m \<and> tx_total_chunks tx \<noteq> 0
    \<and> distinct (map fst (tx_chunks tx))"
    if "(i, tx) \<in> set (as_active m)" for i tx
  proof -
    have "map_of (as_active m) i = Some tx" using unique that by (simp add: keys_unique_def)
    then have "tx_ok tx \<and> tx_timeout_tai_coarse tx = deadline m \<and> tx_total_chunks tx \<noteq> 0"
      using ok by (simp add: assembler_ok_def no_empty_tx_def)
    moreover from this have "distinct (map fst (tx_chunks tx))"
      using keys_sorted_unique [of "tx_chunks tx"] by (simp add: tx_ok_def keys_unique_def)
    ultimately show ?thesis by blast
  qed
  have "as_total_ram_bytes m = (\<Sum>(i, tx) \<leftarrow> as_active m. tx_in_flight_bytes tx)"
    using ok(1) by (simp add: assembler_ok_def ram_of_def comp_def case_prod_unfold)
  also have "\<dots> = (\<Sum>(i, tx) \<leftarrow> as_active m. length (chunk_data (tx_chunks tx)))"
    using one by (intro arg_cong [of _ _ sum_list] map_cong refl)
      (auto simp: tx_ok_def chunk_data_def length_concat comp_def)
  finally show ?thesis
    using unique one ok(3)
    by (auto simp: keys_unique_def tx_ok_def deadline_def same_setup_def assembler_new_def mfile_timeout_owlt_mult_def)
qed

text \<open>
  C17: A file is assembled whole.  When the valid chunks of one transaction, in any order and with
  any repetition, first cover all of its indices with the last chunk given, every chunk before it
  reports nothing and it reports the outcome: the first payload of each index, in the order of the
  indices, is written to the \<open>.bin\<close> file when its checksum is the declared one and to the
  \<open>.partial\<close> file otherwise, and the transaction is closed.
\<close>

theorem mfile_assembles_file:
  assumes "mfile_reach crc32 alloc owlt dir mb (m, s)"
    and parse: "map (parse_chunk crc32) raws = map Inr (gs @ [g])"
    and h: "h = hd (gs @ [g])" "i = cf_transaction_id h" "n = cf_total_chunks h"
    and new: "map_of (as_active m) i = None" "as_total_ram_bytes m \<le> as_max_ram_bytes m"
    and grant: "alloc (8 * ((unat n + 63) div 64))" "alloc (unat (cf_total_size_bytes h))"
      "unat (cf_total_size_bytes h) \<le> isize_max" "fs_denied s = (\<lambda>_. None)"
    and frames: "\<forall>f \<in> set (gs @ [g]). cf_transaction_id f = i \<and> cf_chunk_index f < n"
    and count: "card (indices gs) < unat n" "card (indices (gs @ [g])) = unat n"
    and data: "data = concat (map (\<lambda>k. first_payload (gs @ [g]) (of_nat k)) [0..<unat n])"
    and out: "(path, out) = (if crc32 data = cf_crc32_full_file h
         then (path_join dir (dec_string (unat i) @ ''.bin''),
               Complete i (path_join dir (dec_string (unat i) @ ''.bin'')) (length data))
         else (path_join dir (dec_string (unat i) @ ''.partial''),
               Incomplete i (path_join dir (dec_string (unat i) @ ''.partial'')) 0))"
  shows "\<exists>m'. mfile_run crc32 alloc m s raws =
      Returned (replicate (length gs) (Inr None) @ [Inr (Some out)], m',
        s\<lparr>fs_files := (fs_files s)(path \<mapsto> data)\<rparr>)
    \<and> map_of (as_active m') i = None"
  by (rule assembles_file [OF assms])

definition example_chunk :: "u32 \<Rightarrow> u8 \<Rightarrow> bytes" where
  "example_chunk idx b =
     be32 1 @ be64 2 @ be32 2 @ be32 0 @ be32 idx @ be16 1 @ be32 1 @ be32 0 @ [b]"

definition example_frame :: "u32 \<Rightarrow> u8 \<Rightarrow> chunk_frame" where
  "example_frame idx b =
     \<lparr>cf_transaction_id = 1, cf_total_size_bytes = 2, cf_total_chunks = 2, cf_crc32_full_file = 0,
      cf_chunk_index = idx, cf_payload = [b]\<rparr>"

lemma example_parses:
  "map (parse_chunk (\<lambda>_. 0)) [example_chunk 1 8, example_chunk 1 9, example_chunk 0 7] =
     map Inr ([example_frame 1 8, example_frame 1 9] @ [example_frame 0 7])"
  "parse_chunk (\<lambda>_. 0) (example_chunk 64 7) = Inr (example_frame 64 7)"
  by code_simp+

definition empty_disk :: fs where
  "empty_disk = \<lparr>fs_files = Map.empty, fs_denied = \<lambda>_. None\<rparr>"

lemma example_first_chunk:
  "\<exists>m' tx. on_chunk (\<lambda>_. 0) (\<lambda>_. True) (assembler_new 0 ''/rx'' 1) empty_disk (example_chunk 1 8) =
      Returned (Inr None, m', empty_disk) \<and> as_active m' = [(1, tx)] \<and> as_output_dir m' = ''/rx''
    \<and> tx_chunks tx = [(1, [8])] \<and> tx_total_chunks tx = 2 \<and> as_total_ram_bytes m' = 1"
  using example_parses(1)
  by (simp add: on_chunk_def upsert_tx_def new_tx_def example_frame_def assembler_new_def
      enforce_ram_cap_def store_chunk_def isize_max_def sat_mul32_def bitset_new_def bitset_set_def
      bitset_is_set_def get_at_def bitset_is_full_def)

theorem mfile_reachable_invariant_witness:
  "\<exists>m. mfile_reach (\<lambda>_. 0) (\<lambda>_. True) 0 ''/rx'' 1 (m, empty_disk) \<and> map fst (as_active m) = [1]
     \<and> (\<Sum>(i, tx) \<leftarrow> as_active m. length (chunk_data (tx_chunks tx))) = 1"
proof -
  from example_first_chunk
  obtain m tx where m: "on_chunk (\<lambda>_. 0) (\<lambda>_. True) (assembler_new 0 ''/rx'' 1) empty_disk (example_chunk 1 8) =
      Returned (Inr None, m, empty_disk)" "as_active m = [(1, tx)]" "as_total_ram_bytes m = 1"
    by (elim exE conjE)
  have reach: "mfile_reach (\<lambda>_. 0) (\<lambda>_. True) 0 ''/rx'' 1 (m, empty_disk)"
    by (rule mfile_reach.chunk [OF mfile_reach.start m(1)])
  have "as_total_ram_bytes m = (\<Sum>(i, tx) \<leftarrow> as_active m. length (chunk_data (tx_chunks tx)))"
    using mfile_reachable_invariant [OF reach] by blast
  then show ?thesis using m(2,3) reach by auto
qed

theorem mfile_assembles_file_witness:
  "\<exists>m'. mfile_run (\<lambda>_. 0) (\<lambda>_. True) (assembler_new 0 ''/rx'' 1) empty_disk
        [example_chunk 1 8, example_chunk 1 9, example_chunk 0 7] =
      Returned ([Inr None, Inr None, Inr (Some (Complete 1 ''/rx/1.bin'' 2))], m',
        empty_disk\<lparr>fs_files := [''/rx/1.bin'' \<mapsto> [7, 8]]\<rparr>)"
proof -
  have path: "path_join ''/rx'' (dec_string (unat (1 :: u32)) @ ''.bin'') = ''/rx/1.bin''"
    by code_simp
  have "\<exists>m'. mfile_run (\<lambda>_. 0) (\<lambda>_. True) (assembler_new 0 ''/rx'' 1) empty_disk
        [example_chunk 1 8, example_chunk 1 9, example_chunk 0 7] =
      Returned (replicate (length [example_frame 1 8, example_frame 1 9]) (Inr None)
          @ [Inr (Some (Complete 1 ''/rx/1.bin'' 2))], m',
        empty_disk\<lparr>fs_files := (fs_files empty_disk)(''/rx/1.bin'' \<mapsto> [7, 8])\<rparr>)
    \<and> map_of (as_active m') 1 = None"
    by (rule mfile_assembles_file [where dir = "''/rx''" and owlt = 0 and mb = 1 and n = 2
          and h = "example_frame 1 8", OF mfile_reach.start example_parses(1)])
      (simp_all add: example_frame_def assembler_new_def empty_disk_def indices_def first_payload_def
        isize_max_def path [simplified] upt_rec card_insert_if)
  then show ?thesis by (auto simp: empty_disk_def)
qed

text \<open>
  C33: \<open>poll\<close> never panics and is all or nothing.  While the clock reads at most ten light times (in
  seconds) it does nothing.  After that it closes every transaction, however recent: in the order of
  the ids, the chunks that arrived are written, in index order, to the partial file, and the outcome
  carries the path and the number of missing chunks; only a transaction whose partial file cannot be
  written is closed without an outcome.  No memory remains accounted for, and nothing else changes.
\<close>

theorem mfile_poll_all_or_nothing:
  assumes "mfile_reach crc32 alloc owlt dir mb (m, s)"
  shows "mfile_poll m s now =
    (if coarse now > sat_mul32 (of_nat (as_secs owlt)) 10
     then Returned (map (give_up m) (writable m s), m\<lparr>as_active := [], as_total_ram_bytes := 0\<rparr>,
       s\<lparr>fs_files := fold (keep_partial m) (writable m s) (fs_files s)\<rparr>)
     else Returned ([], m, s))"
proof -
  have ok: "assembler_ok m" "deadline m = sat_mul32 (of_nat (as_secs owlt)) 10"
    using mfile_reach_ok [OF assms]
    by (simp_all add: deadline_def same_setup_def assembler_new_def mfile_timeout_owlt_mult_def)
  have "tx_timeout_tai_coarse tx = deadline m" if "(i, tx) \<in> set (as_active m)" for i tx
    using that ok(1) keys_sorted_unique [of "as_active m"] by (simp add: assembler_ok_def keys_unique_def)
  then have "filter (\<lambda>(_, tx). coarse now > tx_timeout_tai_coarse tx) (as_active m) =
      (if coarse now > deadline m then as_active m else [])"
    by (auto simp: filter_id_conv filter_empty_conv)
  then show ?thesis using abandon_everything [OF ok(1)] ok(2) by (simp add: mfile_poll_def)
qed

theorem mfile_poll_all_or_nothing_witness:
  "\<exists>m. mfile_reach (\<lambda>_. 0) (\<lambda>_. True) 0 ''/rx'' 1 (m, empty_disk) \<and> map fst (as_active m) = [1]
     \<and> mfile_poll m empty_disk \<lparr>coarse = 0, fine = 5\<rparr> = Returned ([], m, empty_disk)
     \<and> mfile_poll m empty_disk \<lparr>coarse = 1, fine = 0\<rparr> =
         Returned ([Incomplete 1 ''/rx/1.partial'' 1], m\<lparr>as_active := [], as_total_ram_bytes := 0\<rparr>,
           empty_disk\<lparr>fs_files := [''/rx/1.partial'' \<mapsto> [8]]\<rparr>)"
proof -
  obtain m tx where m: "on_chunk (\<lambda>_. 0) (\<lambda>_. True) (assembler_new 0 ''/rx'' 1) empty_disk (example_chunk 1 8) =
      Returned (Inr None, m, empty_disk)" "as_active m = [(1, tx)]" "as_output_dir m = ''/rx''"
      "tx_chunks tx = [(1, [8])]" "tx_total_chunks tx = 2"
    using example_first_chunk by (elim exE conjE)
  have path: "partial_path m 1 = ''/rx/1.partial''"
    by (simp add: partial_path_def m(3)) code_simp
  have "mfile_reach (\<lambda>_. 0) (\<lambda>_. True) 0 ''/rx'' 1 (m, empty_disk)"
    by (rule mfile_reach.chunk [OF mfile_reach.start m(1)])
  from this mfile_poll_all_or_nothing [OF this, of "\<lparr>coarse = 0, fine = 5\<rparr>"]
    mfile_poll_all_or_nothing [OF this, of "\<lparr>coarse = 1, fine = 0\<rparr>"] m(2)
  show ?thesis
    by (intro exI [of _ m])
      (simp add: sat_mul32_def as_secs_def writable_def give_up_def keep_partial_def path m(4,5) empty_disk_def chunk_data_def)
qed

text \<open>
  C34: A valid chunk whose index lies beyond the bit set of its transaction, in particular every
  chunk that declares a transaction of zero chunks, ends in a panic: the index is never compared
  with the number of chunks.
\<close>

theorem mfile_wild_index_panics:
  assumes "mfile_reach crc32 alloc owlt dir mb (m, s)" "parse_chunk crc32 raw = Inr f"
    and "as_total_ram_bytes m \<le> as_max_ram_bytes m"
    and n: "n = (case map_of (as_active m) (cf_transaction_id f) of
           None \<Rightarrow> cf_total_chunks f | Some tx \<Rightarrow> tx_total_chunks tx)"
    and beyond: "64 * ((unat n + 63) div 64) \<le> unat (cf_chunk_index f)"
  shows "on_chunk crc32 alloc m s raw = Panicked"
proof -
  have panic: "store_chunk crc32 alloc mx s f = Panicked"
    if "map_of (as_active mx) (cf_transaction_id f) = Some tx" "tx_ok tx" "tx_total_chunks tx = n" for mx tx
  proof -
    have "length (bs_words (tx_received tx)) \<le> unat (cf_chunk_index f div 64)"
      using that(2,3) beyond by (simp add: tx_ok_def unat_div)
    then show ?thesis using that(1) by (simp add: store_chunk_def is_set_bit)
  qed
  have ok: "assembler_ok m" using mfile_reach_ok [OF assms(1)] by simp
  show ?thesis
  proof (cases "map_of (as_active m) (cf_transaction_id f)")
    case (Some tx)
    then show ?thesis
      using panic [OF Some] ok n assms(2) by (simp add: on_chunk_open assembler_ok_def)
  next
    case None
    show ?thesis
    proof (cases "new_tx alloc m f")
      case (Returned tx)
      let ?m = "m\<lparr>as_active := bt_insert (cf_transaction_id f) tx (as_active m)\<rparr>"
      have "upsert_tx alloc m s f = Returned (?m, s)"
        using None Returned assms(3) by (simp add: upsert_tx_def enforce_ram_cap_def)
      moreover have "store_chunk crc32 alloc ?m s f = Panicked"
        using panic [of ?m tx] new_tx_ok [OF Returned] n None by (simp add: bt_insert_find)
      ultimately show ?thesis using assms(2) by (simp add: on_chunk_def)
    qed (use None assms(2) in \<open>simp add: on_chunk_def upsert_tx_def\<close>)
  qed
qed

theorem mfile_wild_index_panics_witness:
  "on_chunk (\<lambda>_. 0) (\<lambda>_. True) (assembler_new 0 ''/rx'' 1) empty_disk (example_chunk 64 7) = Panicked"
  by (rule mfile_wild_index_panics [where dir = "''/rx''" and owlt = 0 and mb = 1,
        OF mfile_reach.start example_parses(2) _ refl])
    (simp_all add: assembler_new_def example_frame_def)

end
