(* ===== verification/Ingest_Types.thy ===== *)
theory Ingest_Types
  imports Prelude
begin

text \<open>
  \<open>rust/ground_station/src/ingest/mod.rs\<close>: the channel capacities and the carrier of one
  decoded transfer frame.  \<open>bytes::Bytes\<close> is an immutable byte string, a list here.
\<close>

definition aos_to_demux_cap :: nat where
  "aos_to_demux_cap = 64"

definition demux_to_spp_cap :: nat where
  "demux_to_spp_cap = 128"

definition spp_to_router_cap :: nat where
  "spp_to_router_cap = 128"

definition router_to_hk_cap :: nat where
  "router_to_hk_cap = 256"

definition router_to_event_cap :: nat where
  "router_to_event_cap = 1024"

definition router_to_cfdp_cap :: nat where
  "router_to_cfdp_cap = 256"

definition router_to_rover_cap :: nat where
  "router_to_rover_cap = 256"

record aos_frame =
  af_vc_id :: u8
  af_ocf :: "bytes option"
  af_data :: bytes

text \<open>
  A bounded first-in first-out queue, the documented behaviour of a \<open>tokio::sync::mpsc\<close> channel
  as \<open>try_send\<close> sees it.  The pipeline stages below take \<open>try_send\<close> as an argument; this queue
  is the instance at which their hypotheses are shown to hold.
\<close>

record 'a bqueue =
  bq_cap :: nat
  bq_items :: "'a list"

definition bq_try_send :: "'a bqueue \<Rightarrow> 'a \<Rightarrow> 'a bqueue option" where
  "bq_try_send q x =
     (if length (bq_items q) < bq_cap q then Some (q\<lparr>bq_items := bq_items q @ [x]\<rparr>) else None)"

text \<open>The law of \<open>try_send\<close>: an accepted value is appended, a refused one changes nothing.\<close>

definition fifo_send :: "('ch \<Rightarrow> 'a \<Rightarrow> 'ch option) \<Rightarrow> ('ch \<Rightarrow> 'a list) \<Rightarrow> bool" where
  "fifo_send try_send contents \<longleftrightarrow>
     (\<forall>ch x ch'. try_send ch x = Some ch' \<longrightarrow> contents ch' = contents ch @ [x])"

definition bq_recv :: "'a bqueue \<Rightarrow> ('a \<times> 'a bqueue) option" where
  "bq_recv q = (case bq_items q of [] \<Rightarrow> None | x # xs \<Rightarrow> Some (x, q\<lparr>bq_items := xs\<rparr>))"

text \<open>The law of \<open>recv\<close>: the value received was the oldest one in the queue.\<close>

definition fifo_recv :: "('ch \<Rightarrow> ('a \<times> 'ch) option) \<Rightarrow> ('ch \<Rightarrow> 'a list) \<Rightarrow> bool" where
  "fifo_recv recv contents \<longleftrightarrow>
     (\<forall>ch x ch'. recv ch = Some (x, ch') \<longrightarrow> contents ch = x # contents ch')"

lemma fifo_recv_bqueue: "fifo_recv bq_recv bq_items"
  by (auto simp: fifo_recv_def bq_recv_def split: list.splits)

lemma fifo_recvD:
  "fifo_recv recv contents \<Longrightarrow> recv ch = Some (x, ch') \<Longrightarrow> contents ch = x # contents ch'"
  by (auto simp: fifo_recv_def)

lemma fifo_send_bqueue: "fifo_send bq_try_send bq_items"
  by (auto simp: fifo_send_def bq_try_send_def split: if_splits)

lemma fifo_sendD:
  "fifo_send try_send contents \<Longrightarrow> try_send ch x = Some ch' \<Longrightarrow> contents ch' = contents ch @ [x]"
  by (auto simp: fifo_send_def)

end
