(* ===== verification/Ingest_Framer.thy ===== *)
theory Ingest_Framer
  imports Complex_Main Ingest_Types Rate_Limit
begin

text \<open>
  The AOS transfer-frame receiver, \<open>rust/ground_station/src/ingest/framer.rs\<close>: frame check,
  header field extraction, CLCW publication and the link-state monitor.  The CRC-16 engine of the
  \<open>crc\<close> crate is the argument \<open>crc16\<close>.  Each entry point takes the instant that the code reads
  from the clock; the channel sends, watch updates and log events are returned in order as a
  list of outputs.
\<close>

section \<open>Constants\<close>

definition aos_frame_len :: nat where
  "aos_frame_len = 1024"

definition fecf_payload_len :: nat where
  "fecf_payload_len = aos_frame_len - 2"

definition aos_primary_header_len :: nat where
  "aos_primary_header_len = 6"

definition ocf_len :: nat where
  "ocf_len = 4"

definition ocf_offset :: nat where
  "ocf_offset = aos_frame_len - 2 - ocf_len"

definition data_with_ocf_end :: nat where
  "data_with_ocf_end = ocf_offset"

definition data_without_ocf_end :: nat where
  "data_without_ocf_end = fecf_payload_len"

definition fecf_event_min_interval :: duration where
  "fecf_event_min_interval = from_secs 1"

definition degraded_window :: duration where
  "degraded_window = from_secs 30"

definition los_window :: duration where
  "los_window = from_secs 10"

definition aos_rate_window :: duration where
  "aos_rate_window = from_secs 2"

definition aos_sustain :: duration where
  "aos_sustain = from_secs 5"

text \<open>
  The error rate is an \<open>f64\<close> quotient of two counts, compared with the literal \<open>0.10\<close>.  It is a
  rational number here.  The comparison has the same outcome: the quotient is rounded to nearest
  and so is the literal, rounding is monotone, and two different quotients by a count below
  \<open>2 ^ 40\<close> are further apart than one unit in the last place.
\<close>

definition degraded_error_threshold :: rat where
  "degraded_error_threshold = 1 / 10"

lemmas framer_consts =
  aos_frame_len_def fecf_payload_len_def aos_primary_header_len_def ocf_len_def ocf_offset_def
  data_with_ocf_end_def data_without_ocf_end_def

section \<open>The sliding window\<close>

datatype link_state = Aos | Los | Degraded

type_synonym frame_window = "(instant \<times> bool) list"

definition fw_push :: "frame_window \<Rightarrow> instant \<Rightarrow> bool \<Rightarrow> frame_window" where
  "fw_push w now valid = w @ [(now, valid)]"

fun fw_prune :: "frame_window \<Rightarrow> instant \<Rightarrow> duration \<Rightarrow> frame_window" where
  "fw_prune [] now max_age = []"
| "fw_prune ((t, v) # w) now max_age =
     (if duration_since now t > max_age then fw_prune w now max_age else (t, v) # w)"

definition fw_valid_count_in :: "frame_window \<Rightarrow> instant \<Rightarrow> duration \<Rightarrow> nat" where
  "fw_valid_count_in w now window =
     length (filter (\<lambda>(t, valid). valid \<and> duration_since now t \<le> window) w)"

definition fw_total_in :: "frame_window \<Rightarrow> instant \<Rightarrow> duration \<Rightarrow> nat" where
  "fw_total_in w now window = length (filter (\<lambda>(t, valid). duration_since now t \<le> window) w)"

definition fw_errors_in :: "frame_window \<Rightarrow> instant \<Rightarrow> duration \<Rightarrow> nat" where
  "fw_errors_in w now window =
     length (filter (\<lambda>(t, valid). duration_since now t \<le> window \<and> \<not> valid) w)"

definition fw_error_rate_over :: "frame_window \<Rightarrow> instant \<Rightarrow> duration \<Rightarrow> rat" where
  "fw_error_rate_over w now window =
     (let total = fw_total_in w now window; errors = fw_errors_in w now window in
      if total = 0 then 0 else of_nat errors / of_nat total)"

definition fw_last_valid_age :: "frame_window \<Rightarrow> instant \<Rightarrow> duration option" where
  "fw_last_valid_age w now =
     map_option (\<lambda>(t, _). duration_since now t) (find (\<lambda>(_, valid). valid) (rev w))"

section \<open>The framer\<close>

record aos_framer =
  fr_fecf_errors :: u64
  fr_last_fecf_event :: "instant option"
  fr_link_state :: link_state
  fr_aos_since :: "instant option"
  fr_window :: frame_window

datatype framer_out =
    FecfMismatchEvent u64
  | LinkStateChange link_state link_state
  | PublishLink link_state
  | PublishClcw bytes
  | ForwardFrame aos_frame

datatype framer_error = FramerIo io_error

definition framer_new :: aos_framer where
  "framer_new =
     \<lparr>fr_fecf_errors = 0, fr_last_fecf_event = None, fr_link_state = Los,
      fr_aos_since = None, fr_window = []\<rparr>"

definition maybe_emit_fecf_event :: "aos_framer \<Rightarrow> instant \<Rightarrow> framer_out list \<times> aos_framer" where
  "maybe_emit_fecf_event f now =
     (if rate_gate fecf_event_min_interval (fr_last_fecf_event f) now
      then ([FecfMismatchEvent (fr_fecf_errors f)], f\<lparr>fr_last_fecf_event := Some now\<rparr>)
      else ([], f))"

definition compute_link_state :: "aos_framer \<Rightarrow> instant \<Rightarrow> link_state \<times> aos_framer" where
  "compute_link_state f now =
     (let w = fr_window f in
      if fw_error_rate_over w now degraded_window > degraded_error_threshold
      then (Degraded, f\<lparr>fr_aos_since := None\<rparr>)
      else if (case fw_last_valid_age w now of None \<Rightarrow> True | Some age \<Rightarrow> age \<ge> los_window)
      then (Los, f\<lparr>fr_aos_since := None\<rparr>)
      else if fw_valid_count_in w now aos_rate_window \<ge> 1
      then (let since = (case fr_aos_since f of None \<Rightarrow> now | Some t \<Rightarrow> t);
                f' = f\<lparr>fr_aos_since := Some since\<rparr>
            in if duration_since now since \<ge> aos_sustain then (Aos, f')
               else (fr_link_state f', f'))
      else (fr_link_state f, f\<lparr>fr_aos_since := None\<rparr>))"

definition update_link_state :: "aos_framer \<Rightarrow> instant \<Rightarrow> framer_out list \<times> aos_framer" where
  "update_link_state f now =
     (let f1 = f\<lparr>fr_window := fw_prune (fr_window f) now degraded_window\<rparr>;
          prev = fr_link_state f1;
          (new_state, f2) = compute_link_state f1 now;
          (outs, f3) =
            (if new_state \<noteq> prev
             then ([LinkStateChange prev new_state],
                   (if new_state \<noteq> Aos
                    then f2\<lparr>fr_link_state := new_state, fr_aos_since := None\<rparr>
                    else f2\<lparr>fr_link_state := new_state\<rparr>))
             else ([], f2))
      in (outs @ [PublishLink (fr_link_state f3)], f3))"

definition framer_tick :: "aos_framer \<Rightarrow> instant \<Rightarrow> framer_out list \<times> aos_framer" where
  "framer_tick f now = update_link_state f now"

definition process_frame ::
  "(bytes \<Rightarrow> u16) \<Rightarrow> aos_framer \<Rightarrow> instant \<Rightarrow> bytes \<Rightarrow> framer_out list \<times> aos_framer" where
  "process_frame crc16 f now buf =
     (let computed = crc16 (take fecf_payload_len buf);
          wire_fecf = from_be16 (buf ! fecf_payload_len) (buf ! (fecf_payload_len + 1)) in
      if computed \<noteq> wire_fecf then
        let f1 = f\<lparr>fr_fecf_errors := fr_fecf_errors f + 1,
                   fr_window := fw_push (fr_window f) now False\<rparr>;
            (o1, f2) = maybe_emit_fecf_event f1 now;
            (o2, f3) = update_link_state f2 now
        in (o1 @ o2, f3)
      else
        let vc_id = buf ! 1 AND 0x3F;
            ocf_flag = drop_bit 3 (buf ! 5) AND 0x01;
            (ocf, data_field) =
              (if ocf_flag = 1
               then (Some [buf ! ocf_offset, buf ! (ocf_offset + 1), buf ! (ocf_offset + 2),
                           buf ! (ocf_offset + 3)],
                     take (data_with_ocf_end - aos_primary_header_len)
                       (drop aos_primary_header_len buf))
               else (None,
                     take (data_without_ocf_end - aos_primary_header_len)
                       (drop aos_primary_header_len buf)));
            o1 = (case ocf of None \<Rightarrow> [] | Some clcw \<Rightarrow> [PublishClcw clcw]);
            f1 = f\<lparr>fr_window := fw_push (fr_window f) now True\<rparr>;
            (o2, f2) = update_link_state f1 now
        in (o1 @ o2 @ [ForwardFrame \<lparr>af_vc_id = vc_id, af_ocf = ocf, af_data = data_field\<rparr>], f2))"

text \<open>
  \<open>run\<close>: the reader delivers a finite byte stream and then either the end of the stream or an
  I/O error; \<open>read_exact\<close> fails with \<open>UnexpectedEof\<close> on a short last frame.  The instant of the
  \<open>i\<close>-th frame is \<open>clock i\<close>.
\<close>

datatype stream_end = Eof | ReadFault io_error

function framer_run ::
  "(bytes \<Rightarrow> u16) \<Rightarrow> (nat \<Rightarrow> instant) \<Rightarrow> nat \<Rightarrow> aos_framer \<Rightarrow> bytes \<Rightarrow> stream_end
     \<Rightarrow> framer_out list \<times> aos_framer \<times> (framer_error + unit)" where
  "framer_run crc16 clock i f stream fin =
     (if length stream < aos_frame_len
      then ([], f, (case fin of Eof \<Rightarrow> Inr () | ReadFault e \<Rightarrow> Inl (FramerIo e)))
      else
        let (o1, f1) = process_frame crc16 f (clock i) (take aos_frame_len stream);
            (o2, f2, r) = framer_run crc16 clock (Suc i) f1 (drop aos_frame_len stream) fin
        in (o1 @ o2, f2, r))"
  by pat_completeness auto
termination
  by (relation "measure (\<lambda>(_, _, _, _, stream, _). length stream)") (auto simp: aos_frame_len_def)

declare framer_run.simps [simp del]

section \<open>The link monitor over the whole history\<close>

text \<open>
  The rules of the link monitor as a function of the whole observation history \<open>h\<close>: no window is
  pruned and no rate is computed.  The state is the reported link state and the first observation of
  the present run of observations that satisfied the rate condition.  The rules are those of section
  9.3 of the architecture document for \<open>Los\<close> and \<open>Degraded\<close>; for \<open>Aos\<close> the document asks for a valid
  frame every two seconds for five seconds, and here, as in the code, the rate condition is examined
  only when a frame is observed.
\<close>

type_synonym link_obs = "(instant \<times> bool) list"

definition link_degraded :: "link_obs \<Rightarrow> instant \<Rightarrow> bool" where
  "link_degraded h now \<longleftrightarrow>
     length (filter (\<lambda>(t, _). now - t \<le> degraded_window) h)
       < 10 * length (filter (\<lambda>(t, v). now - t \<le> degraded_window \<and> \<not> v) h)"

definition link_starved :: "link_obs \<Rightarrow> instant \<Rightarrow> bool" where
  "link_starved h now \<longleftrightarrow> \<not> (\<exists>t. (t, True) \<in> set h \<and> now - t < los_window)"

definition link_rate_ok :: "link_obs \<Rightarrow> instant \<Rightarrow> bool" where
  "link_rate_ok h now \<longleftrightarrow> (\<exists>t. (t, True) \<in> set h \<and> now - t \<le> aos_rate_window)"

definition link_decide ::
  "link_obs \<Rightarrow> instant \<Rightarrow> link_state \<times> instant option \<Rightarrow> link_state \<times> instant option" where
  "link_decide h now s =
     (if link_degraded h now then (Degraded, None)
      else if link_starved h now then (Los, None)
      else if link_rate_ok h now then
        let since = (case snd s of None \<Rightarrow> now | Some t \<Rightarrow> t) in
        (if now - since \<ge> aos_sustain then Aos else fst s, Some since)
      else (fst s, None))"

fun link_run :: "link_obs \<Rightarrow> link_state \<times> instant option \<Rightarrow> link_obs \<Rightarrow> link_state \<times> instant option" where
  "link_run h s [] = s"
| "link_run h s (ob # obs) = link_run (h @ [ob]) (link_decide (h @ [ob]) (fst ob) s) obs"

lemma link_decide_eval:
  "link_starved [] now" "\<not> link_rate_ok [] now"
  "link_starved ((t, v) # h) now \<longleftrightarrow> \<not> (v \<and> now - t < los_window) \<and> link_starved h now"
  "link_rate_ok ((t, v) # h) now \<longleftrightarrow> v \<and> now - t \<le> aos_rate_window \<or> link_rate_ok h now"
  by (auto simp: link_starved_def link_rate_ok_def)

lemmas window_consts =
  degraded_window_def los_window_def aos_rate_window_def aos_sustain_def from_secs_def

section \<open>The window against the history\<close>

lemma fw_prune_eq_filter:
  "sorted (map fst w) \<Longrightarrow> fw_prune w now d = filter (\<lambda>(t, _). now - t \<le> d) w"
proof (induction w now d rule: fw_prune.induct)
  case (2 t v w now d)
  show ?case
  proof (cases "d < now - t")
    case False
    then have "filter (\<lambda>(t, _). now - t \<le> d) w = w"
      using 2(2) by (auto intro!: filter_True)
    then show ?thesis using False by (simp add: duration_since_def)
  qed (use 2 in \<open>auto simp: duration_since_def\<close>)
qed simp

lemma last_valid_age_recent:
  "sorted (map fst w) \<Longrightarrow>
    (case fw_last_valid_age w now of None \<Rightarrow> True | Some age \<Rightarrow> age \<ge> d)
      \<longleftrightarrow> \<not> (\<exists>t. (t, True) \<in> set w \<and> now - t < d)"
proof (induction w rule: rev_induct)
  case Nil
  show ?case by (simp add: fw_last_valid_age_def)
next
  case (snoc e w)
  obtain t v where e: "e = (t, v)" by fastforce
  show ?case
  proof (cases v)
    case True
    have "\<And>u b. (u, b) \<in> set w \<Longrightarrow> now - t \<le> now - u"
      using snoc.prems e by (force simp: sorted_append intro: diff_le_mono2)
    then show ?thesis
      using True by (fastforce simp: fw_last_valid_age_def e duration_since_def)
  next
    case False
    then show ?thesis
      using snoc by (auto simp: fw_last_valid_age_def e sorted_append)
  qed
qed

lemma last_valid_age_starved:
  assumes "sorted (map fst w)"
  shows "(case fw_last_valid_age w now of None \<Rightarrow> True | Some age \<Rightarrow> age \<ge> los_window)
    \<longleftrightarrow> link_starved w now"
  unfolding link_starved_def using assms by (rule last_valid_age_recent)

lemma error_rate_exceeds:
  "degraded_error_threshold < fw_error_rate_over w now degraded_window \<longleftrightarrow> link_degraded w now"
proof -
  let ?T = "fw_total_in w now degraded_window" and ?E = "fw_errors_in w now degraded_window"
  have "?E \<le> ?T"
    unfolding fw_errors_in_def fw_total_in_def
    by (induction w) (auto simp: duration_since_def)
  moreover have "link_degraded w now \<longleftrightarrow> ?T < 10 * ?E"
    by (simp add: link_degraded_def fw_errors_in_def fw_total_in_def duration_since_def)
  moreover have "1 / 10 < (of_nat ?E / of_nat ?T :: rat) \<longleftrightarrow> ?T < 10 * ?E" if "0 < ?T"
  proof -
    have "1 / 10 < (of_nat ?E / of_nat ?T :: rat) \<longleftrightarrow> (of_nat ?T :: rat) < of_nat (10 * ?E)"
      using that by (simp add: field_simps)
    then show ?thesis by (simp only: of_nat_less_iff)
  qed
  ultimately show ?thesis
    by (cases "?T = 0") (simp_all add: fw_error_rate_over_def degraded_error_threshold_def Let_def)
qed

lemma valid_count_positive: "Suc 0 \<le> fw_valid_count_in w now aos_rate_window \<longleftrightarrow> link_rate_ok w now"
  by (auto simp: fw_valid_count_in_def link_rate_ok_def duration_since_def Suc_le_eq
      filter_empty_conv)

section \<open>The framer refines the monitor\<close>

definition link_view :: "aos_framer \<Rightarrow> link_state \<times> instant option" where
  "link_view f = (fr_link_state f, fr_aos_since f)"

lemma compute_link_state_frame [simp]:
  "fr_window (snd (compute_link_state f now)) = fr_window f"
  "fr_link_state (snd (compute_link_state f now)) = fr_link_state f"
  "fr_fecf_errors (snd (compute_link_state f now)) = fr_fecf_errors f"
  "fr_last_fecf_event (snd (compute_link_state f now)) = fr_last_fecf_event f"
  by (simp_all add: compute_link_state_def Let_def)

lemma compute_link_state_view:
  assumes "sorted (map fst (fr_window f))"
  shows "(fst (compute_link_state f now), fr_aos_since (snd (compute_link_state f now)))
      = link_decide (fr_window f) now (link_view f)"
  by (simp add: compute_link_state_def Let_def error_rate_exceeds valid_count_positive
      link_decide_def link_view_def duration_since_def last_valid_age_starved [OF assms])

lemma link_decide_not_aos:
  "fst (link_decide h now s) \<noteq> fst s \<Longrightarrow> fst (link_decide h now s) \<noteq> Aos \<Longrightarrow>
     snd (link_decide h now s) = None"
  by (auto simp: link_decide_def Let_def split: if_splits)

lemma update_link_state_frame [simp]:
  "fr_window (snd (update_link_state f now)) = fw_prune (fr_window f) now degraded_window"
  "fr_fecf_errors (snd (update_link_state f now)) = fr_fecf_errors f"
  "fr_last_fecf_event (snd (update_link_state f now)) = fr_last_fecf_event f"
  by (simp_all add: update_link_state_def Let_def split_beta)

lemma update_link_state_view:
  assumes "sorted (map fst (fr_window f))"
  shows "link_view (snd (update_link_state f now)) =
      link_decide (fw_prune (fr_window f) now degraded_window) now (link_view f)"
proof -
  let ?g = "f\<lparr>fr_window := fw_prune (fr_window f) now degraded_window\<rparr>"
  have s: "sorted (map fst (fr_window ?g))"
    using assms by (simp add: fw_prune_eq_filter sorted_filter)
  note c = compute_link_state_view [OF s, of now]
  let ?c = "compute_link_state ?g now"
  have d: "link_decide (fw_prune (fr_window f) now degraded_window) now (link_view f)
      = (fst ?c, fr_aos_since (snd ?c))"
    using c by (simp add: link_view_def)
  have n: "fst ?c \<noteq> fr_link_state f \<Longrightarrow> fst ?c \<noteq> Aos \<Longrightarrow> fr_aos_since (snd ?c) = None"
    using link_decide_not_aos [of "fw_prune (fr_window f) now degraded_window" now "link_view f"]
    unfolding d by (simp add: link_view_def)
  show ?thesis
    unfolding d using n by (simp add: update_link_state_def Let_def split_beta link_view_def)
qed

lemma link_decide_filter:
  "link_decide (filter (\<lambda>(t, _). now - t \<le> degraded_window) h) now s = link_decide h now s"
proof -
  let ?B = "\<lambda>(t, _ :: bool). now - t \<le> degraded_window"
    and ?C = "\<lambda>(t, v). now - t \<le> degraded_window \<and> \<not> v"
  have "filter ?B (filter ?B h) = filter ?B h" by simp
  moreover have "filter ?C (filter ?B h) = filter ?C h"
    unfolding filter_filter by (rule filter_cong) auto
  ultimately have "link_degraded (filter ?B h) now = link_degraded h now"
    by (simp only: link_degraded_def)
  note deg = this
  have imp: "now - t < los_window \<Longrightarrow> now - t \<le> degraded_window"
    "now - t \<le> aos_rate_window \<Longrightarrow> now - t \<le> degraded_window" for t
    by (simp_all add: window_consts)
  have "link_starved (filter (\<lambda>(t, _). now - t \<le> degraded_window) h) now = link_starved h now"
    by (auto simp: link_starved_def dest: imp)
  moreover have "link_rate_ok (filter (\<lambda>(t, _). now - t \<le> degraded_window) h) now = link_rate_ok h now"
    by (auto simp: link_rate_ok_def dest: imp)
  ultimately show ?thesis using deg by (simp only: link_decide_def)
qed

definition frame_valid :: "(bytes \<Rightarrow> u16) \<Rightarrow> bytes \<Rightarrow> bool" where
  "frame_valid crc16 buf \<longleftrightarrow> crc16 (take 1022 buf) = from_be16 (buf ! 1022) (buf ! 1023)"

fun framer_feed :: "(bytes \<Rightarrow> u16) \<Rightarrow> aos_framer \<Rightarrow> (instant \<times> bytes) list \<Rightarrow> aos_framer" where
  "framer_feed crc16 f [] = f"
| "framer_feed crc16 f ((t, buf) # fs) = framer_feed crc16 (snd (process_frame crc16 f t buf)) fs"

definition observed :: "(bytes \<Rightarrow> u16) \<Rightarrow> (instant \<times> bytes) list \<Rightarrow> link_obs" where
  "observed crc16 fs = map (\<lambda>(t, buf). (t, frame_valid crc16 buf)) fs"

lemma emit_event_frame [simp]:
  "fr_window (snd (maybe_emit_fecf_event f now)) = fr_window f"
  "fr_link_state (snd (maybe_emit_fecf_event f now)) = fr_link_state f"
  "fr_aos_since (snd (maybe_emit_fecf_event f now)) = fr_aos_since f"
  "fr_fecf_errors (snd (maybe_emit_fecf_event f now)) = fr_fecf_errors f"
  by (simp_all add: maybe_emit_fecf_event_def)

lemma process_frame_state:
  "snd (process_frame crc16 f now buf) =
     (if frame_valid crc16 buf
      then snd (update_link_state (f\<lparr>fr_window := fw_push (fr_window f) now True\<rparr>) now)
      else snd (update_link_state (snd (maybe_emit_fecf_event
             (f\<lparr>fr_fecf_errors := fr_fecf_errors f + 1,
                fr_window := fw_push (fr_window f) now False\<rparr>) now)) now))"
  by (simp add: process_frame_def frame_valid_def framer_consts Let_def split_beta)

lemma link_view_update [simp]:
  "link_view (f\<lparr>fr_window := w\<rparr>) = link_view f"
  "link_view (f\<lparr>fr_fecf_errors := n\<rparr>) = link_view f"
  "link_view (snd (maybe_emit_fecf_event f now)) = link_view f"
  by (simp_all add: link_view_def)

lemma process_frame_view:
  assumes "sorted (map fst (fr_window f @ [(now, v)]))" and "v = frame_valid crc16 buf"
  shows "link_view (snd (process_frame crc16 f now buf)) =
      link_decide (fw_prune (fr_window f @ [(now, v)]) now degraded_window) now (link_view f)"
    and "fr_window (snd (process_frame crc16 f now buf)) =
      fw_prune (fr_window f @ [(now, v)]) now degraded_window"
  using assms by (simp_all add: process_frame_state update_link_state_view fw_push_def)

definition recent :: "instant \<Rightarrow> link_obs \<Rightarrow> link_obs" where
  "recent now h = filter (\<lambda>(t, _). now - t \<le> degraded_window) h"

lemma recent_snoc:
  assumes "sorted (map fst (h @ [(t, v)]))" "now \<le> t"
  shows "filter (\<lambda>(u, _). t - u \<le> degraded_window) (recent now h @ [(t, v)]) = recent t (h @ [(t, v)])"
proof -
  have "filter (\<lambda>(u, _). t - u \<le> degraded_window) (recent now h)
      = filter (\<lambda>(u, _). t - u \<le> degraded_window) h"
    unfolding recent_def filter_filter using assms(2) by (intro filter_cong) auto
  then show ?thesis by (simp add: recent_def)
qed

lemma framer_feed_refines:
  assumes "sorted (map fst (h @ observed crc16 fs))" "fr_window f = recent now h"
    "\<forall>t\<in>set (map fst fs). now \<le> t"
  shows "link_view (framer_feed crc16 f fs) = link_run h (link_view f) (observed crc16 fs)
    \<and> (fs \<noteq> [] \<longrightarrow> fr_window (framer_feed crc16 f fs) = recent (fst (last fs)) (h @ observed crc16 fs))"
  using assms
proof (induction fs arbitrary: f h now)
  case Nil
  then show ?case by (simp add: observed_def)
next
  case (Cons p fs)
  obtain t buf where p: "p = (t, buf)" by fastforce
  define v where "v = frame_valid crc16 buf"
  define f' where "f' = snd (process_frame crc16 f t buf)"
  have obs: "observed crc16 (p # fs) = (t, v) # observed crc16 fs"
    by (simp add: observed_def p v_def)
  have sh: "sorted (map fst (h @ [(t, v)]))"
    using Cons.prems(1) by (simp add: obs sorted_append)
  have nt: "now \<le> t"
    using Cons.prems(3) by (simp add: p)
  have sw: "sorted (map fst (fr_window f @ [(t, v)]))"
    using sh Cons.prems(2) by (auto simp: recent_def sorted_append sorted_filter)
  have w: "fw_prune (fr_window f @ [(t, v)]) t degraded_window = recent t (h @ [(t, v)])"
    unfolding fw_prune_eq_filter [OF sw] unfolding Cons.prems(2) by (rule recent_snoc [OF sh nt])
  have v1: "link_view f' = link_decide (h @ [(t, v)]) t (link_view f)"
    using process_frame_view(1) [OF sw v_def] link_decide_filter [of t "h @ [(t, v)]"]
    by (simp only: f'_def w recent_def)
  have w1: "fr_window f' = recent t (h @ [(t, v)])"
    using process_frame_view(2) [OF sw v_def] by (simp only: f'_def w)
  have "\<forall>u\<in>set (map fst fs). t \<le> u"
    using Cons.prems(1) unfolding obs by (auto simp: sorted_append observed_def)
  then have "link_view (framer_feed crc16 f' fs) = link_run (h @ [(t, v)]) (link_view f') (observed crc16 fs)
    \<and> (fs \<noteq> [] \<longrightarrow> fr_window (framer_feed crc16 f' fs)
         = recent (fst (last fs)) ((h @ [(t, v)]) @ observed crc16 fs))"
    using Cons.prems(1) by (intro Cons.IH [OF _ w1]) (simp_all add: obs)
  then show ?case
    by (cases fs) (simp_all add: p f'_def [symmetric] obs [unfolded p] v1 w1 observed_def v_def)
qed

section \<open>What the monitor promises\<close>

text \<open>
  The monitor's second component is the start of a run of observations each of which met the
  rate condition with the link neither starved nor degraded.
\<close>

definition link_good :: "link_obs \<Rightarrow> instant \<Rightarrow> bool" where
  "link_good h now \<longleftrightarrow> \<not> link_degraded h now \<and> \<not> link_starved h now \<and> link_rate_ok h now"

fun good_run :: "link_obs \<Rightarrow> link_obs \<Rightarrow> bool" where
  "good_run h [] = True"
| "good_run h (ob # obs) = (link_good (h @ [ob]) (fst ob) \<and> good_run (h @ [ob]) obs)"

lemma good_run_snoc: "good_run h (obs @ [ob]) \<longleftrightarrow> good_run h obs \<and> link_good (h @ obs @ [ob]) (fst ob)"
  by (induction obs arbitrary: h) auto

definition link_inv :: "link_obs \<Rightarrow> link_state \<times> instant option \<Rightarrow> bool" where
  "link_inv h s \<longleftrightarrow> (\<forall>since. snd s = Some since \<longrightarrow>
     (\<exists>h1 ob h2. h = h1 @ ob # h2 \<and> fst ob = since \<and> good_run h1 (ob # h2)))"

lemma link_decide_Some:
  "snd (link_decide h t s) = Some since \<longleftrightarrow>
     link_good h t \<and> since = (case snd s of None \<Rightarrow> t | Some u \<Rightarrow> u)"
  by (auto simp: link_decide_def link_good_def Let_def)

lemma link_inv_step:
  assumes "link_inv h s"
  shows "link_inv (h @ [(t, v)]) (link_decide (h @ [(t, v)]) t s)"
  unfolding link_inv_def
proof (intro allI impI)
  fix since assume "snd (link_decide (h @ [(t, v)]) t s) = Some since"
  then have g: "link_good (h @ [(t, v)]) t"
    and since: "since = (case snd s of None \<Rightarrow> t | Some u \<Rightarrow> u)"
    by (simp_all add: link_decide_Some)
  show "\<exists>h1 ob h2. h @ [(t, v)] = h1 @ ob # h2 \<and> fst ob = since \<and> good_run h1 (ob # h2)"
  proof (cases "snd s")
    case None
    with g since show ?thesis
      by (intro exI [of _ h] exI [of _ "(t, v)"] exI [of _ "[]"]) simp
  next
    case (Some u)
    then obtain h1 ob h2 where "h = h1 @ ob # h2" "fst ob = u" "good_run h1 (ob # h2)"
      using assms by (auto simp: link_inv_def)
    with g since Some show ?thesis
      using good_run_snoc [of h1 "ob # h2" "(t, v)"]
      by (intro exI [of _ h1] exI [of _ ob] exI [of _ "h2 @ [(t, v)]"]) auto
  qed
qed

lemma link_run_snoc:
  "link_run h s (obs @ [ob]) = link_decide (h @ obs @ [ob]) (fst ob) (link_run h s obs)"
  by (induction obs arbitrary: h s) auto

lemma link_inv_run: "link_inv obs (link_run [] (st, None) obs)"
proof (induction obs rule: rev_induct)
  case (snoc ob obs)
  then show ?case
    using link_inv_step [of obs _ "fst ob" "snd ob"] by (simp add: link_run_snoc)
qed (simp add: link_inv_def)

section \<open>What leaves the framer\<close>

definition forwarded :: "framer_out list \<Rightarrow> aos_frame list" where
  "forwarded outs = concat (map (\<lambda>out. case out of ForwardFrame fr \<Rightarrow> [fr] | _ \<Rightarrow> []) outs)"

definition clcws :: "framer_out list \<Rightarrow> bytes list" where
  "clcws outs = concat (map (\<lambda>out. case out of PublishClcw c \<Rightarrow> [c] | _ \<Rightarrow> []) outs)"

definition fecf_events :: "framer_out list \<Rightarrow> u64 list" where
  "fecf_events outs = concat (map (\<lambda>out. case out of FecfMismatchEvent n \<Rightarrow> [n] | _ \<Rightarrow> []) outs)"

definition frame_of :: "bytes \<Rightarrow> aos_frame" where
  "frame_of buf =
     (if bit (buf ! 5) 3
      then \<lparr>af_vc_id = buf ! 1 AND 0x3F, af_ocf = Some (take 4 (drop 1018 buf)),
            af_data = take 1012 (drop 6 buf)\<rparr>
      else \<lparr>af_vc_id = buf ! 1 AND 0x3F, af_ocf = None, af_data = take 1016 (drop 6 buf)\<rparr>)"

lemma outs_append [simp]:
  "forwarded (xs @ ys) = forwarded xs @ forwarded ys"
  "clcws (xs @ ys) = clcws xs @ clcws ys"
  "fecf_events (xs @ ys) = fecf_events xs @ fecf_events ys"
  by (simp_all add: forwarded_def clcws_def fecf_events_def)

lemma outs_simps [simp]:
  "forwarded [] = []" "clcws [] = []" "fecf_events [] = []"
  "forwarded (ForwardFrame fr # outs) = fr # forwarded outs"
  "clcws (PublishClcw c # outs) = c # clcws outs"
  "fecf_events (FecfMismatchEvent n # outs) = n # fecf_events outs"
  "forwarded (PublishClcw c # outs) = forwarded outs"
  "forwarded (PublishLink s # outs) = forwarded outs"
  "forwarded (LinkStateChange s s' # outs) = forwarded outs"
  "forwarded (FecfMismatchEvent n # outs) = forwarded outs"
  "clcws (ForwardFrame fr # outs) = clcws outs"
  "clcws (PublishLink s # outs) = clcws outs"
  "clcws (LinkStateChange s s' # outs) = clcws outs"
  "clcws (FecfMismatchEvent n # outs) = clcws outs"
  "fecf_events (ForwardFrame fr # outs) = fecf_events outs"
  "fecf_events (PublishClcw c # outs) = fecf_events outs"
  "fecf_events (PublishLink s # outs) = fecf_events outs"
  "fecf_events (LinkStateChange s s' # outs) = fecf_events outs"
  by (simp_all add: forwarded_def clcws_def fecf_events_def)

lemma update_outs [simp]:
  "forwarded (fst (update_link_state f now)) = []"
  "clcws (fst (update_link_state f now)) = []"
  "fecf_events (fst (update_link_state f now)) = []"
  by (simp_all add: update_link_state_def Let_def split_beta)

lemma emit_outs [simp]:
  "forwarded (fst (maybe_emit_fecf_event f now)) = []"
  "clcws (fst (maybe_emit_fecf_event f now)) = []"
  by (simp_all add: maybe_emit_fecf_event_def)

lemma ocf_flag_iff: "drop_bit 3 b AND 0x01 = (1 :: u8) \<longleftrightarrow> bit b 3"
  by (simp add: u8_eq_iff bit_simps)

lemma take_4_drop: "n + 4 \<le> length xs \<Longrightarrow> take 4 (drop n xs) = [xs ! n, xs ! (n + 1), xs ! (n + 2), xs ! (n + 3)]"
  by (simp add: numeral_eq_Suc take_Suc_conv_app_nth)

lemma process_frame_outs:
  assumes "length buf = 1024"
  shows "forwarded (fst (process_frame crc16 f now buf)) = (if frame_valid crc16 buf then [frame_of buf] else [])"
    and "clcws (fst (process_frame crc16 f now buf)) =
      (if frame_valid crc16 buf \<and> bit (buf ! 5) 3 then [take 4 (drop 1018 buf)] else [])"
  using assms
  by (simp_all add: process_frame_def frame_valid_def frame_of_def framer_consts Let_def split_beta
      ocf_flag_iff take_4_drop)

lemma process_frame_errors:
  "fr_fecf_errors (snd (process_frame crc16 f now buf)) =
      fr_fecf_errors f + (if frame_valid crc16 buf then 0 else 1)"
  by (simp add: process_frame_state fw_push_def)

section \<open>The frame stream\<close>

function frames_in :: "bytes \<Rightarrow> bytes list" where
  "frames_in s = (if length s < 1024 then [] else take 1024 s # frames_in (drop 1024 s))"
  by pat_completeness auto
termination
  by (relation "measure length") auto

declare frames_in.simps [simp del]

lemma frames_in_length: "buf \<in> set (frames_in s) \<Longrightarrow> length buf = 1024"
  by (induction s rule: frames_in.induct) (subst (asm) (2) frames_in.simps, auto split: if_splits)

lemma frames_in_partition:
  "concat (frames_in s) = take (1024 * length (frames_in s)) s
    \<and> length (frames_in s) = length s div 1024"
proof (induction s rule: frames_in.induct)
  case (1 s)
  show ?case
  proof (cases "length s < 1024")
    case True
    then show ?thesis by (simp add: frames_in.simps [of s])
  next
    case False
    then have "concat (frames_in (drop 1024 s)) = take (1024 * length (frames_in (drop 1024 s))) (drop 1024 s)"
      "length (frames_in (drop 1024 s)) = length (drop 1024 s) div 1024"
      using 1 by simp_all
    with False show ?thesis
      by (simp add: frames_in.simps [of s] take_add [symmetric] le_div_geq)
  qed
qed

lemma frame_of_lossless:
  assumes "length buf = 1024"
  shows "take 6 buf @ af_data (frame_of buf)
      @ (case af_ocf (frame_of buf) of None \<Rightarrow> [] | Some c \<Rightarrow> c) @ drop 1022 buf = buf"
proof -
  have d: "take n (drop m buf) @ drop (n + m) buf = drop m buf" for n m
    by (metis append_take_drop_id drop_drop)
  have "take 1012 (drop 6 buf) @ take 4 (drop 1018 buf) @ drop 1022 buf = drop 6 buf"
    using d [of 4 1018] d [of 1012 6] by simp
  moreover have "take 1016 (drop 6 buf) @ drop 1022 buf = drop 6 buf"
    using d [of 1016 6] by simp
  ultimately show ?thesis by (simp add: frame_of_def)
qed

lemma be16_of_two: "length xs = 2 \<Longrightarrow> be16 (from_be16 (xs ! 0) (xs ! 1)) = xs"
  by (auto simp: length_Suc_conv numeral_2_eq_2)

lemma frame_valid_iff:
  assumes "length buf = 1024"
  shows "frame_valid crc16 buf \<longleftrightarrow> drop 1022 buf = be16 (crc16 (take 1022 buf))"
proof -
  have "be16 (from_be16 (buf ! 1022) (buf ! 1023)) = drop 1022 buf"
    using be16_of_two [of "drop 1022 buf"] assms by simp
  then show ?thesis
    unfolding frame_valid_def by (metis slice_be16_be16 option.inject)
qed

lemma framer_run_outputs:
  "forwarded (fst (framer_run crc16 clock i f stream fin)) =
       map frame_of (filter (frame_valid crc16) (frames_in stream))
   \<and> clcws (fst (framer_run crc16 clock i f stream fin)) =
       map (\<lambda>buf. take 4 (drop 1018 buf))
         (filter (\<lambda>buf. frame_valid crc16 buf \<and> bit (buf ! 5) 3) (frames_in stream))
   \<and> fr_fecf_errors (fst (snd (framer_run crc16 clock i f stream fin))) =
       fr_fecf_errors f + of_nat (length (filter (Not \<circ> frame_valid crc16) (frames_in stream)))
   \<and> snd (snd (framer_run crc16 clock i f stream fin)) =
       (case fin of Eof \<Rightarrow> Inr () | ReadFault e \<Rightarrow> Inl (FramerIo e))"
proof (induction crc16 clock i f stream fin rule: framer_run.induct)
  case (1 crc16 clock i f stream fin)
  show ?case
  proof (cases "length stream < 1024")
    case True
    then show ?thesis
      by (simp add: framer_run.simps [of crc16 clock i] frames_in.simps [of stream] aos_frame_len_def)
  next
    case False
    let ?buf = "take 1024 stream"
    obtain o1 f1 where p: "process_frame crc16 f (clock i) ?buf = (o1, f1)" by fastforce
    have len: "length ?buf = 1024" using False by simp
    note P = process_frame_outs [OF len, of crc16 f "clock i", unfolded p]
      process_frame_errors [of crc16 f "clock i" ?buf, unfolded p]
    note IH = 1 [of "(o1, f1)" o1 f1]
    show ?thesis
      using False IH P
      by (simp add: framer_run.simps [of crc16 clock i f] frames_in.simps [of stream]
          aos_frame_len_def p split_beta Let_def)
  qed
qed

section \<open>Event rate\<close>

text \<open>One received frame, with its arrival time, as a step of a rate limiter.\<close>

definition framer_step :: "(bytes \<Rightarrow> u16) \<Rightarrow> aos_framer \<Rightarrow> instant \<times> bytes \<Rightarrow> aos_framer" where
  "framer_step crc16 f p = snd (process_frame crc16 f (fst p) (snd p))"

definition framer_warns :: "(bytes \<Rightarrow> u16) \<Rightarrow> aos_framer \<Rightarrow> instant \<times> bytes \<Rightarrow> bool" where
  "framer_warns crc16 f p \<longleftrightarrow> fecf_events (fst (process_frame crc16 f (fst p) (snd p))) \<noteq> []"

interpretation fecf: rate_limiter "framer_step crc16" "framer_warns crc16"
  "\<lambda>f p. \<not> frame_valid crc16 (snd p)" fst fr_last_fecf_event fecf_event_min_interval for crc16
proof unfold_locales
  fix f :: aos_framer and p :: "instant \<times> bytes"
  show w: "framer_warns crc16 f p \<longleftrightarrow> \<not> frame_valid crc16 (snd p) \<and>
      rate_gate fecf_event_min_interval (fr_last_fecf_event f) (fst p)"
    by (simp add: framer_warns_def process_frame_def frame_valid_def framer_consts Let_def
        split_beta maybe_emit_fecf_event_def split: option.splits)
  show "fr_last_fecf_event (framer_step crc16 f p) =
      (if framer_warns crc16 f p then Some (fst p) else fr_last_fecf_event f)"
    unfolding w by (simp add: framer_step_def process_frame_state maybe_emit_fecf_event_def)
qed

section \<open>Properties\<close>

text \<open>
  C4: Framing a byte stream.  Whatever the CRC routine, the receiver cuts the stream into
  1024-byte frames, forwards exactly the frames whose check field matches, in order, counts the
  others, publishes the control word of exactly the valid frames that carry one, and returns an
  error only when the reader failed (a short last frame is the end of the stream).
\<close>

theorem framer_run_exact:
  "forwarded (fst (framer_run crc16 clock i f stream fin)) =
       map frame_of (filter (frame_valid crc16) (frames_in stream))
   \<and> clcws (fst (framer_run crc16 clock i f stream fin)) =
       map (\<lambda>buf. take 4 (drop 1018 buf))
         (filter (\<lambda>buf. frame_valid crc16 buf \<and> bit (buf ! 5) 3) (frames_in stream))
   \<and> fr_fecf_errors (fst (snd (framer_run crc16 clock i f stream fin))) =
       fr_fecf_errors f + of_nat (length (filter (Not \<circ> frame_valid crc16) (frames_in stream)))
   \<and> snd (snd (framer_run crc16 clock i f stream fin)) =
       (case fin of Eof \<Rightarrow> Inr () | ReadFault e \<Rightarrow> Inl (FramerIo e))"
  by (rule framer_run_outputs)

text \<open>
  A frame is split without loss: the bytes of a forwarded frame's header, data field, control
  word (when its flag is set) and check field are the received frame, and the virtual channel is
  the low six bits of the second byte.
\<close>

theorem valid_frame_lossless:
  assumes "length buf = 1024" "forwarded (fst (process_frame crc16 f now buf)) = [fr]"
  shows "buf = take 6 buf @ af_data fr @ (case af_ocf fr of None \<Rightarrow> [] | Some c \<Rightarrow> c)
           @ be16 (crc16 (take 1022 buf))
    \<and> (af_ocf fr \<noteq> None \<longleftrightarrow> bit (buf ! 5) 3) \<and> af_vc_id fr = buf ! 1 AND 0x3F"
proof -
  have "frame_valid crc16 buf" "fr = frame_of buf"
    using assms(2) by (simp_all add: process_frame_outs(1) [OF assms(1)] split: if_splits)
  then show ?thesis
    using frame_of_lossless [OF assms(1)] frame_valid_iff [OF assms(1)] by (auto simp: frame_of_def)
qed

definition zero_frame :: bytes where
  "zero_frame = replicate 1024 0"

lemma zero_frame [simp]: "length zero_frame = 1024" "frame_valid (\<lambda>_. 0) zero_frame"
  "zero_frame ! 5 = 0" "zero_frame ! Suc 0 = 0"
  by (simp_all add: zero_frame_def frame_valid_def from_be16_def)

theorem valid_frame_lossless_witness:
  "\<exists>fr. forwarded (fst (process_frame (\<lambda>_. 0) framer_new 0 zero_frame)) = [fr]
     \<and> af_ocf fr = None \<and> af_vc_id fr = 0"
proof -
  have "forwarded (fst (process_frame (\<lambda>_. 0) framer_new 0 zero_frame)) = [frame_of zero_frame]"
    by (simp add: process_frame_outs(1))
  then show ?thesis
    using valid_frame_lossless [of zero_frame "\<lambda>_. 0" framer_new 0 "frame_of zero_frame"]
    by (auto simp del: not_None_eq)
qed

lemma fst_link_view: "fst (link_view f) = fr_link_state f"
  by (simp add: link_view_def)

lemma framer_new_simps [simp]:
  "fr_window framer_new = []" "link_view framer_new = (Los, None)"
  "fr_last_fecf_event framer_new = None" "fr_fecf_errors framer_new = 0"
  by (simp_all add: framer_new_def link_view_def)

lemma framer_feed_new:
  assumes "sorted (map fst fs)"
  shows "link_view (framer_feed crc16 framer_new fs) = link_run [] (Los, None) (observed crc16 fs)
    \<and> (fs \<noteq> [] \<longrightarrow> fr_window (framer_feed crc16 framer_new fs) = recent (fst (last fs)) (observed crc16 fs))"
proof -
  have "map fst (observed crc16 fs) = map fst fs"
    by (auto simp: observed_def)
  with assms show ?thesis
    using framer_feed_refines [of "[]" crc16 fs framer_new 0] by (simp add: recent_def)
qed

lemma two_observations_acquire:
  assumes "from_secs 5 \<le> gap"
  shows "link_run [] (Los, None) [(t, True), (t + gap, True)] = (Aos, Some t)"
  using assms by (auto simp: link_decide_def link_degraded_def link_decide_eval window_consts Let_def)

text \<open>
  C5: The link monitor is a function of the observation history.  For frames that arrive in time
  order, the link state computed from the pruned 30-second window is the state that the rules of
  \<open>link_run\<close> give on the complete history, and the window is exactly the part of the history that is
  at most 30 seconds old.  These rules are weaker than section 9.3 of the architecture document: the
  rate is examined only when a frame is observed, so two valid frames any time of five seconds or
  more apart acquire the link, where the document asks for a valid frame every two seconds between
  them.
\<close>

theorem link_monitor_refines:
  assumes "sorted (map fst fs)" "fs \<noteq> []"
  shows "link_view (framer_feed crc16 framer_new fs) = link_run [] (Los, None) (observed crc16 fs)
    \<and> fr_window (framer_feed crc16 framer_new fs) =
        filter (\<lambda>(t, _). fst (last fs) - t \<le> from_secs 30) (observed crc16 fs)
    \<and> (from_secs 5 \<le> gap \<longrightarrow> fst (link_run [] (Los, None) [(t, True), (t + gap, True)]) = Aos)"
  using framer_feed_new [OF assms(1)] assms(2) two_observations_acquire
  by (simp add: recent_def degraded_window_def)

theorem link_monitor_refines_witness:
  "link_view (framer_feed (\<lambda>_. 0) framer_new [(0, zero_frame), (from_secs 40, zero_frame)]) =
     link_run [] (Los, None) [(0, True), (from_secs 40, True)]
   \<and> fr_window (framer_feed (\<lambda>_. 0) framer_new [(0, zero_frame), (from_secs 40, zero_frame)])
       = [(from_secs 40, True)]
   \<and> fst (link_run [] (Los, None) [(0, True), (0 + from_secs 3600, True)]) = Aos"
  using link_monitor_refines [of "[(0, zero_frame), (from_secs 40, zero_frame)]" "\<lambda>_. 0" "from_secs 3600" 0]
  by (simp add: observed_def from_secs_def del: link_run.simps)

text \<open>
  Acquisition is never declared early.  When a frame moves the link to \<open>Aos\<close>, there is an
  observation at least five seconds before it such that from there on every observed frame left
  the link neither degraded (more than one error in ten over 30 s) nor starved (no valid frame for
  10 s) and met the rate condition (a valid frame within 2 s).
\<close>

theorem aos_entry_sustained:
  assumes "sorted (map fst (fs @ [(t, buf)]))"
    and "fr_link_state (framer_feed crc16 framer_new fs) \<noteq> Aos"
    and "fr_link_state (framer_feed crc16 framer_new (fs @ [(t, buf)])) = Aos"
  shows "\<exists>h1 ob h2. observed crc16 (fs @ [(t, buf)]) = h1 @ ob # h2
    \<and> fst ob + from_secs 5 \<le> t \<and> good_run h1 (ob # h2)"
proof -
  let ?h = "observed crc16 (fs @ [(t, buf)])" and ?s = "link_run [] (Los, None) (observed crc16 fs)"
  have h: "?h = observed crc16 fs @ [(t, frame_valid crc16 buf)]"
    by (simp add: observed_def)
  have prev: "fst ?s \<noteq> Aos"
    using framer_feed_new [of fs crc16] assms(1,2) fst_link_view [of "framer_feed crc16 framer_new fs"]
    by (simp add: sorted_append)
  have now: "fst (link_run [] (Los, None) ?h) = Aos"
    using framer_feed_new [OF assms(1), of crc16] assms(3) fst_link_view by (metis (no_types))
  then obtain since where s: "snd (link_run [] (Los, None) ?h) = Some since" "t - since \<ge> aos_sustain"
    using prev by (auto simp: h link_run_snoc link_decide_def Let_def split: if_splits)
  obtain h1 ob h2 where "?h = h1 @ ob # h2" "fst ob = since" "good_run h1 (ob # h2)"
    using link_inv_run [of ?h Los] s(1) unfolding link_inv_def by blast
  moreover have "since + from_secs 5 \<le> t"
    using s(2) by (simp add: aos_sustain_def from_secs_def)
  ultimately show ?thesis by blast
qed

text \<open>
  Two valid frames any time of five seconds or more apart are enough to enter \<open>Aos\<close>: the rate
  condition is sampled only when a frame arrives, so the silence between the two frames goes
  unnoticed.
\<close>

theorem two_frames_acquire:
  assumes "frame_valid crc16 b1" "frame_valid crc16 b2" "from_secs 5 \<le> gap"
  shows "fr_link_state (framer_feed crc16 framer_new [(t, b1), (t + gap, b2)]) = Aos"
proof -
  have "link_view (framer_feed crc16 framer_new [(t, b1), (t + gap, b2)])
      = link_run [] (Los, None) [(t, True), (t + gap, True)]"
    using framer_feed_new [of "[(t, b1), (t + gap, b2)]" crc16] assms(1,2)
    by (simp add: observed_def)
  also have "\<dots> = (Aos, Some t)" by (rule two_observations_acquire [OF assms(3)])
  finally show ?thesis by (simp add: link_view_def)
qed

theorem two_frames_acquire_witness:
  "fr_link_state (framer_feed (\<lambda>_. 0) framer_new [(0, zero_frame), (0 + from_secs 3600, zero_frame)]) = Aos"
  by (rule two_frames_acquire) (simp_all add: from_secs_def)

theorem aos_entry_sustained_witness:
  "\<exists>h1 ob h2. observed (\<lambda>_. 0) ([(0, zero_frame)] @ [(from_secs 5, zero_frame)]) = h1 @ ob # h2
     \<and> fst ob + from_secs 5 \<le> from_secs 5 \<and> good_run h1 (ob # h2)"
proof (rule aos_entry_sustained)
  have "link_view (framer_feed (\<lambda>_. 0) framer_new [(0, zero_frame)]) = (Los, Some 0)"
    using framer_feed_new [of "[(0, zero_frame)]" "\<lambda>_. 0"]
    by (simp add: observed_def link_decide_def link_degraded_def link_decide_eval window_consts
        Let_def)
  then show "fr_link_state (framer_feed (\<lambda>_. 0) framer_new [(0, zero_frame)]) \<noteq> Aos"
    by (simp add: link_view_def)
  have "link_view (framer_feed (\<lambda>_. 0) framer_new [(0, zero_frame), (from_secs 5, zero_frame)]) = (Aos, Some 0)"
    using framer_feed_new [of "[(0, zero_frame), (from_secs 5, zero_frame)]" "\<lambda>_. 0"]
    by (simp add: observed_def link_decide_def link_degraded_def link_decide_eval window_consts
        Let_def)
  then show "fr_link_state (framer_feed (\<lambda>_. 0) framer_new ([(0, zero_frame)] @ [(from_secs 5, zero_frame)])) = Aos"
    by (simp add: link_view_def)
qed simp

text \<open>
  Corrupt frames are reported at most once a second however many arrive, and never silently
  for longer: over frames in time order any two \<open>AOS-FECF-MISMATCH\<close> events are at least a second
  apart, and a corrupt frame that is not reported follows a report less than a second old.
\<close>

theorem fecf_events_rate_limited:
  assumes "sorted (map fst fs)"
  shows "spaced (from_secs 1) (emission_times (framer_step crc16) (framer_warns crc16) fst f fs)
    \<and> (\<not> frame_valid crc16 buf \<and> \<not> framer_warns crc16 f (now, buf) \<longrightarrow>
        (\<exists>l. fr_last_fecf_event f = Some l \<and> now - l < from_secs 1))"
  using fecf.times_spaced [OF assms, of crc16 f]
    fecf.suppressed_only_recently [of crc16 "(now, buf)" f]
  by (auto simp add: fecf_event_min_interval_def)

theorem fecf_events_rate_limited_witness:
  "spaced (from_secs 1) (emission_times (framer_step (\<lambda>_. 1)) (framer_warns (\<lambda>_. 1)) fst framer_new
      [(0, zero_frame), (5, zero_frame), (from_secs 1, zero_frame)])"
  using fecf_events_rate_limited [of "[(0, zero_frame), (5, zero_frame), (from_secs 1, zero_frame)]"]
  by (simp add: from_secs_def)

end
