(* ===== verification/Ingest_Demux.thy ===== *)
theory Ingest_Demux
  imports Ingest_Types Rate_Limit "HOL-Library.Sublist"
begin

text \<open>
  The virtual channel demultiplexer, \<open>rust/ground_station/src/ingest/demux.rs\<close>.  The channels of
  the \<open>tokio\<close> crate are a type parameter \<open>'ch\<close> with \<open>try_send\<close> as an argument; log events and
  accepted frames are returned as outputs.  The tasks that drain the channels run concurrently:
  the relation \<open>demux_step\<close> interleaves dispatches with receptions, and the order and conservation
  results hold for every interleaving.
\<close>

definition vc_idle :: u8 where
  "vc_idle = 63"

definition demux_bp_interval :: duration where
  "demux_bp_interval = from_secs 1"

record 'ch demux =
  dx_senders :: "u8 \<rightharpoonup> 'ch"
  dx_idle :: "u8 set"
  dx_dropped :: u64
  dx_unknown :: u64
  dx_last_bp :: "instant option"

datatype demux_out =
    Accepted u8 aos_frame
  | DemuxBackpressure u8
  | UnknownVc u8

definition demux_new :: "(u8 \<rightharpoonup> 'ch) \<Rightarrow> 'ch demux" where
  "demux_new senders =
     \<lparr>dx_senders = senders, dx_idle = {vc_idle}, dx_dropped = 0, dx_unknown = 0, dx_last_bp = None\<rparr>"

definition demux_default :: "(nat \<Rightarrow> 'ch) \<Rightarrow> 'ch demux" where
  "demux_default channel =
     demux_new (map_of (map (\<lambda>vc. (vc, channel demux_to_spp_cap)) [0, 1, 2, 3]))"

definition demux_add_idle :: "u8 \<Rightarrow> 'ch demux \<Rightarrow> 'ch demux" where
  "demux_add_idle vc d = d\<lparr>dx_idle := insert vc (dx_idle d)\<rparr>"

definition demux_emit_bp :: "'ch demux \<Rightarrow> instant \<Rightarrow> u8 \<Rightarrow> demux_out list \<times> 'ch demux" where
  "demux_emit_bp d now vc =
     (if rate_gate demux_bp_interval (dx_last_bp d) now
      then ([DemuxBackpressure vc], d\<lparr>dx_last_bp := Some now\<rparr>)
      else ([], d))"

definition demux_dispatch ::
  "('ch \<Rightarrow> aos_frame \<Rightarrow> 'ch option) \<Rightarrow> 'ch demux \<Rightarrow> instant \<Rightarrow> aos_frame \<Rightarrow> demux_out list \<times> 'ch demux" where
  "demux_dispatch try_send d now fr =
     (let vc = af_vc_id fr in
      if vc \<in> dx_idle d then ([], d)
      else case dx_senders d vc of
        Some tx \<Rightarrow> (case try_send tx fr of
            Some tx' \<Rightarrow> ([Accepted vc fr], d\<lparr>dx_senders := (dx_senders d)(vc \<mapsto> tx')\<rparr>)
          | None \<Rightarrow> demux_emit_bp (d\<lparr>dx_dropped := dx_dropped d + 1\<rparr>) now vc)
      | None \<Rightarrow> ([UnknownVc vc], d\<lparr>dx_unknown := dx_unknown d + 1\<rparr>))"

fun demux_run ::
  "('ch \<Rightarrow> aos_frame \<Rightarrow> 'ch option) \<Rightarrow> 'ch demux \<Rightarrow> (instant \<times> aos_frame) list
     \<Rightarrow> demux_out list \<times> 'ch demux" where
  "demux_run try_send d [] = ([], d)"
| "demux_run try_send d ((now, fr) # frs) =
     (let (o1, d1) = demux_dispatch try_send d now fr;
          (o2, d2) = demux_run try_send d1 frs
      in (o1 @ o2, d2))"

section \<open>One dispatch\<close>

text \<open>The four outcomes of a dispatch.\<close>

lemma demux_dispatch_cases:
  obtains (idle) "af_vc_id fr \<in> dx_idle d" "demux_dispatch try_send d now fr = ([], d)"
  | (accepted) tx tx' where "af_vc_id fr \<notin> dx_idle d" "dx_senders d (af_vc_id fr) = Some tx"
      "try_send tx fr = Some tx'"
      "demux_dispatch try_send d now fr = ([Accepted (af_vc_id fr) fr],
         d\<lparr>dx_senders := (dx_senders d)(af_vc_id fr \<mapsto> tx')\<rparr>)"
  | (refused) tx where "af_vc_id fr \<notin> dx_idle d" "dx_senders d (af_vc_id fr) = Some tx"
      "try_send tx fr = None"
      "demux_dispatch try_send d now fr =
         demux_emit_bp (d\<lparr>dx_dropped := dx_dropped d + 1\<rparr>) now (af_vc_id fr)"
  | (unknown) "af_vc_id fr \<notin> dx_idle d" "dx_senders d (af_vc_id fr) = None"
      "demux_dispatch try_send d now fr =
         ([UnknownVc (af_vc_id fr)], d\<lparr>dx_unknown := dx_unknown d + 1\<rparr>)"
  by (cases "af_vc_id fr \<in> dx_idle d"; cases "dx_senders d (af_vc_id fr)";
      cases "try_send (the (dx_senders d (af_vc_id fr))) fr")
    (auto simp: demux_dispatch_def Let_def)

lemma demux_emit_bp_frame [simp]:
  "dx_senders (snd (demux_emit_bp d now vc)) = dx_senders d"
  "dx_idle (snd (demux_emit_bp d now vc)) = dx_idle d"
  "dx_dropped (snd (demux_emit_bp d now vc)) = dx_dropped d"
  "dx_unknown (snd (demux_emit_bp d now vc)) = dx_unknown d"
  by (simp_all add: demux_emit_bp_def)

text \<open>The frames that a list of outputs hands to the channel of \<open>vc\<close>.\<close>

definition accepted_on :: "u8 \<Rightarrow> demux_out list \<Rightarrow> aos_frame list" where
  "accepted_on vc outs =
     concat (map (\<lambda>out. case out of Accepted v fr \<Rightarrow> if v = vc then [fr] else [] | _ \<Rightarrow> []) outs)"

lemma accepted_on_simps [simp]:
  "accepted_on vc [] = []"
  "accepted_on vc (Accepted v fr # outs) = (if v = vc then [fr] else []) @ accepted_on vc outs"
  "accepted_on vc (DemuxBackpressure v # outs) = accepted_on vc outs"
  "accepted_on vc (UnknownVc v # outs) = accepted_on vc outs"
  "accepted_on vc (os @ outs) = accepted_on vc os @ accepted_on vc outs"
  "accepted_on vc (fst (demux_emit_bp d now v)) = []"
  by (simp_all add: accepted_on_def demux_emit_bp_def)

section \<open>Interleaving with the receivers\<close>

datatype demux_event =
    Arrived instant aos_frame "demux_out list"
  | Delivered u8 aos_frame

inductive demux_step ::
  "('ch \<Rightarrow> aos_frame \<Rightarrow> 'ch option) \<Rightarrow> ('ch \<Rightarrow> (aos_frame \<times> 'ch) option)
     \<Rightarrow> 'ch demux \<Rightarrow> demux_event \<Rightarrow> 'ch demux \<Rightarrow> bool"
  for try_send recv
where
  arrive: "demux_dispatch try_send d now fr = (outs, d') \<Longrightarrow>
    demux_step try_send recv d (Arrived now fr outs) d'"
| deliver: "dx_senders d vc = Some ch \<Longrightarrow> recv ch = Some (fr, ch') \<Longrightarrow>
    demux_step try_send recv d (Delivered vc fr) (d\<lparr>dx_senders := (dx_senders d)(vc \<mapsto> ch')\<rparr>)"

inductive_cases demux_stepE: "demux_step try_send recv d e d'"

inductive demux_trace ::
  "('ch \<Rightarrow> aos_frame \<Rightarrow> 'ch option) \<Rightarrow> ('ch \<Rightarrow> (aos_frame \<times> 'ch) option)
     \<Rightarrow> 'ch demux \<Rightarrow> demux_event list \<Rightarrow> 'ch demux \<Rightarrow> bool"
  for try_send recv
where
  start: "demux_trace try_send recv d [] d"
| extend: "demux_trace try_send recv d es d' \<Longrightarrow> demux_step try_send recv d' e d'' \<Longrightarrow>
    demux_trace try_send recv d (es @ [e]) d''"

definition trace_accepted :: "u8 \<Rightarrow> demux_event list \<Rightarrow> aos_frame list" where
  "trace_accepted vc es =
     concat (map (\<lambda>e. case e of Arrived _ _ outs \<Rightarrow> accepted_on vc outs | Delivered _ _ \<Rightarrow> []) es)"

definition trace_delivered :: "u8 \<Rightarrow> demux_event list \<Rightarrow> aos_frame list" where
  "trace_delivered vc es =
     concat (map (\<lambda>e. case e of Arrived _ _ _ \<Rightarrow> [] | Delivered v fr \<Rightarrow> if v = vc then [fr] else []) es)"

definition trace_arrived :: "demux_event list \<Rightarrow> aos_frame list" where
  "trace_arrived es =
     concat (map (\<lambda>e. case e of Arrived _ fr _ \<Rightarrow> [fr] | Delivered _ _ \<Rightarrow> []) es)"

definition queued :: "('ch \<Rightarrow> aos_frame list) \<Rightarrow> 'ch demux \<Rightarrow> u8 \<Rightarrow> aos_frame list" where
  "queued contents d vc = (case dx_senders d vc of None \<Rightarrow> [] | Some ch \<Rightarrow> contents ch)"

lemmas trace_defs = trace_accepted_def trace_delivered_def trace_arrived_def

lemma queued_dispatch:
  assumes "fifo_send try_send contents"
  shows "queued contents (snd (demux_dispatch try_send d now fr)) vc =
    queued contents d vc @ accepted_on vc (fst (demux_dispatch try_send d now fr))"
  by (rule demux_dispatch_cases [of fr d try_send now])
    (auto simp: queued_def fifo_sendD [OF assms])

lemma trace_fifo:
  assumes "demux_trace try_send recv d es d'"
    and "fifo_send try_send contents" "fifo_recv recv contents"
  shows "queued contents d vc @ trace_accepted vc es = trace_delivered vc es @ queued contents d' vc"
  using assms(1)
proof (induction rule: demux_trace.induct)
  case (extend d es d' e d'')
  from extend(2) show ?case
  proof (cases rule: demux_step.cases)
    case (arrive now fr outs)
    then show ?thesis
      using extend.IH queued_dispatch [OF assms(2), of d' now fr vc] by (simp add: trace_defs)
  next
    case (deliver v ch fr ch')
    then show ?thesis
      using extend.IH fifo_recvD [OF assms(3)] by (auto simp: trace_defs queued_def)
  qed
qed (simp add: trace_defs)

section \<open>Accounting\<close>

definition accepted_count :: "demux_out list \<Rightarrow> nat" where
  "accepted_count outs = length (filter (\<lambda>out. case out of Accepted _ _ \<Rightarrow> True | _ \<Rightarrow> False) outs)"

definition unknown_count :: "demux_out list \<Rightarrow> nat" where
  "unknown_count outs = length (filter (\<lambda>out. case out of UnknownVc _ \<Rightarrow> True | _ \<Rightarrow> False) outs)"

definition event_outs :: "demux_event \<Rightarrow> demux_out list" where
  "event_outs e = (case e of Arrived _ _ outs \<Rightarrow> outs | Delivered _ _ \<Rightarrow> [])"

definition trace_outs :: "demux_event list \<Rightarrow> demux_out list" where
  "trace_outs es = concat (map event_outs es)"

lemma dispatch_accounts:
  "\<exists>n. dx_idle (snd (demux_dispatch try_send d now fr)) = dx_idle d
    \<and> dx_dropped (snd (demux_dispatch try_send d now fr)) = dx_dropped d + of_nat n
    \<and> dx_unknown (snd (demux_dispatch try_send d now fr)) =
        dx_unknown d + of_nat (unknown_count (fst (demux_dispatch try_send d now fr)))
    \<and> (if af_vc_id fr \<in> dx_idle d then 0 else 1) =
        accepted_count (fst (demux_dispatch try_send d now fr)) + n
        + unknown_count (fst (demux_dispatch try_send d now fr))"
  (is "\<exists>n. ?P n")
proof (cases rule: demux_dispatch_cases [of fr d try_send now])
  case refused
  then have "?P 1" by (simp add: demux_emit_bp_def accepted_count_def unknown_count_def)
  then show ?thesis ..
next
  case idle
  then have "?P 0" by (simp add: accepted_count_def unknown_count_def)
  then show ?thesis ..
next
  case accepted
  then have "?P 0" by (simp add: accepted_count_def unknown_count_def)
  then show ?thesis ..
next
  case unknown
  then have "?P 0" by (simp add: accepted_count_def unknown_count_def)
  then show ?thesis ..
qed

lemma count_append [simp]:
  "accepted_count (xs @ ys) = accepted_count xs + accepted_count ys"
  "unknown_count (xs @ ys) = unknown_count xs + unknown_count ys"
  "accepted_count [] = 0" "unknown_count [] = 0"
  by (simp_all add: accepted_count_def unknown_count_def)

lemma trace_outs_simps [simp]:
  "trace_outs [] = []" "trace_outs (es @ [e]) = trace_outs es @ event_outs e"
  "event_outs (Arrived now fr outs) = outs" "event_outs (Delivered vc fr) = []"
  by (simp_all add: trace_outs_def event_outs_def)

lemma trace_arrived_simps [simp]:
  "trace_arrived [] = []"
  "trace_arrived (es @ [Arrived now fr outs]) = trace_arrived es @ [fr]"
  "trace_arrived (es @ [Delivered vc fr]) = trace_arrived es"
  by (simp_all add: trace_arrived_def)

lemma trace_accounts:
  assumes "demux_trace try_send recv d es d'"
  shows "\<exists>n. dx_idle d' = dx_idle d
    \<and> dx_dropped d' = dx_dropped d + of_nat n
    \<and> dx_unknown d' = dx_unknown d + of_nat (unknown_count (trace_outs es))
    \<and> length (filter (\<lambda>fr. af_vc_id fr \<notin> dx_idle d) (trace_arrived es)) =
        accepted_count (trace_outs es) + n + unknown_count (trace_outs es)"
  using assms
proof (induction rule: demux_trace.induct)
  case (extend d es d' e d'')
  then obtain n where IH: "dx_idle d' = dx_idle d" "dx_dropped d' = dx_dropped d + of_nat n"
    "dx_unknown d' = dx_unknown d + of_nat (unknown_count (trace_outs es))"
    "length (filter (\<lambda>fr. af_vc_id fr \<notin> dx_idle d) (trace_arrived es)) =
        accepted_count (trace_outs es) + n + unknown_count (trace_outs es)"
    by auto
  from extend(2) show ?case
  proof (cases rule: demux_step.cases)
    case (arrive now fr outs)
    obtain k where k: "dx_idle d'' = dx_idle d'" "dx_dropped d'' = dx_dropped d' + of_nat k"
      "dx_unknown d'' = dx_unknown d' + of_nat (unknown_count outs)"
      "(if af_vc_id fr \<in> dx_idle d' then 0 else 1) = accepted_count outs + k + unknown_count outs"
      using dispatch_accounts [of try_send d' now fr] arrive(2) by auto
    show ?thesis
      using IH k by (intro exI [of _ "n + k"]) (simp add: arrive(1) split: if_splits)
  next
    case (deliver vc ch fr ch')
    then show ?thesis using IH by auto
  qed
qed simp

lemma accepted_on_dispatch:
  "accepted_on vc (fst (demux_dispatch try_send d now fr)) = []
   \<or> accepted_on vc (fst (demux_dispatch try_send d now fr)) = [fr] \<and> af_vc_id fr = vc"
  by (rule demux_dispatch_cases [of fr d try_send now]) auto

lemma trace_accepted_subseq:
  assumes "demux_trace try_send recv d es d'"
  shows "subseq (trace_accepted vc es) (filter (\<lambda>fr. af_vc_id fr = vc) (trace_arrived es))"
  using assms
proof (induction rule: demux_trace.induct)
  case (extend d es d' e d'')
  from extend(2) show ?case
  proof (cases rule: demux_step.cases)
    case (arrive now fr outs)
    have "accepted_on vc outs = [] \<or> accepted_on vc outs = [fr] \<and> af_vc_id fr = vc"
      using accepted_on_dispatch [of vc try_send d' now fr] arrive(2) by simp
    then show ?thesis
      using extend.IH by (auto simp: trace_defs arrive(1) intro: list_emb_append_mono subseq_append')
  next
    case (deliver v ch fr ch')
    then show ?thesis using extend.IH by (simp add: trace_defs)
  qed
qed (simp add: trace_defs)

text \<open>The code's receive loop is the trace in which only frames arrive.\<close>

lemma demux_run_trace:
  "demux_trace try_send recv d0 es0 d \<Longrightarrow>
    \<exists>es. demux_trace try_send recv d0 (es0 @ es) (snd (demux_run try_send d frs))
      \<and> trace_outs es = fst (demux_run try_send d frs) \<and> trace_arrived es = map snd frs"
proof (induction try_send d frs arbitrary: es0 rule: demux_run.induct)
  case (1 try_send d)
  then show ?case by (intro exI [of _ "[]"]) simp
next
  case (2 try_send d now fr frs)
  obtain o1 d1 where p: "demux_dispatch try_send d now fr = (o1, d1)" by fastforce
  have "demux_trace try_send recv d0 (es0 @ [Arrived now fr o1]) d1"
    using 2(2) p by (intro demux_trace.extend [of _ _ _ _ d]) (auto intro: demux_step.arrive)
  then obtain es where es:
    "demux_trace try_send recv d0 ((es0 @ [Arrived now fr o1]) @ es) (snd (demux_run try_send d1 frs))"
    "trace_outs es = fst (demux_run try_send d1 frs)" "trace_arrived es = map snd frs"
    using 2(1) [OF p [symmetric] refl] by blast
  then show ?case
    by (intro exI [of _ "Arrived now fr o1 # es"])
      (simp add: p split_beta trace_outs_def trace_arrived_def event_outs_def)
qed

section \<open>Backpressure events\<close>

definition dispatch_step ::
  "('ch \<Rightarrow> aos_frame \<Rightarrow> 'ch option) \<Rightarrow> 'ch demux \<Rightarrow> instant \<times> aos_frame \<Rightarrow> 'ch demux" where
  "dispatch_step try_send d p = snd (demux_dispatch try_send d (fst p) (snd p))"

definition dispatch_warns ::
  "('ch \<Rightarrow> aos_frame \<Rightarrow> 'ch option) \<Rightarrow> 'ch demux \<Rightarrow> instant \<times> aos_frame \<Rightarrow> bool" where
  "dispatch_warns try_send d p \<longleftrightarrow>
     DemuxBackpressure (af_vc_id (snd p)) \<in> set (fst (demux_dispatch try_send d (fst p) (snd p)))"

definition dispatch_drops ::
  "('ch \<Rightarrow> aos_frame \<Rightarrow> 'ch option) \<Rightarrow> 'ch demux \<Rightarrow> aos_frame \<Rightarrow> bool" where
  "dispatch_drops try_send d fr \<longleftrightarrow> af_vc_id fr \<notin> dx_idle d
     \<and> (\<exists>tx. dx_senders d (af_vc_id fr) = Some tx \<and> try_send tx fr = None)"

interpretation demux_bp: rate_limiter "dispatch_step try_send" "dispatch_warns try_send"
  "\<lambda>d p. dispatch_drops try_send d (snd p)" fst dx_last_bp demux_bp_interval for try_send
proof unfold_locales
  fix d :: "'a demux" and p :: "instant \<times> aos_frame"
  show "dispatch_warns try_send d p \<longleftrightarrow> dispatch_drops try_send d (snd p)
      \<and> rate_gate demux_bp_interval (dx_last_bp d) (fst p)"
    by (rule demux_dispatch_cases [of "snd p" d try_send "fst p"])
      (simp_all add: dispatch_warns_def dispatch_drops_def demux_emit_bp_def)
  then show "dx_last_bp (dispatch_step try_send d p) =
      (if dispatch_warns try_send d p then Some (fst p) else dx_last_bp d)"
    by (rule_tac demux_dispatch_cases [of "snd p" d try_send "fst p"])
      (simp_all add: dispatch_step_def dispatch_drops_def demux_emit_bp_def)
qed

section \<open>Properties\<close>

text \<open>
  C21: Per virtual channel, frames are delivered in order, unchanged, once.  For every interleaving
  of arriving frames with receptions by the decoders, what was queued before plus what the
  demultiplexer accepted equals what was delivered plus what is still queued, and the accepted
  frames are a subsequence of the frames that arrived with this channel number.
\<close>

theorem demux_fifo_per_channel:
  assumes "fifo_send try_send contents" "fifo_recv recv contents"
    and "demux_trace try_send recv d es d'"
  shows "queued contents d vc @ trace_accepted vc es = trace_delivered vc es @ queued contents d' vc
    \<and> subseq (trace_accepted vc es) (filter (\<lambda>fr. af_vc_id fr = vc) (trace_arrived es))"
  using trace_fifo [OF assms(3,1,2)] trace_accepted_subseq [OF assms(3)] by blast

definition example_frame :: aos_frame where
  "example_frame = \<lparr>af_vc_id = 1, af_ocf = None, af_data = [7]\<rparr>"

definition example_queue :: "nat \<Rightarrow> aos_frame bqueue" where
  "example_queue n = \<lparr>bq_cap = n, bq_items = []\<rparr>"

lemma example_dispatch:
  "demux_dispatch bq_try_send (demux_default example_queue) 0 example_frame =
    ([Accepted 1 example_frame], (demux_default example_queue)
       \<lparr>dx_senders := (dx_senders (demux_default example_queue))(1 \<mapsto> \<lparr>bq_cap = 128, bq_items = [example_frame]\<rparr>)\<rparr>)"
  by (simp add: demux_dispatch_def demux_default_def demux_new_def example_frame_def vc_idle_def
      example_queue_def demux_to_spp_cap_def bq_try_send_def)

theorem demux_fifo_per_channel_witness:
  "queued bq_items (demux_default example_queue) 1 @ trace_accepted 1 [Arrived 0 example_frame [Accepted 1 example_frame]]
     = [example_frame]"
proof -
  have "demux_trace bq_try_send bq_recv (demux_default example_queue)
      ([] @ [Arrived 0 example_frame [Accepted 1 example_frame]])
      (snd (demux_dispatch bq_try_send (demux_default example_queue) 0 example_frame))"
    by (rule demux_trace.extend [OF demux_trace.start demux_step.arrive])
      (simp add: example_dispatch)
  from demux_fifo_per_channel [OF fifo_send_bqueue fifo_recv_bqueue this, of 1]
  show ?thesis by (simp add: example_dispatch queued_def trace_defs)
qed

text \<open>
  C22: Every frame is accounted for.  Over any interleaving, each arrived frame that is not on an
  idle channel was accepted, counted as dropped or counted as unknown (with an event), and nothing
  else changes a counter; frames on an idle channel leave no trace.
\<close>

theorem demux_accounts_for_every_frame:
  assumes "demux_trace try_send recv d es d'"
  shows "\<exists>drops. dx_dropped d' = dx_dropped d + of_nat drops
    \<and> dx_unknown d' = dx_unknown d + of_nat (unknown_count (trace_outs es))
    \<and> length (filter (\<lambda>fr. af_vc_id fr \<notin> dx_idle d) (trace_arrived es)) =
        accepted_count (trace_outs es) + drops + unknown_count (trace_outs es)"
  using trace_accounts [OF assms] by blast

theorem demux_accounts_for_every_frame_witness:
  "\<exists>drops. dx_dropped (snd (demux_run bq_try_send (demux_default example_queue) [(0, example_frame)])) = of_nat drops
     \<and> (1 :: nat) = accepted_count (fst (demux_run bq_try_send (demux_default example_queue) [(0, example_frame)])) + drops
         + unknown_count (fst (demux_run bq_try_send (demux_default example_queue) [(0, example_frame)]))"
proof -
  obtain es where es: "demux_trace bq_try_send bq_recv (demux_default example_queue) es
      (snd (demux_run bq_try_send (demux_default example_queue) [(0, example_frame)]))"
    "trace_outs es = fst (demux_run bq_try_send (demux_default example_queue) [(0, example_frame)])"
    "trace_arrived es = [example_frame]"
    using demux_run_trace [OF demux_trace.start, of bq_try_send bq_recv "demux_default example_queue"
        "[(0, example_frame)]"] by auto
  have "af_vc_id example_frame \<notin> dx_idle (demux_default example_queue)"
    by (simp add: example_frame_def demux_default_def demux_new_def vc_idle_def)
  moreover have "dx_dropped (demux_default example_queue) = 0"
    by (simp add: demux_default_def demux_new_def)
  ultimately show ?thesis
    using demux_accounts_for_every_frame [OF es(1)] es(2,3) by auto
qed

text \<open>
  Backpressure is reported at most once a second, and a drop that is not reported follows a
  report less than a second old.
\<close>

theorem demux_backpressure_rate_limited:
  assumes "sorted (map fst frs)"
  shows "spaced (from_secs 1)
      (emission_times (dispatch_step try_send) (dispatch_warns try_send) fst d frs)
    \<and> (dispatch_drops try_send d fr \<and> \<not> dispatch_warns try_send d (now, fr) \<longrightarrow>
        (\<exists>l. dx_last_bp d = Some l \<and> now - l < from_secs 1))"
  using demux_bp.times_spaced [OF assms, of try_send d]
    demux_bp.suppressed_only_recently [of try_send d "(now, fr)"]
  by (auto simp: demux_bp_interval_def)

theorem demux_backpressure_rate_limited_witness:
  "spaced (from_secs 1) (emission_times (dispatch_step (\<lambda>_ _. None)) (dispatch_warns (\<lambda>_ _. None)) fst
     (demux_default example_queue) [(0, example_frame), (3, example_frame)])"
  by (rule demux_backpressure_rate_limited [THEN conjunct1]) simp

end
