(* ===== verification/Ingest_Decoder.thy ===== *)
theory Ingest_Decoder
  imports Ingest_Types Rate_Limit Ccsds_Packet "HOL-Library.Sublist"
begin

text \<open>
  The space packet decoder of one virtual channel,
  \<open>rust/ground_station/src/ingest/decoder.rs\<close>.  The channel to the router is a type parameter
  with \<open>try_send\<close> as an argument; each step takes the instant the code reads from the clock.
\<close>

definition decode_fail_event_interval :: duration where
  "decode_fail_event_interval = from_secs 1"

definition decoder_bp_interval :: duration where
  "decoder_bp_interval = from_secs 1"

record spp_decoder =
  sd_vc_id :: u8
  sd_decode_fail :: u64
  sd_dropped :: u64
  sd_last_fail :: "string \<rightharpoonup> instant"
  sd_last_bp :: "instant option"

datatype decoder_out =
    DecodeFailEvent u8 string ccsds_error
  | DecoderBackpressure u8

definition decoder_new :: "u8 \<Rightarrow> spp_decoder" where
  "decoder_new vc =
     \<lparr>sd_vc_id = vc, sd_decode_fail = 0, sd_dropped = 0, sd_last_fail = Map.empty, sd_last_bp = None\<rparr>"

fun error_label :: "ccsds_error \<Rightarrow> string" where
  "error_label (BufferTooShort _ _) = ''buffer_too_short''"
| "error_label (InvalidVersion _) = ''invalid_version''"
| "error_label (InvalidPField _) = ''invalid_pfield''"
| "error_label (ApidOutOfRange _) = ''apid_out_of_range''"
| "error_label (SequenceCountOutOfRange _) = ''seq_count_out_of_range''"
| "error_label InstanceIdReserved = ''instance_id_reserved''"
| "error_label (LengthMismatch _ _) = ''length_mismatch''"
| "error_label (SequenceFlagsNotStandalone _) = ''seq_flags_not_standalone''"
| "error_label FuncCodeReserved = ''func_code_reserved''"

definition emit_decode_fail_event ::
  "spp_decoder \<Rightarrow> instant \<Rightarrow> ccsds_error \<Rightarrow> decoder_out list \<times> spp_decoder" where
  "emit_decode_fail_event d now e =
     (let label = error_label e in
      if rate_gate decode_fail_event_interval (sd_last_fail d label) now
      then ([DecodeFailEvent (sd_vc_id d) label e],
            d\<lparr>sd_last_fail := (sd_last_fail d)(label \<mapsto> now)\<rparr>)
      else ([], d))"

definition decoder_emit_bp :: "spp_decoder \<Rightarrow> instant \<Rightarrow> decoder_out list \<times> spp_decoder" where
  "decoder_emit_bp d now =
     (if rate_gate decoder_bp_interval (sd_last_bp d) now
      then ([DecoderBackpressure (sd_vc_id d)], d\<lparr>sd_last_bp := Some now\<rparr>)
      else ([], d))"

definition decoder_process ::
  "('ch \<Rightarrow> bytes \<Rightarrow> 'ch option) \<Rightarrow> spp_decoder \<Rightarrow> 'ch \<Rightarrow> instant \<Rightarrow> aos_frame
     \<Rightarrow> decoder_out list \<times> spp_decoder \<times> 'ch" where
  "decoder_process try_send d router_tx now fr =
     (case sp_parse (af_data fr) of
        Inr _ \<Rightarrow>
          (case try_send router_tx (af_data fr) of
             Some tx' \<Rightarrow> ([], d, tx')
           | None \<Rightarrow>
               (let (outs, d') = decoder_emit_bp (d\<lparr>sd_dropped := sd_dropped d + 1\<rparr>) now
                in (outs, d', router_tx)))
      | Inl e \<Rightarrow>
          (let (outs, d') = emit_decode_fail_event (d\<lparr>sd_decode_fail := sd_decode_fail d + 1\<rparr>) now e
           in (outs, d', router_tx)))"

fun decoder_run ::
  "('ch \<Rightarrow> bytes \<Rightarrow> 'ch option) \<Rightarrow> spp_decoder \<Rightarrow> 'ch \<Rightarrow> (instant \<times> aos_frame) list
     \<Rightarrow> decoder_out list \<times> spp_decoder \<times> 'ch" where
  "decoder_run try_send d tx [] = ([], d, tx)"
| "decoder_run try_send d tx ((now, fr) # frs) =
     (let (o1, d1, tx1) = decoder_process try_send d tx now fr;
          (o2, d2, tx2) = decoder_run try_send d1 tx1 frs
      in (o1 @ o2, d2, tx2))"

section \<open>One frame\<close>

lemma error_label_inj_on_variants:
  "error_label e = error_label e' \<longleftrightarrow>
     is_BufferTooShort e = is_BufferTooShort e' \<and> is_InvalidVersion e = is_InvalidVersion e'
   \<and> is_InvalidPField e = is_InvalidPField e' \<and> is_ApidOutOfRange e = is_ApidOutOfRange e'
   \<and> is_SequenceCountOutOfRange e = is_SequenceCountOutOfRange e'
   \<and> (e = InstanceIdReserved) = (e' = InstanceIdReserved)
   \<and> is_LengthMismatch e = is_LengthMismatch e'
   \<and> is_SequenceFlagsNotStandalone e = is_SequenceFlagsNotStandalone e'
   \<and> (e = FuncCodeReserved) = (e' = FuncCodeReserved)"
  by (cases e; cases e'; simp)

lemma decoder_emit_frame [simp]:
  "sd_decode_fail (snd (emit_decode_fail_event d now e)) = sd_decode_fail d"
  "sd_dropped (snd (emit_decode_fail_event d now e)) = sd_dropped d"
  "sd_last_bp (snd (emit_decode_fail_event d now e)) = sd_last_bp d"
  "sd_decode_fail (snd (decoder_emit_bp d now)) = sd_decode_fail d"
  "sd_dropped (snd (decoder_emit_bp d now)) = sd_dropped d"
  "sd_last_fail (snd (decoder_emit_bp d now)) = sd_last_fail d"
  "sd_vc_id (snd (decoder_emit_bp d now)) = sd_vc_id d"
  "sd_vc_id (snd (emit_decode_fail_event d now e)) = sd_vc_id d"
  by (simp_all add: emit_decode_fail_event_def decoder_emit_bp_def Let_def)

text \<open>The three outcomes of a frame.\<close>

lemma decoder_process_cases:
  obtains (sent) tx' where "is_ok (sp_parse (af_data fr))" "try_send tx (af_data fr) = Some tx'"
      "decoder_process try_send d tx now fr = ([], d, tx')"
  | (dropped) "is_ok (sp_parse (af_data fr))" "try_send tx (af_data fr) = None"
      "decoder_process try_send d tx now fr =
        (let (outs, d') = decoder_emit_bp (d\<lparr>sd_dropped := sd_dropped d + 1\<rparr>) now in (outs, d', tx))"
  | (failed) e where "sp_parse (af_data fr) = Inl e"
      "decoder_process try_send d tx now fr =
        (let (outs, d') = emit_decode_fail_event (d\<lparr>sd_decode_fail := sd_decode_fail d + 1\<rparr>) now e
         in (outs, d', tx))"
  by (cases "sp_parse (af_data fr)"; cases "try_send tx (af_data fr)")
    (auto simp: decoder_process_def)

definition parseable :: "(instant \<times> aos_frame) list \<Rightarrow> bytes list" where
  "parseable frs = filter (\<lambda>b. is_ok (sp_parse b)) (map (af_data \<circ> snd) frs)"

definition unparseable :: "(instant \<times> aos_frame) list \<Rightarrow> bytes list" where
  "unparseable frs = filter (\<lambda>b. \<not> is_ok (sp_parse b)) (map (af_data \<circ> snd) frs)"

lemma decoder_run_accounts:
  assumes "fifo_send try_send contents"
  shows "\<exists>fwd drops. contents (snd (snd (decoder_run try_send d tx frs))) = contents tx @ fwd
    \<and> subseq fwd (parseable frs) \<and> length (parseable frs) = length fwd + drops
    \<and> sd_dropped (fst (snd (decoder_run try_send d tx frs))) = sd_dropped d + of_nat drops
    \<and> sd_decode_fail (fst (snd (decoder_run try_send d tx frs)))
        = sd_decode_fail d + of_nat (length (unparseable frs))"
  using assms
proof (induction try_send d tx frs rule: decoder_run.induct)
  case (1 try_send d tx)
  show ?case by (simp add: parseable_def unparseable_def)
next
  case (2 try_send d tx now fr frs)
  obtain o1 d1 tx1 where p: "decoder_process try_send d tx now fr = (o1, d1, tx1)"
    by (metis prod_cases3)
  obtain fwd drops where IH:
    "contents (snd (snd (decoder_run try_send d1 tx1 frs))) = contents tx1 @ fwd"
    "subseq fwd (parseable frs)" "length (parseable frs) = length fwd + drops"
    "sd_dropped (fst (snd (decoder_run try_send d1 tx1 frs))) = sd_dropped d1 + of_nat drops"
    "sd_decode_fail (fst (snd (decoder_run try_send d1 tx1 frs)))
        = sd_decode_fail d1 + of_nat (length (unparseable frs))"
    using 2(1) [OF p [symmetric] refl refl 2(2)] by blast
  show ?case
  proof (cases rule: decoder_process_cases [of fr try_send tx d now])
    case (sent tx')
    then show ?thesis
      using IH p fifo_sendD [OF 2(2) sent(2)]
      by (intro exI [of _ "af_data fr # fwd"] exI [of _ drops])
        (simp add: split_beta parseable_def unparseable_def)
  next
    case dropped
    then show ?thesis
      using IH p
      by (intro exI [of _ fwd] exI [of _ "Suc drops"])
        (auto simp: split_beta parseable_def unparseable_def)
  next
    case (failed e)
    then show ?thesis
      using IH p
      by (intro exI [of _ fwd] exI [of _ drops])
        (auto simp: split_beta parseable_def unparseable_def)
  qed
qed

section \<open>Event rate\<close>

definition decoder_step ::
  "('ch \<Rightarrow> bytes \<Rightarrow> 'ch option) \<Rightarrow> spp_decoder \<times> 'ch \<Rightarrow> instant \<times> aos_frame \<Rightarrow> spp_decoder \<times> 'ch" where
  "decoder_step try_send s p = snd (decoder_process try_send (fst s) (snd s) (fst p) (snd p))"

definition decoder_reports ::
  "('ch \<Rightarrow> bytes \<Rightarrow> 'ch option) \<Rightarrow> string \<Rightarrow> spp_decoder \<times> 'ch \<Rightarrow> instant \<times> aos_frame \<Rightarrow> bool" where
  "decoder_reports try_send label s p \<longleftrightarrow>
     (\<exists>vc e. DecodeFailEvent vc label e \<in> set (fst (decoder_process try_send (fst s) (snd s) (fst p) (snd p))))"

definition fails_with :: "string \<Rightarrow> aos_frame \<Rightarrow> bool" where
  "fails_with label fr \<longleftrightarrow>
     (case sp_parse (af_data fr) of Inl e \<Rightarrow> error_label e = label | Inr _ \<Rightarrow> False)"

interpretation decode_fail: rate_limiter "decoder_step try_send" "decoder_reports try_send label"
  "\<lambda>_ p. fails_with label (snd p)" fst "\<lambda>s. sd_last_fail (fst s) label" decode_fail_event_interval
  for try_send label
proof unfold_locales
  fix s :: "spp_decoder \<times> 'a" and p :: "instant \<times> aos_frame"
  show "decoder_reports try_send label s p \<longleftrightarrow> fails_with label (snd p)
      \<and> rate_gate decode_fail_event_interval (sd_last_fail (fst s) label) (fst p)"
    by (rule decoder_process_cases [of "snd p" try_send "snd s" "fst s" "fst p"])
      (auto simp: decoder_reports_def fails_with_def emit_decode_fail_event_def decoder_emit_bp_def
        is_ok_iff Let_def)
  then show "sd_last_fail (fst (decoder_step try_send s p)) label =
      (if decoder_reports try_send label s p then Some (fst p) else sd_last_fail (fst s) label)"
    by (rule_tac decoder_process_cases [of "snd p" try_send "snd s" "fst s" "fst p"])
      (auto simp: decoder_step_def fails_with_def emit_decode_fail_event_def is_ok_iff Let_def
        split_beta)
qed

section \<open>Properties\<close>

text \<open>
  C23: The decoder forwards payloads unchanged and in order.  Over any run, what it appends to the
  router channel is a subsequence of the data fields that parse as space packets; every parseable
  field is either forwarded or counted as dropped, and every other field is counted as a decode
  failure.
\<close>

theorem decoder_forwards_valid_in_order:
  assumes "fifo_send try_send contents"
  shows "\<exists>fwd drops. contents (snd (snd (decoder_run try_send d tx frs))) = contents tx @ fwd
    \<and> subseq fwd (parseable frs) \<and> length (parseable frs) = length fwd + drops
    \<and> sd_dropped (fst (snd (decoder_run try_send d tx frs))) = sd_dropped d + of_nat drops
    \<and> sd_decode_fail (fst (snd (decoder_run try_send d tx frs)))
        = sd_decode_fail d + of_nat (length (unparseable frs))"
  by (rule decoder_run_accounts [OF assms])

theorem decoder_forwards_valid_in_order_witness:
  "sd_decode_fail (fst (snd (decoder_run bq_try_send (decoder_new 0) \<lparr>bq_cap = 1, bq_items = []\<rparr>
     [(0, \<lparr>af_vc_id = 0, af_ocf = None, af_data = [1, 2]\<rparr>)]))) = 1"
  using decoder_forwards_valid_in_order [OF fifo_send_bqueue, of "decoder_new 0"
      "\<lparr>bq_cap = 1, bq_items = []\<rparr>" "[(0, \<lparr>af_vc_id = 0, af_ocf = None, af_data = [1, 2]\<rparr>)]"]
  by (auto simp: parseable_def unparseable_def sp_parse_def decoder_new_def)

text \<open>
  Decode failures are reported at most once a second for each kind of error, and the kinds do
  not hide one another: a failure that is not reported follows a report of the same kind less than
  a second old.
\<close>

theorem decode_fail_rate_limited_per_kind:
  assumes "sorted (map fst frs)"
  shows "spaced (from_secs 1)
      (emission_times (decoder_step try_send) (decoder_reports try_send label) fst s frs)
    \<and> (fails_with label fr \<and> \<not> decoder_reports try_send label s (now, fr) \<longrightarrow>
        (\<exists>l. sd_last_fail (fst s) label = Some l \<and> now - l < from_secs 1))"
  using decode_fail.times_spaced [OF assms, of try_send label s]
    decode_fail.suppressed_only_recently [of label "(now, fr)" try_send s]
  by (auto simp: decode_fail_event_interval_def)

theorem decode_fail_rate_limited_per_kind_witness:
  "spaced (from_secs 1) (emission_times (decoder_step bq_try_send) (decoder_reports bq_try_send ''buffer_too_short'')
     fst (decoder_new 0, \<lparr>bq_cap = 1, bq_items = []\<rparr>)
     [(0, \<lparr>af_vc_id = 0, af_ocf = None, af_data = []\<rparr>), (3, \<lparr>af_vc_id = 0, af_ocf = None, af_data = [1]\<rparr>)])"
  by (rule decode_fail_rate_limited_per_kind [THEN conjunct1]) simp

text \<open>
  A packet shorter than the frame's data field is lost.  The decoder parses the whole data
  field as one packet, so a valid packet followed by fill bytes is never forwarded and counts as a
  length-mismatch failure.
\<close>

theorem padded_packet_discarded:
  assumes "sp_parse pkt = Inr k" "af_data fr = pkt @ fill" "fill \<noteq> []"
  shows "sd_decode_fail (fst (snd (decoder_process try_send d tx now fr))) = sd_decode_fail d + 1
    \<and> snd (snd (decoder_process try_send d tx now fr)) = tx \<and> fails_with ''length_mismatch'' fr"
proof -
  have "16 \<le> length pkt"
    using sp_parse_InrD(5) [OF assms(1)] .
  then have "sp_parse (af_data fr) = Inl (LengthMismatch (length pkt) (length pkt + length fill))"
    using parse_resized [OF assms(1), of "pkt @ fill"] assms(2,3) by simp
  then show ?thesis
    by (simp add: decoder_process_def split_beta fails_with_def)
qed

theorem padded_packet_discarded_witness:
  "\<exists>pkt k. sp_parse pkt = Inr k \<and> fails_with ''length_mismatch''
     \<lparr>af_vc_id = 0, af_ocf = None, af_data = pkt @ replicate (1016 - length pkt) 0\<rparr>"
proof -
  obtain pkt where b: "builder_build example_builder = Inr pkt"
    using example_builder_builds by (auto simp: is_ok_iff)
  obtain k where k: "sp_parse pkt = Inr k"
    using builder_parse [OF example_builder_ok b] by auto
  have "length pkt = 18"
    using b by (auto simp: builder_build_eq example_builder_simps builder_packet_def)
  then have "replicate (1016 - length pkt) (0 :: u8) \<noteq> []" by simp
  from padded_packet_discarded [OF k _ this,
      of "\<lparr>af_vc_id = 0, af_ocf = None, af_data = pkt @ replicate (1016 - length pkt) 0\<rparr>" bq_try_send "decoder_new 0" "\<lparr>bq_cap = 1, bq_items = []\<rparr>" 0]
  show ?thesis using k by (intro exI [of _ pkt] exI [of _ k] conjI) simp_all
qed

end
