(* ===== verification/Ingest_Router.thy ===== *)
theory Ingest_Router
  imports Ccsds_Packet
begin

text \<open>
  The APID router, \<open>rust/ground_station/src/ingest/router.rs\<close>.  \<open>route\<close> is one decision with the
  update of the per-APID counters of forbidden packets.
\<close>

definition in_range :: "u16 \<Rightarrow> u16 \<Rightarrow> u16 \<Rightarrow> bool" where
  "in_range lo hi a \<longleftrightarrow> lo \<le> a \<and> a \<le> hi"

definition fault_inject_lo :: u16 where "fault_inject_lo = 0x540"
definition fault_inject_hi :: u16 where "fault_inject_hi = 0x543"
definition sim_sensor_lo :: u16 where "sim_sensor_lo = 0x500"
definition sim_sensor_hi :: u16 where "sim_sensor_hi = 0x53F"
definition sim_diag_lo :: u16 where "sim_diag_lo = 0x544"
definition sim_diag_hi :: u16 where "sim_diag_hi = 0x57F"
definition gnd_int_lo :: u16 where "gnd_int_lo = 0x600"
definition gnd_int_hi :: u16 where "gnd_int_hi = 0x67F"
definition orbiter_tm_lo :: u16 where "orbiter_tm_lo = 0x100"
definition orbiter_tm_hi :: u16 where "orbiter_tm_hi = 0x17F"
definition relay_tm_lo :: u16 where "relay_tm_lo = 0x200"
definition relay_tm_hi :: u16 where "relay_tm_hi = 0x27F"
definition mcu_tm_lo :: u16 where "mcu_tm_lo = 0x280"
definition mcu_tm_hi :: u16 where "mcu_tm_hi = 0x2FF"
definition rover_tm_lo :: u16 where "rover_tm_lo = 0x300"
definition rover_tm_hi :: u16 where "rover_tm_hi = 0x45F"
definition idle_fill_apid :: u16 where "idle_fill_apid = 0x7FF"
definition vc_event_log :: u8 where "vc_event_log = 1"
definition vc_cfdp :: u8 where "vc_cfdp = 2"

lemmas router_consts =
  fault_inject_lo_def fault_inject_hi_def sim_sensor_lo_def sim_sensor_hi_def sim_diag_lo_def
  sim_diag_hi_def gnd_int_lo_def gnd_int_hi_def orbiter_tm_lo_def orbiter_tm_hi_def
  relay_tm_lo_def relay_tm_hi_def mcu_tm_lo_def mcu_tm_hi_def rover_tm_lo_def rover_tm_hi_def
  idle_fill_apid_def vc_event_log_def vc_cfdp_def

datatype reject_reason =
    ForbiddenFaultInjectApid
  | ForbiddenSimApid
  | ForbiddenGroundInternal
  | UnknownBlock

datatype route = Hk | EventLog | CfdpPdu | RoverForward | IdleFill | Rejected reject_reason

record apid_router =
  ar_forbidden :: "u16 \<rightharpoonup> u64"

definition router_new :: apid_router where
  "router_new = \<lparr>ar_forbidden = Map.empty\<rparr>"

definition router_default :: apid_router where
  "router_default = router_new"

definition forbidden_apid_seen_total :: "apid_router \<Rightarrow> u16 \<Rightarrow> u64" where
  "forbidden_apid_seen_total r a = (case ar_forbidden r a of None \<Rightarrow> 0 | Some n \<Rightarrow> n)"

text \<open>\<open>*entry(apid).or_insert(0) += 1\<close>\<close>

definition count_forbidden :: "apid_router \<Rightarrow> u16 \<Rightarrow> apid_router" where
  "count_forbidden r a =
     r\<lparr>ar_forbidden := (ar_forbidden r)(a \<mapsto> (case ar_forbidden r a of None \<Rightarrow> 0 | Some n \<Rightarrow> n) + 1)\<rparr>"

definition route_packet :: "apid_router \<Rightarrow> u8 \<Rightarrow> space_packet \<Rightarrow> route \<times> apid_router" where
  "route_packet r vc_id pkt =
     (let a = apid_get (ph_apid (sp_primary pkt)) in
      if in_range fault_inject_lo fault_inject_hi a
      then (Rejected ForbiddenFaultInjectApid, count_forbidden r a)
      else if in_range sim_sensor_lo sim_sensor_hi a \<or> in_range sim_diag_lo sim_diag_hi a
      then (Rejected ForbiddenSimApid, count_forbidden r a)
      else if in_range gnd_int_lo gnd_int_hi a
      then (Rejected ForbiddenGroundInternal, count_forbidden r a)
      else if a = idle_fill_apid then (IdleFill, r)
      else if vc_id = vc_cfdp then (CfdpPdu, r)
      else if vc_id = vc_event_log then (EventLog, r)
      else if in_range orbiter_tm_lo orbiter_tm_hi a \<or> in_range relay_tm_lo relay_tm_hi a
           \<or> in_range mcu_tm_lo mcu_tm_hi a then (Hk, r)
      else if in_range rover_tm_lo rover_tm_hi a then (RoverForward, r)
      else (Rejected UnknownBlock, r))"

fun route_all :: "apid_router \<Rightarrow> (u8 \<times> space_packet) list \<Rightarrow> route list \<times> apid_router" where
  "route_all r [] = ([], r)"
| "route_all r ((vc, pkt) # ps) =
     (let (d, r1) = route_packet r vc pkt; (ds, r2) = route_all r1 ps in (d # ds, r2))"

section \<open>The routing table over the integers\<close>

definition pkt_apid :: "space_packet \<Rightarrow> nat" where
  "pkt_apid pkt = unat (apid_get (ph_apid (sp_primary pkt)))"

text \<open>The blocks that must never be accepted from a radio link.\<close>

definition forbidden_apids :: "nat set" where
  "forbidden_apids = {0x500..0x57F} \<union> {0x600..0x67F}"

lemma in_range_unat: "in_range lo hi a \<longleftrightarrow> unat lo \<le> unat a \<and> unat a \<le> unat hi"
  by (simp add: in_range_def word_le_nat_alt)

lemma route_decision:
  "fst (route_packet r vc pkt) =
     (if pkt_apid pkt \<in> {0x540..0x543} then Rejected ForbiddenFaultInjectApid
      else if pkt_apid pkt \<in> {0x500..0x57F} then Rejected ForbiddenSimApid
      else if pkt_apid pkt \<in> {0x600..0x67F} then Rejected ForbiddenGroundInternal
      else if pkt_apid pkt = 0x7FF then IdleFill
      else if vc = 2 then CfdpPdu
      else if vc = 1 then EventLog
      else if pkt_apid pkt \<in> {0x100..0x17F} \<union> {0x200..0x2FF} then Hk
      else if pkt_apid pkt \<in> {0x300..0x45F} then RoverForward
      else Rejected UnknownBlock)"
proof -
  have "apid_get (ph_apid (sp_primary pkt)) = 0x7FF \<longleftrightarrow> pkt_apid pkt = 0x7FF"
    by (simp add: pkt_apid_def word_unat_eq_iff)
  then show ?thesis
    by (auto simp: route_packet_def Let_def in_range_unat router_consts pkt_apid_def [symmetric])
qed

lemma count_forbidden_total [simp]:
  "forbidden_apid_seen_total (count_forbidden r b) a =
     forbidden_apid_seen_total r a + (if a = b then 1 else 0)"
  by (simp add: forbidden_apid_seen_total_def count_forbidden_def)

lemma route_counts:
  "forbidden_apid_seen_total (snd (route_packet r vc pkt)) a =
     forbidden_apid_seen_total r a
       + (if unat a = pkt_apid pkt \<and> pkt_apid pkt \<in> forbidden_apids then 1 else 0)"
proof -
  have "unat a = pkt_apid pkt \<longleftrightarrow> a = apid_get (ph_apid (sp_primary pkt))"
    by (simp add: pkt_apid_def word_unat_eq_iff)
  then show ?thesis
    by (auto simp: route_packet_def Let_def in_range_unat router_consts pkt_apid_def [symmetric]
        forbidden_apids_def)
qed

section \<open>Properties\<close>

text \<open>
  C24: A forbidden APID never reaches a sink.  On every virtual channel, a packet whose APID is in
  the simulation blocks (0x500 to 0x57F, the fault-injection sideband 0x540 to 0x543 included) or
  the ground-internal block (0x600 to 0x67F) is rejected with the reason of its block, and no
  other packet is rejected for these reasons.
\<close>

theorem forbidden_never_routed:
  "(fst (route_packet r vc pkt) = Rejected ForbiddenFaultInjectApid \<longleftrightarrow> pkt_apid pkt \<in> {0x540..0x543})
   \<and> (fst (route_packet r vc pkt) = Rejected ForbiddenSimApid \<longleftrightarrow>
        pkt_apid pkt \<in> {0x500..0x57F} - {0x540..0x543})
   \<and> (fst (route_packet r vc pkt) = Rejected ForbiddenGroundInternal \<longleftrightarrow> pkt_apid pkt \<in> {0x600..0x67F})
   \<and> (fst (route_packet r vc pkt) \<in> {Hk, EventLog, CfdpPdu, RoverForward, IdleFill, Rejected UnknownBlock}
        \<longleftrightarrow> pkt_apid pkt \<notin> forbidden_apids)"
  unfolding route_decision forbidden_apids_def by auto

text \<open>
  The routing table for the other packets: idle fill is recognised by APID alone, virtual
  channels 2 and 1 decide before the APID block does, and a packet of any other channel reaches
  the housekeeping or rover sink exactly when its APID is in a block of that sink.
\<close>

theorem routing_table:
  "(fst (route_packet r vc pkt) = IdleFill \<longleftrightarrow> pkt_apid pkt = 0x7FF)
   \<and> (fst (route_packet r vc pkt) = CfdpPdu \<longleftrightarrow>
        vc = 2 \<and> pkt_apid pkt \<notin> forbidden_apids \<union> {0x7FF})
   \<and> (fst (route_packet r vc pkt) = EventLog \<longleftrightarrow>
        vc = 1 \<and> pkt_apid pkt \<notin> forbidden_apids \<union> {0x7FF})
   \<and> (fst (route_packet r vc pkt) = Hk \<longleftrightarrow>
        vc \<notin> {1, 2} \<and> pkt_apid pkt \<in> {0x100..0x17F} \<union> {0x200..0x2FF})
   \<and> (fst (route_packet r vc pkt) = RoverForward \<longleftrightarrow> vc \<notin> {1, 2} \<and> pkt_apid pkt \<in> {0x300..0x45F})"
  unfolding route_decision forbidden_apids_def by auto

text \<open>
  The audit counters are exact: after any sequence of packets, the counter of an APID has
  grown by the number of packets seen with this APID if it is forbidden, and not at all otherwise.
\<close>

theorem forbidden_counters_exact:
  "forbidden_apid_seen_total (snd (route_all r ps)) a =
     forbidden_apid_seen_total r a
       + (if unat a \<in> forbidden_apids
          then of_nat (length (filter (\<lambda>(vc, pkt). pkt_apid pkt = unat a) ps)) else 0)"
proof (induction r ps rule: route_all.induct)
  case (2 r vc pkt ps)
  obtain d r1 where p: "route_packet r vc pkt = (d, r1)" by fastforce
  show ?case
    using 2 [OF p [symmetric] refl] route_counts [of r vc pkt a] by (auto simp: p split_beta)
qed simp

end
