(* ===== verification/Ui_Time.thy ===== *)
theory Ui_Time
  imports Complex_Main Ccsds_Headers
begin

text \<open>
  \<open>rust/ground_station/src/ui/time.rs\<close>: conversion between on-board time (TAI, as a CUC time
  stamp) and UTC, and the command validity window.

  The \<open>time\<close> crate is a record of functions over an abstract calendar type \<open>'dt\<close>; what the code
  relies on is the predicate \<open>time_laws\<close>.  An \<open>f64\<close> is a rational number, an infinity or NaN, and
  the rounding of a sum is the argument \<open>rnd\<close> (the sign of zero plays no role here).
\<close>

type_synonym i64 = "64 word"

record 'dt time_crate =
  tc_from_unix :: "int \<Rightarrow> 'dt option"
  tc_epoch :: 'dt
  tc_add_ns :: "'dt \<Rightarrow> int \<Rightarrow> 'dt"
  tc_unix :: "'dt \<Rightarrow> int"
  tc_rfc3339 :: "'dt \<Rightarrow> string option"

definition time_laws :: "'dt time_crate \<Rightarrow> bool" where
  "time_laws tc \<longleftrightarrow>
     (\<forall>s. -377705116800 \<le> s \<and> s \<le> 253402300799 \<longrightarrow>
        (\<exists>d. tc_from_unix tc s = Some d \<and>
          (\<forall>ns. 0 \<le> ns \<and> ns < 1000000000 \<longrightarrow> tc_unix tc (tc_add_ns tc d ns) = s)))"

section \<open>TAI and UTC\<close>

definition tai_epoch_unix_s :: i64 where
  "tai_epoch_unix_s = -378691200"

record tai_utc_converter =
  leap_seconds :: i64

definition converter_new :: "i64 \<Rightarrow> tai_utc_converter" where
  "converter_new leap = \<lparr>leap_seconds = leap\<rparr>"

definition tai_to_utc :: "'dt time_crate \<Rightarrow> tai_utc_converter \<Rightarrow> cuc \<Rightarrow> 'dt" where
  "tai_to_utc tc conv tai =
     (let unix_s = tai_epoch_unix_s + ucast (coarse tai) - leap_seconds conv;
          fine_ns = uint (fine tai) * 1000000000 div 65536
      in tc_add_ns tc
           (case tc_from_unix tc (sint unix_s) of None \<Rightarrow> tc_epoch tc | Some d \<Rightarrow> d) fine_ns)"

definition utc_to_tai :: "'dt time_crate \<Rightarrow> tai_utc_converter \<Rightarrow> 'dt \<Rightarrow> cuc" where
  "utc_to_tai tc conv utc =
     (let unix_s = word_of_int (tc_unix tc utc);
          tai_s = unix_s - tai_epoch_unix_s + leap_seconds conv
      in \<lparr>coarse = (if 0 \<le> sint tai_s \<and> sint tai_s < 2 ^ 32 then ucast tai_s else 0), fine = 0\<rparr>)"

definition tai_to_iso8601 :: "'dt time_crate \<Rightarrow> tai_utc_converter \<Rightarrow> cuc \<Rightarrow> string" where
  "tai_to_iso8601 tc conv tai =
     (case tc_rfc3339 tc (tai_to_utc tc conv tai) of None \<Rightarrow> [] | Some s \<Rightarrow> s)"

section \<open>The validity window\<close>

datatype f64 = NaN | PosInf | NegInf | Fin rat

fun f64_add :: "(rat \<Rightarrow> f64) \<Rightarrow> f64 \<Rightarrow> f64 \<Rightarrow> f64" where
  "f64_add rnd NaN _ = NaN"
| "f64_add rnd _ NaN = NaN"
| "f64_add rnd PosInf NegInf = NaN"
| "f64_add rnd NegInf PosInf = NaN"
| "f64_add rnd PosInf _ = PosInf"
| "f64_add rnd NegInf _ = NegInf"
| "f64_add rnd _ PosInf = PosInf"
| "f64_add rnd _ NegInf = NegInf"
| "f64_add rnd (Fin a) (Fin b) = rnd (a + b)"

fun f64_neg :: "f64 \<Rightarrow> f64" where
  "f64_neg NaN = NaN"
| "f64_neg PosInf = NegInf"
| "f64_neg NegInf = PosInf"
| "f64_neg (Fin a) = Fin (- a)"

definition f64_sub :: "(rat \<Rightarrow> f64) \<Rightarrow> f64 \<Rightarrow> f64 \<Rightarrow> f64" where
  "f64_sub rnd x y = f64_add rnd x (f64_neg y)"

fun f64_gt :: "f64 \<Rightarrow> f64 \<Rightarrow> bool" where
  "f64_gt NaN _ = False"
| "f64_gt _ NaN = False"
| "f64_gt PosInf y = (y \<noteq> PosInf)"
| "f64_gt _ PosInf = False"
| "f64_gt NegInf _ = False"
| "f64_gt (Fin _) NegInf = True"
| "f64_gt (Fin a) (Fin b) = (a > b)"

text \<open>\<open>f64::from(u32)\<close> is exact.\<close>

definition f64_of_u32 :: "u32 \<Rightarrow> f64" where
  "f64_of_u32 n = Fin (of_nat (unat n))"

datatype validity_error = WindowExpired f64

definition check_validity_window ::
  "(rat \<Rightarrow> f64) \<Rightarrow> cuc \<Rightarrow> cuc \<Rightarrow> f64 \<Rightarrow> validity_error + unit" where
  "check_validity_window rnd valid_until_tai now_tai light_time_s =
     (let arrival_s = f64_add rnd (f64_of_u32 (coarse now_tai)) light_time_s;
          limit_s = f64_of_u32 (coarse valid_until_tai)
      in if f64_gt arrival_s limit_s
         then Inl (WindowExpired (f64_sub rnd arrival_s limit_s))
         else Inr ())"

section \<open>Lemmas\<close>

lemma sint_small:
  fixes x :: int
  assumes "- (2 ^ 63) \<le> x" "x < 2 ^ 63"
  shows "sint (word_of_int x :: i64) = x"
  using assms by (simp add: signed_of_int signed_take_bit_int_eq_self)

lemma uint_u32_bounds: "0 \<le> uint (c :: u32)" "uint (c :: u32) < 4294967296"
proof -
  have "uint c < 2 ^ LENGTH(32)"
    by (rule unsigned_less)
  then show "uint c < 4294967296" by simp
qed simp

lemma uint_u16_bounds: "0 \<le> uint (c :: u16)" "uint (c :: u16) < 65536"
proof -
  have "uint c < 2 ^ LENGTH(16)"
    by (rule unsigned_less)
  then show "uint c < 65536" by simp
qed simp

definition leap_ok :: "tai_utc_converter \<Rightarrow> bool" where
  "leap_ok conv \<longleftrightarrow> \<bar>sint (leap_seconds conv)\<bar> \<le> 2 ^ 31"

lemma unix_s_exact:
  fixes c :: u32
  assumes "leap_ok conv"
  shows "sint (tai_epoch_unix_s + ucast c - leap_seconds conv) =
      -378691200 + uint c - sint (leap_seconds conv)"
    and "-377705116800 \<le> -378691200 + uint c - sint (leap_seconds conv)"
    and "-378691200 + uint c - sint (leap_seconds conv) \<le> 253402300799"
proof -
  have l: "- 2147483648 \<le> sint (leap_seconds conv)" "sint (leap_seconds conv) \<le> 2147483648"
    using assms by (simp_all add: leap_ok_def)
  have lo: "-9223372036854775808 \<le> -378691200 + uint c - sint (leap_seconds conv)"
    and hi: "-378691200 + uint c - sint (leap_seconds conv) < 9223372036854775808"
    using l uint_u32_bounds [of c] by linarith+
  have "tai_epoch_unix_s + ucast c - leap_seconds conv =
      word_of_int (-378691200 + uint c - sint (leap_seconds conv))"
    by (simp add: tai_epoch_unix_s_def unsigned_of_int flip: unsigned_ucast_eq)
  then show "sint (tai_epoch_unix_s + ucast c - leap_seconds conv) =
      -378691200 + uint c - sint (leap_seconds conv)"
    by (simp only:, intro sint_small) (use lo hi in simp_all)
  show "-377705116800 \<le> -378691200 + uint c - sint (leap_seconds conv)"
    "-378691200 + uint c - sint (leap_seconds conv) \<le> 253402300799"
    using l uint_u32_bounds [of c] by linarith+
qed

lemma fine_ns_bounds:
  fixes f :: u16
  shows "0 \<le> uint f * 1000000000 div 65536" "uint f * 1000000000 div 65536 < 1000000000"
  using uint_u16_bounds [of f] by (simp_all add: div_less_iff_less_mult pos_imp_zdiv_nonneg_iff)

lemma tai_to_utc_unix:
  assumes "time_laws tc" "leap_ok conv"
  shows "tc_unix tc (tai_to_utc tc conv t) = -378691200 + uint (coarse t) - sint (leap_seconds conv)"
proof -
  note u = unix_s_exact [OF assms(2), of "coarse t"]
  obtain d where "tc_from_unix tc (-378691200 + uint (coarse t) - sint (leap_seconds conv)) = Some d"
    and "\<And>ns. 0 \<le> ns \<Longrightarrow> ns < 1000000000 \<Longrightarrow>
      tc_unix tc (tc_add_ns tc d ns) = -378691200 + uint (coarse t) - sint (leap_seconds conv)"
    using assms(1) u(2,3) unfolding time_laws_def by blast
  then show ?thesis
    using fine_ns_bounds [of "fine t"] by (simp only: tai_to_utc_def Let_def u(1) option.case)
qed

lemma tai_word_back:
  fixes c :: u32
  assumes "leap_ok conv"
  shows "(word_of_int (-378691200 + uint c - sint (leap_seconds conv)) :: i64)
      - tai_epoch_unix_s + leap_seconds conv = ucast c"
    and "sint (ucast c :: i64) = uint c"
proof -
  have "(word_of_int (uint c) :: i64) = ucast c"
    by (simp add: unsigned_of_int flip: unsigned_ucast_eq)
  then show "(word_of_int (-378691200 + uint c - sint (leap_seconds conv)) :: i64)
      - tai_epoch_unix_s + leap_seconds conv = ucast c"
    by (simp add: tai_epoch_unix_s_def)
  have lo: "-9223372036854775808 \<le> uint c" and hi: "uint c < 9223372036854775808"
    using uint_u32_bounds [of c] by linarith+
  show "sint (ucast c :: i64) = uint c"
    unfolding \<open>word_of_int (uint c) = ucast c\<close> [symmetric]
    by (rule sint_small) (use lo hi in simp_all)
qed

lemma ucast_ucast_u32: "ucast (ucast (c :: u32) :: i64) = c"
  by (rule bit_word_eqI) (auto simp: bit_simps)

lemma rnd_exact:
  assumes "\<forall>n :: int. \<bar>n\<bar> \<le> 2 ^ 53 \<longrightarrow> rnd (of_int n) = Fin (of_int n)"
    and "a < 2 ^ LENGTH(32)" "d < 2 ^ LENGTH(32)" "n \<le> 2 ^ 52"
  shows "rnd (of_nat a + of_nat n) = Fin (of_nat (a + n))"
    and "rnd (of_nat (a + n) + - of_nat d) = Fin (of_int (int (a + n) - int d))"
  using assms(1) [rule_format, of "int (a + n)"] assms(1) [rule_format, of "int (a + n) - int d"]
    assms(2-4) by simp_all

lemma check_window_exact:
  assumes "\<forall>n :: int. \<bar>n\<bar> \<le> 2 ^ 53 \<longrightarrow> rnd (of_int n) = Fin (of_int n)" and "n \<le> 2 ^ 52"
  shows "check_validity_window rnd d now (Fin (of_nat n)) =
    (if unat (coarse now) + n > unat (coarse d)
     then Inl (WindowExpired (Fin (of_int (int (unat (coarse now) + n) - int (unat (coarse d))))))
     else Inr ())"
proof -
  have b: "unat (coarse now) < 2 ^ LENGTH(32)" "unat (coarse d) < 2 ^ LENGTH(32)"
    by (rule unsigned_less)+
  note r1 = rnd_exact(1) [OF assms(1) b assms(2)] and r2 = rnd_exact(2) [OF assms(1) b assms(2)]
  have gt: "(of_nat (unat (coarse d)) :: rat) < of_nat (unat (coarse now) + n) \<longleftrightarrow>
      unat (coarse d) < unat (coarse now) + n"
    by (rule of_nat_less_iff)
  show ?thesis
    unfolding check_validity_window_def Let_def f64_of_u32_def f64_add.simps r1 f64_gt.simps gt
      f64_sub_def f64_neg.simps r2 ..
qed

section \<open>Rounding\<close>

text \<open>
  What the code relies on of IEEE 754 double precision: rounding is monotone and never gives NaN,
  and a value with at most 53 significant bits in the exponent range is its own rounding.
\<close>

definition ieee_rounding :: "(rat \<Rightarrow> f64) \<Rightarrow> bool" where
  "ieee_rounding rnd \<longleftrightarrow>
     (\<forall>a b. a \<le> b \<longrightarrow> rnd a \<noteq> NaN \<and> \<not> f64_gt (rnd a) (rnd b))
     \<and> (\<forall>(m :: int) j. \<bar>m\<bar> \<le> 2 ^ 53 \<longrightarrow> j \<le> 1074 \<longrightarrow> rnd (of_int m / 2 ^ j) = Fin (of_int m / 2 ^ j))"

definition tai_s :: "cuc \<Rightarrow> rat" where
  "tai_s t = of_nat (unat (coarse t))"

lemma rounds_exactly:
  "ieee_rounding rnd \<Longrightarrow> \<bar>m\<bar> \<le> 2 ^ 53 \<Longrightarrow> j \<le> 1074 \<Longrightarrow> rnd (of_int m / 2 ^ j) = Fin (of_int m / 2 ^ j)"
  by (simp add: ieee_rounding_def)

lemma rounds_monotone:
  "ieee_rounding rnd \<Longrightarrow> a \<le> b \<Longrightarrow> rnd a \<noteq> NaN \<and> \<not> f64_gt (rnd a) (rnd b)"
  by (simp add: ieee_rounding_def)

lemma tai_s_bounds: "0 \<le> int (unat (coarse t))" "int (unat (coarse t)) \<le> 4294967295"
  using uint_u32_bounds [of "coarse t"] by simp_all

lemma tai_s_exact:
  assumes "ieee_rounding rnd"
  shows "rnd (tai_s t) = Fin (tai_s t)" "rnd (tai_s t + 1 / 2 ^ 20) = Fin (tai_s t + 1 / 2 ^ 20)"
proof -
  let ?n = "int (unat (coarse t))"
  have b: "0 \<le> ?n" "?n \<le> 4294967295" by (rule tai_s_bounds)+
  show "rnd (tai_s t) = Fin (tai_s t)"
    using rounds_exactly [OF assms, of ?n 0] b by (simp add: tai_s_def)
  have late: "tai_s t + 1 / 2 ^ 20 = of_int (?n * 2 ^ 20 + 1) / 2 ^ 20"
    by (simp add: tai_s_def field_simps)
  have "\<bar>?n * 2 ^ 20 + 1\<bar> \<le> 2 ^ 53" using b by simp
  then show "rnd (tai_s t + 1 / 2 ^ 20) = Fin (tai_s t + 1 / 2 ^ 20)"
    unfolding late by (rule rounds_exactly [OF assms]) simp
qed

lemma check_window_fin:
  "check_validity_window rnd d now (Fin l) =
    (if f64_gt (rnd (tai_s now + l)) (Fin (tai_s d))
     then Inl (WindowExpired (f64_sub rnd (rnd (tai_s now + l)) (Fin (tai_s d)))) else Inr ())"
  by (simp add: check_validity_window_def Let_def f64_of_u32_def tai_s_def)

lemma f64_gt_trans_Fin: "\<not> f64_gt x y \<Longrightarrow> x = Fin a \<Longrightarrow> a > b \<Longrightarrow> y \<noteq> NaN \<Longrightarrow> f64_gt y (Fin b)"
  by (cases y) auto

lemma window_in_time:
  assumes "ieee_rounding rnd" "tai_s now + l \<le> tai_s d"
  shows "check_validity_window rnd d now (Fin l) = Inr ()"
  using rounds_monotone [OF assms] tai_s_exact(1) [OF assms(1), of d] by (simp add: check_window_fin)

lemma window_late:
  assumes "ieee_rounding rnd" "tai_s d + 1 / 2 ^ 20 \<le> tai_s now + l"
  shows "\<exists>by. check_validity_window rnd d now (Fin l) = Inl (WindowExpired by)"
proof -
  have "f64_gt (rnd (tai_s now + l)) (Fin (tai_s d))"
    using rounds_monotone [OF assms] rounds_monotone [OF assms(1) order_refl, of "tai_s now + l"]
      tai_s_exact(2) [OF assms(1), of d]
    by (intro f64_gt_trans_Fin [of "rnd (tai_s d + 1 / 2 ^ 20)" _ "tai_s d + 1 / 2 ^ 20"]) auto
  then show ?thesis by (simp add: check_window_fin)
qed

lemma window_exact:
  assumes "ieee_rounding rnd" "j \<le> 1074"
    and "\<bar>int (unat (coarse now)) * 2 ^ j + m\<bar> \<le> 2 ^ 53"
    and "\<bar>(int (unat (coarse now)) - int (unat (coarse d))) * 2 ^ j + m\<bar> \<le> 2 ^ 53"
  shows "check_validity_window rnd d now (Fin (of_int m / 2 ^ j)) =
    (if tai_s now + of_int m / 2 ^ j > tai_s d
     then Inl (WindowExpired (Fin (tai_s now + of_int m / 2 ^ j - tai_s d))) else Inr ())"
proof -
  have "tai_s now + of_int m / 2 ^ j = of_int (int (unat (coarse now)) * 2 ^ j + m) / 2 ^ j"
    by (simp add: tai_s_def field_simps)
  then have sum: "rnd (tai_s now + of_int m / 2 ^ j) = Fin (tai_s now + of_int m / 2 ^ j)"
    using rounds_exactly [OF assms(1,3,2)] by simp
  have "tai_s now + of_int m / 2 ^ j + - tai_s d =
      of_int ((int (unat (coarse now)) - int (unat (coarse d))) * 2 ^ j + m) / 2 ^ j"
    by (simp add: tai_s_def field_simps)
  then have diff: "rnd (tai_s now + of_int m / 2 ^ j + - tai_s d) = Fin (tai_s now + of_int m / 2 ^ j + - tai_s d)"
    using rounds_exactly [OF assms(1,4,2)] by simp
  show ?thesis
    by (simp only: check_window_fin sum f64_gt.simps f64_sub_def f64_neg.simps f64_add.simps diff) simp
qed

section \<open>Properties\<close>

text \<open>
  A time stamp survives the trip to UTC and back to the second: for a calendar that obeys
  \<open>time_laws\<close> and a leap-second offset below \<open>2 ^ 31\<close> in magnitude, every CUC time comes back with the
  same coarse field and a zero fine field.
\<close>

theorem tai_utc_roundtrip:
  assumes "time_laws tc" "leap_ok conv"
  shows "utc_to_tai tc conv (tai_to_utc tc conv t) = t\<lparr>fine := 0\<rparr>"
proof -
  have "0 \<le> uint (coarse t) \<and> uint (coarse t) < 2 ^ 32"
    using uint_u32_bounds [of "coarse t"] by simp
  then show ?thesis
    unfolding utc_to_tai_def tai_to_utc_unix [OF assms] Let_def tai_word_back [OF assms(2)]
      ucast_ucast_u32 by (cases t) simp
qed

text \<open>A calendar of seconds and nanoseconds that obeys the laws.\<close>

definition example_calendar :: "(int \<times> int) time_crate" where
  "example_calendar =
     \<lparr>tc_from_unix = (\<lambda>s. if -377705116800 \<le> s \<and> s \<le> 253402300799 then Some (s, 0) else None),
      tc_epoch = (0, 0),
      tc_add_ns = (\<lambda>(s, n) m. (s + (n + m) div 1000000000, (n + m) mod 1000000000)),
      tc_unix = fst,
      tc_rfc3339 = (\<lambda>_. None)\<rparr>"

lemma example_calendar_laws: "time_laws example_calendar"
  by (simp add: time_laws_def example_calendar_def)

theorem tai_utc_roundtrip_witness:
  "utc_to_tai example_calendar (converter_new 37)
     (tai_to_utc example_calendar (converter_new 37) \<lparr>coarse = 2000000000, fine = 9\<rparr>)
   = \<lparr>coarse = 2000000000, fine = 0\<rparr>"
  using tai_utc_roundtrip [OF example_calendar_laws, of "converter_new 37"
      "\<lparr>coarse = 2000000000, fine = 9\<rparr>"]
  by (simp add: leap_ok_def converter_new_def)

text \<open>
  C35: The validity check, for every light time that an \<open>f64\<close> can hold.  With the rounding of IEEE
  double precision, a command that arrives in time is always accepted; one that would arrive
  \<open>2 ^ -20\<close> seconds late or later is always refused; and when the sum and the excess need no more
  than 53 bits, so for light times in whole or fractional seconds that lose no digit in the sum,
  the check is exact and the error carries the excess.  An infinite light time is refused and a
  light time of minus infinity or NaN is accepted.
\<close>

theorem validity_window_exact:
  assumes "ieee_rounding rnd"
  shows "(tai_s now + l \<le> tai_s d \<longrightarrow> check_validity_window rnd d now (Fin l) = Inr ())
    \<and> (tai_s d + 1 / 2 ^ 20 \<le> tai_s now + l \<longrightarrow>
        (\<exists>by. check_validity_window rnd d now (Fin l) = Inl (WindowExpired by)))
    \<and> (j \<le> 1074 \<longrightarrow> \<bar>int (unat (coarse now)) * 2 ^ j + m\<bar> \<le> 2 ^ 53 \<longrightarrow>
        \<bar>(int (unat (coarse now)) - int (unat (coarse d))) * 2 ^ j + m\<bar> \<le> 2 ^ 53 \<longrightarrow>
        check_validity_window rnd d now (Fin (of_int m / 2 ^ j)) =
          (if tai_s now + of_int m / 2 ^ j > tai_s d
           then Inl (WindowExpired (Fin (tai_s now + of_int m / 2 ^ j - tai_s d))) else Inr ()))
    \<and> check_validity_window rnd d now PosInf = Inl (WindowExpired PosInf)
    \<and> check_validity_window rnd d now NegInf = Inr ()
    \<and> check_validity_window rnd d now NaN = Inr ()"
proof (intro conjI impI)
  show "check_validity_window rnd d now PosInf = Inl (WindowExpired PosInf)"
    "check_validity_window rnd d now NegInf = Inr ()" "check_validity_window rnd d now NaN = Inr ()"
    by (simp_all add: check_validity_window_def f64_of_u32_def f64_sub_def)
qed (use assms window_in_time window_late window_exact in blast)+

text \<open>Rounding down to multiples of \<open>2 ^ -1074\<close> obeys the laws and is not exact.\<close>

definition floor_rounding :: "rat \<Rightarrow> f64" where
  "floor_rounding q = Fin (of_int \<lfloor>q * 2 ^ 1074\<rfloor> / 2 ^ 1074)"

lemma floor_multiple:
  assumes "j \<le> n"
  shows "of_int \<lfloor>of_int m / 2 ^ j * 2 ^ n :: rat\<rfloor> / 2 ^ n = (of_int m / 2 ^ j :: rat)"
proof -
  have "(2 :: rat) ^ n = 2 ^ j * 2 ^ (n - j)"
    using assms by (simp flip: power_add)
  then have "of_int m / 2 ^ j * 2 ^ n = (of_int (m * 2 ^ (n - j)) :: rat)" by simp
  then have "of_int \<lfloor>of_int m / 2 ^ j * 2 ^ n :: rat\<rfloor> = (of_int m / 2 ^ j * 2 ^ n :: rat)"
    by (simp only: floor_of_int)
  then have "of_int \<lfloor>of_int m / 2 ^ j * 2 ^ n :: rat\<rfloor> / 2 ^ n = (of_int m / 2 ^ j * 2 ^ n / 2 ^ n :: rat)"
    by (rule arg_cong)
  also have "\<dots> = of_int m / 2 ^ j" by (rule nonzero_mult_div_cancel_right) simp
  finally show ?thesis .
qed

lemma floor_rounding_laws: "ieee_rounding floor_rounding"
proof -
  have "\<not> f64_gt (floor_rounding a) (floor_rounding b)" if "a \<le> b" for a b
    unfolding floor_rounding_def f64_gt.simps not_less
    by (intro divide_right_mono of_int_le_iff [THEN iffD2] floor_mono mult_right_mono that) simp_all
  moreover have "floor_rounding (of_int m / 2 ^ j) = Fin (of_int m / 2 ^ j)" if "j \<le> 1074" for m j
    unfolding floor_rounding_def floor_multiple [OF that] ..
  moreover have "floor_rounding q \<noteq> NaN" for q by (simp add: floor_rounding_def)
  ultimately show ?thesis by (simp add: ieee_rounding_def)
qed

theorem validity_window_exact_witness:
  "check_validity_window floor_rounding \<lparr>coarse = 1000, fine = 0\<rparr> \<lparr>coarse = 995, fine = 0\<rparr> (Fin (19 / 4)) = Inr ()
   \<and> (\<exists>by. check_validity_window floor_rounding \<lparr>coarse = 1000, fine = 0\<rparr> \<lparr>coarse = 995, fine = 0\<rparr> (Fin (16 / 3))
       = Inl (WindowExpired by))
   \<and> check_validity_window floor_rounding \<lparr>coarse = 1000, fine = 0\<rparr> \<lparr>coarse = 995, fine = 0\<rparr> (Fin (11 / 2))
       = Inl (WindowExpired (Fin (1 / 2)))"
  using validity_window_exact [OF floor_rounding_laws, of "\<lparr>coarse = 995, fine = 0\<rparr>" "19 / 4" "\<lparr>coarse = 1000, fine = 0\<rparr>" 1 11]
    validity_window_exact [OF floor_rounding_laws, of "\<lparr>coarse = 995, fine = 0\<rparr>" "16 / 3" "\<lparr>coarse = 1000, fine = 0\<rparr>" 0 0]
  by (simp add: tai_s_def)

lemma nan_light_time_accepts: "check_validity_window rnd d now NaN = Inr ()"
  by (simp add: check_validity_window_def f64_of_u32_def)

end
