(* ===== verification/Ui_State.thy ===== *)
theory Ui_State
  imports Ui_Time Text Ingest_Types
begin

text \<open>
  The store and the handlers of the operator interface, \<open>rust/ground_station/src/ui/mod.rs\<close>, and the
  queue entry of \<open>uplink/dispatcher.rs\<close>.  A handler is a function of the store; the locks make
  every access atomic.  JSON serialisation, the WebSocket transport and the static file server
  belong to \<open>serde\<close>, \<open>axum\<close> and \<open>tower\<close>; the snapshot takes the serialiser as an argument.
\<close>

section \<open>Surfaces\<close>

record hk_frame =
  hf_timestamp_utc :: string
  hf_data :: bytes

record hk_snapshot =
  hs_asset :: string
  hs_apid :: u16
  hs_frames :: "hk_frame list"

record event_entry =
  ee_timestamp_utc :: string
  ee_apid :: u16
  ee_severity :: u8
  ee_message :: string

record cfdp_status =
  cs_transaction_id :: u32
  cs_source_entity :: u16
  cs_dest_entity :: u16
  cs_progress_pct :: f64
  cs_complete :: bool

record mfile_status =
  ms_transaction_id :: u32
  ms_total_chunks :: u32
  ms_received_chunks :: u32
  ms_gaps :: "(u32 \<times> u32) list"

datatype link_variant = VAos | VLos | VDegraded

record link_state_dto =
  ls_state :: link_variant
  ls_last_frame_utc :: "string option"

definition link_state_default :: link_state_dto where
  "link_state_default = \<lparr>ls_state = VLos, ls_last_frame_utc = None\<rparr>"

record cop1_status =
  c1_fop1_state :: string
  c1_window_occupancy :: u8
  c1_retransmit_count :: u8

definition cop1_default :: cop1_status where
  "cop1_default = \<lparr>c1_fop1_state = ''Initial'', c1_window_occupancy = 0, c1_retransmit_count = 0\<rparr>"

record time_authority =
  ta_tai_offset_s :: i64
  ta_drift_budget :: f64
  ta_sync_packet_age_ms :: u64
  ta_time_suspect_seen :: bool

text \<open>The drift budget is the decimal literal \<open>83.3\<close>; it is displayed, never computed with.\<close>

definition time_authority_default :: time_authority where
  "time_authority_default =
     \<lparr>ta_tai_offset_s = 37, ta_drift_budget = Fin (833 / 10), ta_sync_packet_age_ms = 0,
      ta_time_suspect_seen = False\<rparr>"

record tc_submit_request =
  tr_valid_until :: u32
  tr_apid :: "u16 option"
  tr_func_code :: "u16 option"

record tc_submit_response =
  tp_accepted :: bool

record tc_queue_entry =
  te_apid :: u16
  te_func_code :: u16
  te_payload :: bytes
  te_valid_until :: u32

record cfs_ros_link =
  cr_packets_routed :: u32
  cr_apid_rejects :: u32
  cr_tc_forwarded :: u32
  cr_uptime_s :: u32
  cr_cmd_counter :: u32
  cr_err_counter :: u32
  cr_last_hk_utc :: "string option"

text \<open>The \<open>f64\<close> of this surface is copied from the wire and kept as its bit pattern.\<close>

record ros_ground_link =
  rg_session_active :: bool
  rg_signal_strength :: u8
  rg_last_contact_bits :: u64
  rg_last_hk_utc :: "string option"

record fleet_dds_link =
  fd_health_mask :: u8
  fd_land_age_ms :: u32
  fd_uav_age_ms :: u32
  fd_cryo_age_ms :: u32
  fd_last_hk_utc :: "string option"

record link_health =
  lh_link :: string
  lh_apid :: u16
  lh_last_hk_utc :: "string option"

section \<open>The store\<close>

record 'ch ui_state =
  us_hk :: "hk_snapshot list"
  us_events :: "event_entry list"
  us_cfdp :: "cfdp_status list"
  us_mfile :: "mfile_status list"
  us_link :: link_state_dto
  us_cop1 :: cop1_status
  us_time_auth :: time_authority
  us_now_tai :: cuc
  us_light_time_s :: f64
  us_converter :: tai_utc_converter
  us_tc_tx :: 'ch

definition ui_state_new :: "i64 \<Rightarrow> 'ch \<Rightarrow> 'ch ui_state" where
  "ui_state_new leap tc_tx =
     \<lparr>us_hk = [], us_events = [], us_cfdp = [], us_mfile = [], us_link = link_state_default,
      us_cop1 = cop1_default, us_time_auth = time_authority_default,
      us_now_tai = \<lparr>coarse = 0, fine = 0\<rparr>, us_light_time_s = Fin 600,
      us_converter = converter_new leap, us_tc_tx = tc_tx\<rparr>"

section \<open>Handlers\<close>

definition get_hk :: "'ch ui_state \<Rightarrow> hk_snapshot list" where
  "get_hk st = us_hk st"

definition get_events :: "'ch ui_state \<Rightarrow> event_entry list" where
  "get_events st = us_events st"

definition get_cfdp :: "'ch ui_state \<Rightarrow> cfdp_status list" where
  "get_cfdp st = us_cfdp st"

definition get_mfile :: "'ch ui_state \<Rightarrow> mfile_status list" where
  "get_mfile st = us_mfile st"

definition get_link :: "'ch ui_state \<Rightarrow> link_state_dto" where
  "get_link st = us_link st"

definition get_cop1 :: "'ch ui_state \<Rightarrow> cop1_status" where
  "get_cop1 st = us_cop1 st"

definition get_time_auth :: "'ch ui_state \<Rightarrow> time_authority" where
  "get_time_auth st = us_time_auth st"

definition get_rover :: "'ch ui_state \<Rightarrow> hk_snapshot list" where
  "get_rover st = filter (\<lambda>s. 0x300 \<le> hs_apid s \<and> hs_apid s \<le> 0x43F) (us_hk st)"

definition latest_hk_frame :: "hk_snapshot list \<Rightarrow> u16 \<Rightarrow> hk_frame option" where
  "latest_hk_frame hk a =
     (case find (\<lambda>s. hs_apid s = a) hk of
        None \<Rightarrow> None
      | Some s \<Rightarrow> if hs_frames s = [] then None else Some (last (hs_frames s)))"

definition read_le_u32 :: "bytes \<Rightarrow> nat \<Rightarrow> u32" where
  "read_le_u32 d offset =
     (case Option.bind (get_range d offset (offset + 4)) slice_le32 of None \<Rightarrow> 0 | Some n \<Rightarrow> n)"

definition read_be_u32 :: "bytes \<Rightarrow> nat \<Rightarrow> u32" where
  "read_be_u32 d offset =
     (case Option.bind (get_range d offset (offset + 4)) slice_be32 of None \<Rightarrow> 0 | Some n \<Rightarrow> n)"

definition read_be_f64 :: "bytes \<Rightarrow> nat \<Rightarrow> u64" where
  "read_be_f64 d offset =
     (case Option.bind (get_range d offset (offset + 8)) slice_be64 of None \<Rightarrow> 0 | Some n \<Rightarrow> n)"

definition build_links_health :: "hk_snapshot list \<Rightarrow> link_health list" where
  "build_links_health hk =
     map (\<lambda>(a, name). \<lparr>lh_link = name, lh_apid = a,
            lh_last_hk_utc = map_option hf_timestamp_utc (latest_hk_frame hk a)\<rparr>)
       [(0x128, ''cfs-ros''), (0x129, ''ros-ground''), (0x160, ''fleet-dds'')]"

definition get_cfs_ros_link :: "'ch ui_state \<Rightarrow> cfs_ros_link" where
  "get_cfs_ros_link st =
     (case latest_hk_frame (us_hk st) 0x128 of
        Some fr \<Rightarrow>
          (let d = hf_data fr in
           \<lparr>cr_packets_routed = read_le_u32 d 0, cr_apid_rejects = read_le_u32 d 4,
            cr_tc_forwarded = read_le_u32 d 8, cr_uptime_s = read_le_u32 d 12,
            cr_cmd_counter = read_le_u32 d 16, cr_err_counter = read_le_u32 d 20,
            cr_last_hk_utc = Some (hf_timestamp_utc fr)\<rparr>)
      | None \<Rightarrow>
          \<lparr>cr_packets_routed = 0, cr_apid_rejects = 0, cr_tc_forwarded = 0, cr_uptime_s = 0,
           cr_cmd_counter = 0, cr_err_counter = 0, cr_last_hk_utc = None\<rparr>)"

definition get_ros_ground_link :: "'ch ui_state \<Rightarrow> ros_ground_link" where
  "get_ros_ground_link st =
     (case latest_hk_frame (us_hk st) 0x129 of
        Some fr \<Rightarrow>
          (let d = hf_data fr in
           \<lparr>rg_session_active = ((case get_at d 0 of None \<Rightarrow> 0 | Some b \<Rightarrow> b) \<noteq> 0),
            rg_signal_strength = (case get_at d 1 of None \<Rightarrow> 0 | Some b \<Rightarrow> b),
            rg_last_contact_bits = read_be_f64 d 2,
            rg_last_hk_utc = Some (hf_timestamp_utc fr)\<rparr>)
      | None \<Rightarrow>
          \<lparr>rg_session_active = False, rg_signal_strength = 0, rg_last_contact_bits = 0,
           rg_last_hk_utc = None\<rparr>)"

definition get_fleet_dds_link :: "'ch ui_state \<Rightarrow> fleet_dds_link" where
  "get_fleet_dds_link st =
     (case latest_hk_frame (us_hk st) 0x160 of
        Some fr \<Rightarrow>
          (let d = hf_data fr in
           \<lparr>fd_health_mask = (case get_at d 0 of None \<Rightarrow> 0 | Some b \<Rightarrow> b),
            fd_land_age_ms = read_be_u32 d 1, fd_uav_age_ms = read_be_u32 d 5,
            fd_cryo_age_ms = read_be_u32 d 9, fd_last_hk_utc = Some (hf_timestamp_utc fr)\<rparr>)
      | None \<Rightarrow>
          \<lparr>fd_health_mask = 0, fd_land_age_ms = 0, fd_uav_age_ms = 0, fd_cryo_age_ms = 0,
           fd_last_hk_utc = None\<rparr>)"

section \<open>Submitting a telecommand\<close>

text \<open>
  The refusal is status 422 with the error's text; \<open>fmt1\<close> prints an \<open>f64\<close> with one decimal.
\<close>

definition validity_message :: "(f64 \<Rightarrow> string) \<Rightarrow> validity_error \<Rightarrow> string" where
  "validity_message fmt1 e =
     (case e of WindowExpired x \<Rightarrow> ''command validity window expired by '' @ fmt1 x @ '' s'')"

definition post_tc ::
  "(rat \<Rightarrow> f64) \<Rightarrow> (f64 \<Rightarrow> string) \<Rightarrow> ('ch \<Rightarrow> tc_queue_entry \<Rightarrow> 'ch option)
     \<Rightarrow> 'ch ui_state \<Rightarrow> tc_submit_request \<Rightarrow> ((nat \<times> string) + tc_submit_response) \<times> 'ch ui_state" where
  "post_tc rnd fmt1 try_send st req =
     (let valid_until = \<lparr>coarse = tr_valid_until req, fine = 0\<rparr> in
      case check_validity_window rnd valid_until (us_now_tai st) (us_light_time_s st) of
        Inl e \<Rightarrow> (Inl (422, validity_message fmt1 e), st)
      | Inr _ \<Rightarrow>
          (let entry = \<lparr>te_apid = (case tr_apid req of None \<Rightarrow> 0 | Some a \<Rightarrow> a),
                        te_func_code = (case tr_func_code req of None \<Rightarrow> 0 | Some f \<Rightarrow> f),
                        te_payload = [], te_valid_until = tr_valid_until req\<rparr>;
               st' = (case try_send (us_tc_tx st) entry of
                        Some tx' \<Rightarrow> st\<lparr>us_tc_tx := tx'\<rparr> | None \<Rightarrow> st)
           in (Inr \<lparr>tp_accepted = True\<rparr>, st')))"

section \<open>The snapshot\<close>

record ui_snapshot =
  sn_hk :: "hk_snapshot list"
  sn_events :: "event_entry list"
  sn_cfdp :: "cfdp_status list"
  sn_mfile :: "mfile_status list"
  sn_link :: link_state_dto
  sn_cop1 :: cop1_status
  sn_time_auth :: time_authority
  sn_links_health :: "link_health list"

definition build_snapshot :: "(ui_snapshot \<Rightarrow> string option) \<Rightarrow> 'ch ui_state \<Rightarrow> string" where
  "build_snapshot to_json st =
     (case to_json
        \<lparr>sn_hk = us_hk st, sn_events = us_events st, sn_cfdp = us_cfdp st, sn_mfile = us_mfile st,
         sn_link = us_link st, sn_cop1 = us_cop1 st, sn_time_auth = us_time_auth st,
         sn_links_health = build_links_health (us_hk st)\<rparr> of
        None \<Rightarrow> ''{}'' | Some s \<Rightarrow> s)"

text \<open>
  \<open>stream_snapshots\<close> sends one snapshot a second, of the state at that tick, until the client has
  gone; \<open>send\<close> is the socket.
\<close>

fun stream_snapshots ::
  "(ui_snapshot \<Rightarrow> string option) \<Rightarrow> ('k \<Rightarrow> string \<Rightarrow> 'k option) \<Rightarrow> 'ch ui_state list \<Rightarrow> 'k \<Rightarrow> 'k" where
  "stream_snapshots to_json send [] sock = sock"
| "stream_snapshots to_json send (st # sts) sock =
     (case send sock (build_snapshot to_json st) of
        None \<Rightarrow> sock
      | Some sock' \<Rightarrow> stream_snapshots to_json send sts sock')"

section \<open>The dispatcher\<close>

text \<open>
  \<open>run_dispatcher\<close> logs each entry with a running total; the log line is its arguments.
\<close>

fun run_dispatcher :: "u64 \<Rightarrow> tc_queue_entry list \<Rightarrow> (tc_queue_entry \<times> u64) list \<times> u64" where
  "run_dispatcher n [] = ([], n)"
| "run_dispatcher n (entry # rest) =
     (let n' = n + 1; (logs, final) = run_dispatcher n' rest
      in ((entry, n') # logs, final))"

section \<open>Properties\<close>

text \<open>
  A telecommand past its window goes nowhere; one within it is queued once.  For a
  whole-second light time, the handler refuses with status 422 and queues nothing when arrival
  would be later than the deadline; otherwise it answers \<open>accepted\<close>, and the queue, when it has
  room, has grown by one entry that carries the requested identifiers, the operator's deadline and
  an empty payload.  Nothing else of the store changes.
\<close>

theorem post_tc_window_guard:
  assumes "\<forall>n :: int. \<bar>n\<bar> \<le> 2 ^ 53 \<longrightarrow> rnd (of_int n) = Fin (of_int n)" and "n \<le> 2 ^ 52"
    and "us_light_time_s st = Fin (of_nat n)" and "fifo_send try_send contents"
  shows "if unat (coarse (us_now_tai st)) + n > unat (tr_valid_until req)
    then \<exists>msg. post_tc rnd fmt1 try_send st req = (Inl (422, msg), st)
    else \<exists>tx. post_tc rnd fmt1 try_send st req = (Inr \<lparr>tp_accepted = True\<rparr>, st\<lparr>us_tc_tx := tx\<rparr>)
      \<and> (tx = us_tc_tx st \<or> contents tx = contents (us_tc_tx st) @
           [\<lparr>te_apid = (case tr_apid req of None \<Rightarrow> 0 | Some a \<Rightarrow> a),
             te_func_code = (case tr_func_code req of None \<Rightarrow> 0 | Some f \<Rightarrow> f),
             te_payload = [], te_valid_until = tr_valid_until req\<rparr>])"
proof -
  let ?e = "\<lparr>te_apid = (case tr_apid req of None \<Rightarrow> 0 | Some a \<Rightarrow> a),
             te_func_code = (case tr_func_code req of None \<Rightarrow> 0 | Some f \<Rightarrow> f),
             te_payload = [], te_valid_until = tr_valid_until req\<rparr>"
  note v = check_window_exact [OF assms(1,2), of "\<lparr>coarse = tr_valid_until req, fine = 0\<rparr>" "us_now_tai st"]
  show ?thesis
  proof (cases "try_send (us_tc_tx st) ?e")
    case None
    then show ?thesis
      by (auto simp: post_tc_def Let_def assms(3) v intro: exI [of _ "us_tc_tx st"])
  next
    case (Some tx)
    then show ?thesis
      using fifo_sendD [OF assms(4) Some]
      by (auto simp: post_tc_def Let_def assms(3) v intro: exI [of _ tx])
  qed
qed

definition example_store :: "tc_queue_entry bqueue ui_state" where
  "example_store = ui_state_new 37 \<lparr>bq_cap = 1, bq_items = []\<rparr>"

theorem post_tc_window_guard_witness:
  "\<exists>msg. post_tc Fin (\<lambda>_. []) bq_try_send example_store
     \<lparr>tr_valid_until = 599, tr_apid = None, tr_func_code = None\<rparr> = (Inl (422, msg), example_store)"
proof -
  have "us_light_time_s example_store = Fin (of_nat 600)"
    by (simp add: example_store_def ui_state_new_def)
  from post_tc_window_guard [OF _ _ this fifo_send_bqueue, of Fin
      "\<lparr>tr_valid_until = 599, tr_apid = None, tr_func_code = None\<rparr>"]
  show ?thesis by (simp add: example_store_def ui_state_new_def)
qed

text \<open>
  The full queue is invisible to the operator: with a clock that is never advanced and the
  default light time of 600 s, a request whose deadline is at least 600 is answered \<open>accepted\<close>
  although no entry is queued.
\<close>

theorem full_queue_reported_accepted:
  assumes "\<forall>n :: int. \<bar>n\<bar> \<le> 2 ^ 53 \<longrightarrow> rnd (of_int n) = Fin (of_int n)"
    and "600 \<le> unat (tr_valid_until req)" and "\<forall>entry. try_send tx entry = None"
  shows "post_tc rnd fmt1 try_send (ui_state_new leap tx) req =
    (Inr \<lparr>tp_accepted = True\<rparr>, ui_state_new leap tx)"
proof -
  have "rnd (of_int 600) = Fin 600"
    using assms(1) [rule_format, of 600] by simp
  moreover have "(600 :: rat) \<le> of_nat (unat (tr_valid_until req))"
    using assms(2) by (metis of_nat_le_iff of_nat_numeral)
  ultimately show ?thesis
    using assms(3)
    by (simp add: post_tc_def ui_state_new_def check_validity_window_def f64_of_u32_def Let_def)
qed

theorem full_queue_reported_accepted_witness:
  "post_tc Fin (\<lambda>_. []) (\<lambda>_ _. None) (ui_state_new 37 ()) \<lparr>tr_valid_until = 700, tr_apid = None, tr_func_code = None\<rparr>
     = (Inr \<lparr>tp_accepted = True\<rparr>, ui_state_new 37 ())"
  by (rule full_queue_reported_accepted) simp_all

end
