(* ===== verification/Ingest_Sinks.thy ===== *)
theory Ingest_Sinks
  imports Ui_State Ccsds_Packet
begin

text \<open>
  The housekeeping and event sinks, \<open>rust/ground_station/src/ingest/sinks.rs\<close>.  Both drain loops
  are a fold of the packet processor over the received packets; the two housekeeping channels
  share one store behind a lock, so any interleaving of theirs is one such sequence.  The clock
  read by the fallback time stamp is an argument paired with each packet.
\<close>

definition hk_frames_per_apid :: nat where
  "hk_frames_per_apid = 20"

definition event_ring_max :: nat where
  "event_ring_max = 500"

definition hdr_len :: nat where
  "hdr_len = 16"

definition extract_apid :: "bytes \<Rightarrow> u16 option" where
  "extract_apid bs =
     Option.bind (get_at bs 0) (\<lambda>b0. Option.bind (get_at bs 1) (\<lambda>b1.
       Some (push_bit 8 (ucast (b0 AND 0x07)) OR ucast b1)))"

definition extract_utc :: "'dt time_crate \<Rightarrow> tai_utc_converter \<Rightarrow> 'dt \<Rightarrow> bytes \<Rightarrow> string" where
  "extract_utc tc conv now bs =
     (let fallback = (case tc_rfc3339 tc now of None \<Rightarrow> [] | Some s \<Rightarrow> s) in
      case get_from bs 6 of
        None \<Rightarrow> fallback
      | Some sec_slice \<Rightarrow>
          (case secondary_decode sec_slice of
             Inr hdr \<Rightarrow> tai_to_iso8601 tc conv (sh_time hdr)
           | Inl _ \<Rightarrow> fallback))"

definition apid_to_asset :: "u16 \<Rightarrow> string" where
  "apid_to_asset a =
     (if a = 0x100 then ''sample_app''
      else if a = 0x101 then ''orbiter_cdh''
      else if a = 0x110 then ''orbiter_adcs''
      else if a = 0x111 then ''orbiter_adcs_wheel''
      else if a = 0x120 then ''orbiter_comm''
      else if a = 0x128 then ''ros2_bridge''
      else if a = 0x129 then ''prx1_link_state''
      else if a = 0x130 then ''orbiter_power''
      else if a = 0x140 then ''orbiter_payload''
      else if a = 0x160 then ''fleet_monitor''
      else if a = 0x300 then ''rover_land''
      else if a = 0x301 then ''rover_land_2''
      else if a = 0x302 then ''rover_land_3''
      else if a = 0x3C0 then ''rover_uav''
      else if a = 0x3C1 then ''rover_uav_2''
      else if a = 0x3C2 then ''rover_uav_3''
      else if a = 0x3C3 then ''rover_uav_4''
      else if a = 0x3C4 then ''rover_uav_5''
      else if a = 0x400 then ''rover_cryobot''
      else ''apid_0x'' @ zero_pad 3 (hex_string (unat a)))"

text \<open>\<open>frames.push(x)\<close> followed by \<open>drain(..excess)\<close>.\<close>

definition ring_push :: "nat \<Rightarrow> 'a list \<Rightarrow> 'a \<Rightarrow> 'a list" where
  "ring_push cap xs x =
     (let ys = xs @ [x] in if length ys > cap then drop (length ys - cap) ys else ys)"

definition hk_frame_of :: "'dt time_crate \<Rightarrow> tai_utc_converter \<Rightarrow> 'dt \<Rightarrow> bytes \<Rightarrow> hk_frame" where
  "hk_frame_of tc conv now bs =
     \<lparr>hf_timestamp_utc = extract_utc tc conv now bs,
      hf_data = (case get_from bs hdr_len of None \<Rightarrow> [] | Some d \<Rightarrow> d)\<rparr>"

text \<open>\<open>iter_mut().find(..)\<close> updates the first snapshot of the APID.\<close>

fun hk_upsert :: "hk_snapshot list \<Rightarrow> u16 \<Rightarrow> hk_frame \<Rightarrow> hk_snapshot list" where
  "hk_upsert [] a fr = [\<lparr>hs_asset = apid_to_asset a, hs_apid = a, hs_frames = [fr]\<rparr>]"
| "hk_upsert (s # hk) a fr =
     (if hs_apid s = a
      then s\<lparr>hs_frames := ring_push hk_frames_per_apid (hs_frames s) fr\<rparr> # hk
      else s # hk_upsert hk a fr)"

definition process_hk_packet ::
  "'dt time_crate \<Rightarrow> 'dt \<Rightarrow> bytes \<Rightarrow> 'ch ui_state \<Rightarrow> 'ch ui_state" where
  "process_hk_packet tc now bs st =
     (case extract_apid bs of
        None \<Rightarrow> st
      | Some a \<Rightarrow> st\<lparr>us_hk := hk_upsert (us_hk st) a (hk_frame_of tc (us_converter st) now bs)\<rparr>)"

definition event_text :: "bytes \<Rightarrow> u8 \<times> string" where
  "event_text bs =
     (if length bs > hdr_len then
        let payload = (case get_from bs hdr_len of None \<Rightarrow> [] | Some p \<Rightarrow> p);
            severity = (case get_at payload 0 of None \<Rightarrow> 0 | Some b \<Rightarrow> b);
            msg_bytes = (case get_from payload 1 of None \<Rightarrow> [] | Some m \<Rightarrow> m)
        in (severity, from_utf8_lossy (takeWhile (\<lambda>b. b \<noteq> 0) msg_bytes))
      else (0, []))"

definition event_entry_of ::
  "'dt time_crate \<Rightarrow> tai_utc_converter \<Rightarrow> 'dt \<Rightarrow> u16 \<Rightarrow> bytes \<Rightarrow> event_entry" where
  "event_entry_of tc conv now a bs =
     (let (severity, msg) = event_text bs in
      \<lparr>ee_timestamp_utc = extract_utc tc conv now bs, ee_apid = a, ee_severity = severity,
       ee_message = msg\<rparr>)"

definition process_event_packet ::
  "'dt time_crate \<Rightarrow> 'dt \<Rightarrow> bytes \<Rightarrow> 'ch ui_state \<Rightarrow> 'ch ui_state" where
  "process_event_packet tc now bs st =
     (case extract_apid bs of
        None \<Rightarrow> st
      | Some a \<Rightarrow>
          st\<lparr>us_events := ring_push event_ring_max (us_events st)
                            (event_entry_of tc (us_converter st) now a bs)\<rparr>)"

definition drain_hk :: "'dt time_crate \<Rightarrow> ('dt \<times> bytes) list \<Rightarrow> 'ch ui_state \<Rightarrow> 'ch ui_state" where
  "drain_hk tc ps st = fold (\<lambda>(now, bs). process_hk_packet tc now bs) ps st"

definition drain_events :: "'dt time_crate \<Rightarrow> ('dt \<times> bytes) list \<Rightarrow> 'ch ui_state \<Rightarrow> 'ch ui_state" where
  "drain_events tc ps st = fold (\<lambda>(now, bs). process_event_packet tc now bs) ps st"

section \<open>Ring buffers keep the newest entries\<close>

definition newest :: "nat \<Rightarrow> 'a list \<Rightarrow> 'a list" where
  "newest n xs = drop (length xs - n) xs"

lemma length_newest [simp]: "length (newest n xs) = min n (length xs)"
  by (simp add: newest_def)

lemma newest_short: "length xs \<le> n \<Longrightarrow> newest n xs = xs"
  by (simp add: newest_def)

lemma ring_push_newest:
  assumes "0 < n"
  shows "ring_push n (newest n xs) x = newest n (xs @ [x])"
proof (cases "length xs < n")
  case True
  then show ?thesis by (simp add: ring_push_def newest_def Let_def)
next
  case False
  then have "Suc (length xs) - n = Suc (length xs - n)" "length xs - (length xs - n) = n"
    by simp_all
  with False assms show ?thesis
    by (simp add: ring_push_def newest_def Let_def drop_Suc drop_append flip: drop_Suc tl_drop)
qed

text \<open>
  A store that keeps the newest entries of one kind: \<open>entry\<close> reads the entry off an input of that
  kind, and \<open>entries\<close> reads the ring off the store.
\<close>

locale newest_store =
  fixes step :: "'i \<Rightarrow> 's \<Rightarrow> 's"
    and entry :: "'i \<Rightarrow> 'a option"
    and entries :: "'s \<Rightarrow> 'a list"
    and cap :: nat
  assumes cap_pos: "0 < cap"
    and step_entries: "entries (step i s) =
      (case entry i of None \<Rightarrow> entries s | Some x \<Rightarrow> ring_push cap (entries s) x)"
begin

definition inputs :: "'i list \<Rightarrow> 'a list" where
  "inputs is = List.map_filter entry is"

lemma fold_entries_from:
  "entries s = newest cap xs \<Longrightarrow> entries (fold step is s) = newest cap (xs @ inputs is)"
proof (induction "is" arbitrary: s xs)
  case Nil
  then show ?case by (simp add: inputs_def map_filter_simps)
next
  case (Cons i "is")
  show ?case
  proof (cases "entry i")
    case None
    then have "entries (step i s) = newest cap xs" by (simp add: step_entries Cons.prems)
    then show ?thesis
      using Cons.IH None by (simp add: inputs_def map_filter_simps)
  next
    case (Some x)
    then have "entries (step i s) = newest cap (xs @ [x])"
      by (simp add: step_entries Cons.prems ring_push_newest [OF cap_pos])
    then show ?thesis
      using Cons.IH [of "step i s" "xs @ [x]"] Some by (simp add: inputs_def map_filter_simps)
  qed
qed

lemma fold_entries: "entries s = [] \<Longrightarrow> entries (fold step is s) = newest cap (inputs is)"
  using fold_entries_from [of s "[]"] by (simp add: newest_def)

lemma fold_bounded: "entries s = [] \<Longrightarrow> length (entries (fold step is s)) \<le> cap"
  by (simp add: fold_entries)

end

section \<open>Housekeeping by APID\<close>

definition frames_of :: "hk_snapshot list \<Rightarrow> u16 \<Rightarrow> hk_frame list" where
  "frames_of hk a = (case find (\<lambda>s. hs_apid s = a) hk of None \<Rightarrow> [] | Some s \<Rightarrow> hs_frames s)"

lemma frames_of_simps [simp]:
  "frames_of [] a = []"
  "frames_of (s # hk) a = (if hs_apid s = a then hs_frames s else frames_of hk a)"
  by (simp_all add: frames_of_def)

lemma frames_of_upsert:
  "frames_of (hk_upsert hk b fr) a =
     (if a = b then ring_push hk_frames_per_apid (frames_of hk a) fr else frames_of hk a)"
  by (induction hk b fr rule: hk_upsert.induct)
    (auto simp: ring_push_def hk_frames_per_apid_def)

lemma hk_upsert_apids: "set (map hs_apid (hk_upsert hk a fr)) = insert a (set (map hs_apid hk))"
  by (induction hk a fr rule: hk_upsert.induct) auto

lemma process_hk_frame [simp]:
  "us_converter (process_hk_packet tc now bs st) = us_converter st"
  "us_converter (process_event_packet tc now bs st) = us_converter st"
  "us_hk (process_event_packet tc now bs st) = us_hk st"
  "us_events (process_hk_packet tc now bs st) = us_events st"
  by (simp_all add: process_hk_packet_def process_event_packet_def split: option.splits)

text \<open>
  The converter never changes, so a sink run is a run over stores that share one converter.
\<close>

definition hk_input :: "'dt time_crate \<Rightarrow> tai_utc_converter \<Rightarrow> u16 \<Rightarrow> 'dt \<times> bytes \<Rightarrow> hk_frame option" where
  "hk_input tc conv a p =
     (if extract_apid (snd p) = Some a then Some (hk_frame_of tc conv (fst p) (snd p)) else None)"

definition hk_step :: "'dt time_crate \<Rightarrow> tai_utc_converter \<Rightarrow> 'dt \<times> bytes \<Rightarrow> hk_snapshot list \<Rightarrow> hk_snapshot list" where
  "hk_step tc conv p hk =
     (case extract_apid (snd p) of
        None \<Rightarrow> hk | Some a \<Rightarrow> hk_upsert hk a (hk_frame_of tc conv (fst p) (snd p)))"

lemma process_hk_step:
  "process_hk_packet tc now bs st = st\<lparr>us_hk := hk_step tc (us_converter st) (now, bs) (us_hk st)\<rparr>"
  by (simp add: process_hk_packet_def hk_step_def split: option.splits)

lemma drain_hk_fold:
  "drain_hk tc ps st = st\<lparr>us_hk := fold (hk_step tc (us_converter st)) ps (us_hk st)\<rparr>"
proof (induction ps arbitrary: st)
  case (Cons p ps)
  obtain now bs where p: "p = (now, bs)" by fastforce
  show ?case
    using Cons [of "process_hk_packet tc now bs st"]
    by (simp add: drain_hk_def p process_hk_step)
qed (simp add: drain_hk_def)

interpretation hk_ring: newest_store "hk_step tc conv" "hk_input tc conv a" "\<lambda>hk. frames_of hk a"
  hk_frames_per_apid for tc conv a
  by unfold_locales
    (auto simp: hk_frames_per_apid_def hk_step_def hk_input_def frames_of_upsert split: option.splits)

section \<open>The event log\<close>

definition event_input :: "'dt time_crate \<Rightarrow> tai_utc_converter \<Rightarrow> 'dt \<times> bytes \<Rightarrow> event_entry option" where
  "event_input tc conv p =
     map_option (\<lambda>a. event_entry_of tc conv (fst p) a (snd p)) (extract_apid (snd p))"

definition event_step :: "'dt time_crate \<Rightarrow> tai_utc_converter \<Rightarrow> 'dt \<times> bytes \<Rightarrow> event_entry list \<Rightarrow> event_entry list" where
  "event_step tc conv p es =
     (case event_input tc conv p of None \<Rightarrow> es | Some e \<Rightarrow> ring_push event_ring_max es e)"

lemma drain_events_fold:
  "drain_events tc ps st = st\<lparr>us_events := fold (event_step tc (us_converter st)) ps (us_events st)\<rparr>"
proof (induction ps arbitrary: st)
  case (Cons p ps)
  obtain now bs where p: "p = (now, bs)" by fastforce
  have "process_event_packet tc now bs st = st\<lparr>us_events := event_step tc (us_converter st) p (us_events st)\<rparr>"
    by (simp add: process_event_packet_def event_step_def event_input_def p split: option.splits)
  then show ?case
    using Cons [of "process_event_packet tc now bs st"] by (simp add: drain_events_def p)
qed (simp add: drain_events_def)

interpretation event_ring: newest_store "event_step tc conv" "event_input tc conv" "\<lambda>es. es"
  event_ring_max for tc conv
  by unfold_locales (auto simp: event_ring_max_def event_step_def split: option.splits)

section \<open>Agreement with the packet parser\<close>

lemma extract_apid_parse:
  assumes "sp_parse bs = Inr k"
  shows "extract_apid bs = Some (apid_get (ph_apid (sp_primary k)))"
proof -
  have "6 \<le> length bs" using sp_parse_InrD(5) [OF assms] by simp
  then obtain b0 b1 b2 b3 b4 b5 r where bs: "bs = [b0, b1, b2, b3, b4, b5] @ r"
    using list_of_length_6 by blast
  show ?thesis
    using sp_parse_InrD(1) [OF assms]
    by (cases "sp_primary k") (auto simp: bs primary_decode_cons Let_def primary_new_def
        extract_apid_def get_at_def split: if_splits)
qed

lemma extract_utc_parse:
  assumes "sp_parse bs = Inr k"
  shows "extract_utc tc conv now bs = tai_to_iso8601 tc conv (sh_time (sp_secondary k))"
  using sp_parse_InrD(2,5) [OF assms] by (simp add: extract_utc_def get_from_def Let_def)

lemma hk_frame_of_parse:
  assumes "sp_parse bs = Inr k"
  shows "hk_frame_of tc conv now bs =
    \<lparr>hf_timestamp_utc = tai_to_iso8601 tc conv (sh_time (sp_secondary k)), hf_data = sp_user_data k\<rparr>"
  using sp_parse_InrD(4,5) [OF assms]
  by (simp add: hk_frame_of_def extract_utc_parse [OF assms] get_from_def hdr_len_def)

section \<open>Reading the last frame\<close>

lemma latest_hk_frame_eq:
  "latest_hk_frame hk a = (if frames_of hk a = [] then None else Some (last (frames_of hk a)))"
  by (auto simp: latest_hk_frame_def frames_of_def split: option.splits)

lemma ring_push_last: "0 < n \<Longrightarrow> ring_push n xs x \<noteq> [] \<and> last (ring_push n xs x) = x"
  by (auto simp: ring_push_def Let_def last_drop)

lemma latest_after_push:
  "extract_apid bs = Some a \<Longrightarrow>
    latest_hk_frame (us_hk (process_hk_packet tc now bs st)) b =
      (if b = a then Some (hk_frame_of tc (us_converter st) now bs) else latest_hk_frame (us_hk st) b)"
  by (simp add: process_hk_packet_def latest_hk_frame_eq frames_of_upsert ring_push_last
      hk_frames_per_apid_def)

definition le32 :: "u32 \<Rightarrow> bytes" where
  "le32 w = rev (be32 w)"

lemma slice_le32_le32 [simp]: "slice_le32 (le32 w) = Some w"
  by (rule be32_cases [of w]) (simp add: le32_def from_be32_inverse)

lemma length_le32 [simp]: "length (le32 w) = 4"
  by (simp add: le32_def)

lemma read_le_u32_at:
  "n = length xs \<Longrightarrow> read_le_u32 (xs @ le32 w @ ys) n = w"
  by (simp add: read_le_u32_def get_range_def)

lemma read_be_u32_at:
  "n = length xs \<Longrightarrow> read_be_u32 (xs @ be32 w @ ys) n = w"
  by (simp add: read_be_u32_def get_range_def)

lemma read_be_f64_at:
  "n = length xs \<Longrightarrow> read_be_f64 (xs @ be64 w @ ys) n = w"
  by (simp add: read_be_f64_def get_range_def)

lemma read_u32_short:
  "length d < n + 4 \<Longrightarrow> read_le_u32 d n = 0" "length d < n + 4 \<Longrightarrow> read_be_u32 d n = 0"
  by (simp_all add: read_le_u32_def read_be_u32_def get_range_def)

section \<open>Event text\<close>

lemma event_text_ascii:
  assumes "length hdr = 16" "is_ascii msg" "0 \<notin> set msg"
  shows "event_text (hdr @ sev # msg @ 0 # rest) = (sev, map byte_char msg)"
proof -
  have "takeWhile (\<lambda>b. b \<noteq> 0) (msg @ 0 # rest) = msg"
    using assms(3) by (induction msg) auto
  then show ?thesis
    using assms(1) from_utf8_lossy_valid [OF from_utf8_ascii [OF assms(2)]]
    by (simp add: event_text_def hdr_len_def get_from_def get_at_def Let_def)
qed

section \<open>Properties\<close>

text \<open>
  C25: The housekeeping store is, for every APID, the newest twenty frames in arrival order.
  Starting empty and after any sequence of packets from the two channels, the frames stored under
  an APID are the last twenty built from packets with this APID, and each APID has at most one
  snapshot, labelled with its asset.  The key is the APID alone: the instance identifier of the
  secondary header is not looked at, so the instances of an asset share one ring, where the
  architecture document (5.2 and 8.1) asks for a store per instance.
\<close>

theorem hk_store_newest_twenty:
  assumes "us_hk st = []"
  shows "frames_of (us_hk (drain_hk tc ps st)) a =
      newest 20 (List.map_filter (hk_input tc (us_converter st) a) ps)
    \<and> distinct (map hs_apid (us_hk (drain_hk tc ps st)))
    \<and> list_all (\<lambda>s. hs_asset s = apid_to_asset (hs_apid s)) (us_hk (drain_hk tc ps st))"
proof -
  define good :: "hk_snapshot list \<Rightarrow> bool" where "good hk \<longleftrightarrow> distinct (map hs_apid hk)
    \<and> list_all (\<lambda>s. hs_asset s = apid_to_asset (hs_apid s)) hk" for hk
  have "good hk \<Longrightarrow> good (hk_upsert hk a fr)" for hk a fr
    using hk_upsert_apids by (induction hk a fr rule: hk_upsert.induct) (auto simp: good_def image_iff)
  then have "good hk \<Longrightarrow> good (hk_step tc (us_converter st) p hk)" for p hk
    by (simp add: hk_step_def split: option.splits)
  then have "good hk \<Longrightarrow> good (fold (hk_step tc (us_converter st)) ps hk)" for hk
    by (induction ps arbitrary: hk) simp_all
  then have "good (us_hk (drain_hk tc ps st))"
    by (simp add: drain_hk_fold assms good_def)
  then show ?thesis
    using hk_ring.fold_entries [of "[]" a tc "us_converter st" ps]
    by (simp add: drain_hk_fold assms good_def hk_ring.inputs_def hk_frames_per_apid_def)
qed

text \<open>A housekeeping packet of some instance, with its instance and a number as payload.\<close>

definition example_hk_bytes :: "u8 \<Rightarrow> u8 \<Rightarrow> u8 \<Rightarrow> bytes" where
  "example_hk_bytes apid_low i n =
     [0x09, apid_low, 0xC0, n, 0, 11, 0x2F, 0, 0, 0, 0, 0, 0, 0, 2, i, i, n]"

definition example_hk_stream :: "((int \<times> int) \<times> bytes) list" where
  "example_hk_stream =
     map (\<lambda>n. ((0, 0), example_hk_bytes 0 (of_nat (n mod 2 + 1)) (of_nat n))) [0..<25]
       @ [((0, 0), example_hk_bytes 1 1 99), ((0, 0), [0x09])]"

lemma example_hk_stream_input:
  "map hf_data (List.map_filter (hk_input tc conv 0x100) example_hk_stream) =
     map (\<lambda>n. [of_nat (n mod 2 + 1), of_nat n]) [0..<25]"
proof -
  have "map hf_data (List.map_filter (hk_input tc conv 0x100)
      (map (\<lambda>n. (t, example_hk_bytes 0 (i n) (of_nat n))) ns)) = map (\<lambda>n. [i n, of_nat n]) ns" for t i ns
    by (induction ns) (simp_all add: map_filter_simps hk_input_def extract_apid_def example_hk_bytes_def
        hk_frame_of_def hdr_len_def get_at_def get_from_def)
  moreover have "List.map_filter f (xs @ ys) = List.map_filter f xs @ List.map_filter f ys"
    for f :: "(int \<times> int) \<times> bytes \<Rightarrow> hk_frame option" and xs ys
    by (simp add: List.map_filter_def)
  ultimately show ?thesis
    by (simp add: example_hk_stream_def map_filter_simps hk_input_def extract_apid_def get_at_def
        example_hk_bytes_def [of 1])
qed

theorem hk_store_newest_twenty_witness:
  "map hf_data (frames_of (us_hk (drain_hk example_calendar example_hk_stream (ui_state_new 37 ()))) 0x100) =
     map (\<lambda>n. [of_nat (n mod 2 + 1), of_nat n]) [5..<25]"
proof -
  have move: "map hf_data (newest n fs) = newest n (map hf_data fs)" for n fs
    by (simp add: newest_def drop_map)
  have "us_hk (ui_state_new 37 ()) = []" by (simp add: ui_state_new_def)
  note store = hk_store_newest_twenty [OF this, THEN conjunct1]
  show ?thesis
    by (simp only: store move example_hk_stream_input) (simp add: newest_def drop_map del: upt_Suc upt_rec_numeral)
qed

text \<open>
  The event log is the newest five hundred events in arrival order, and an event packet shows
  the text it carries: severity from the first payload byte and the ASCII message up to its
  terminator.
\<close>

theorem event_log_newest_500:
  assumes "us_events st = []" "is_ascii msg" "0 \<notin> set msg" "length hdr = 16"
  shows "us_events (drain_events tc ps st) =
      newest 500 (List.map_filter (event_input tc (us_converter st)) ps)
    \<and> ee_severity (event_entry_of tc conv now a (hdr @ sev # msg @ 0 # rest)) = sev
    \<and> ee_message (event_entry_of tc conv now a (hdr @ sev # msg @ 0 # rest)) = map byte_char msg"
  using event_ring.fold_entries [of "[]" tc "us_converter st" ps] event_text_ascii [OF assms(4,2,3)]
  by (simp add: drain_events_fold assms(1) event_ring.inputs_def event_ring_max_def event_entry_of_def)

theorem event_log_newest_500_witness:
  "ee_message (event_entry_of example_calendar (converter_new 37) (0, 0) 0x102
     (replicate 16 0 @ 3 # [72, 105] @ 0 # [])) = ''Hi''"
  using event_log_newest_500 [where st = "ui_state_new 37 ()" and msg = "[72, 105]" and
      hdr = "replicate 16 0" and tc = example_calendar and conv = "converter_new 37" and now = "(0, 0)"
      and a = "0x102" and sev = 3 and rest = "[]"]
  by (simp add: ui_state_new_def is_ascii_def byte_char_def char_of_def bit_0)

text \<open>
  The two multi-field link surfaces read back what the last packet carried: six little-endian
  counters for the bridge (APID 0x128) and a health mask with three big-endian ages for the fleet
  monitor (APID 0x160), with the time stamp of its secondary header.
\<close>

theorem link_surfaces_decode:
  assumes "sp_parse bs = Inr k"
  shows "(apid_get (ph_apid (sp_primary k)) = 0x128 \<and>
        sp_user_data k = le32 n1 @ le32 n2 @ le32 n3 @ le32 n4 @ le32 n5 @ le32 n6 @ rest \<longrightarrow>
      get_cfs_ros_link (process_hk_packet tc now bs st) =
        \<lparr>cr_packets_routed = n1, cr_apid_rejects = n2, cr_tc_forwarded = n3, cr_uptime_s = n4,
         cr_cmd_counter = n5, cr_err_counter = n6,
         cr_last_hk_utc = Some (tai_to_iso8601 tc (us_converter st) (sh_time (sp_secondary k)))\<rparr>)
    \<and> (apid_get (ph_apid (sp_primary k)) = 0x160 \<and>
        sp_user_data k = [hm] @ be32 n1 @ be32 n2 @ be32 n3 @ rest \<longrightarrow>
      get_fleet_dds_link (process_hk_packet tc now bs st) =
        \<lparr>fd_health_mask = hm, fd_land_age_ms = n1, fd_uav_age_ms = n2, fd_cryo_age_ms = n3,
         fd_last_hk_utc = Some (tai_to_iso8601 tc (us_converter st) (sh_time (sp_secondary k)))\<rparr>)"
proof (intro conjI impI; elim conjE)
  assume a: "apid_get (ph_apid (sp_primary k)) = 0x128"
    and d: "sp_user_data k = le32 n1 @ le32 n2 @ le32 n3 @ le32 n4 @ le32 n5 @ le32 n6 @ rest"
  let ?d = "le32 n1 @ le32 n2 @ le32 n3 @ le32 n4 @ le32 n5 @ le32 n6 @ rest"
  have "read_le_u32 ?d 0 = n1" "read_le_u32 ?d 4 = n2" "read_le_u32 ?d 8 = n3"
    "read_le_u32 ?d 12 = n4" "read_le_u32 ?d 16 = n5" "read_le_u32 ?d 20 = n6"
    using read_le_u32_at [of 0 "[]" n1] read_le_u32_at [of 4 "le32 n1" n2]
      read_le_u32_at [of 8 "le32 n1 @ le32 n2" n3] read_le_u32_at [of 12 "le32 n1 @ le32 n2 @ le32 n3" n4]
      read_le_u32_at [of 16 "le32 n1 @ le32 n2 @ le32 n3 @ le32 n4" n5]
      read_le_u32_at [of 20 "le32 n1 @ le32 n2 @ le32 n3 @ le32 n4 @ le32 n5" n6]
    by simp_all
  then show "get_cfs_ros_link (process_hk_packet tc now bs st) =
        \<lparr>cr_packets_routed = n1, cr_apid_rejects = n2, cr_tc_forwarded = n3, cr_uptime_s = n4,
         cr_cmd_counter = n5, cr_err_counter = n6,
         cr_last_hk_utc = Some (tai_to_iso8601 tc (us_converter st) (sh_time (sp_secondary k)))\<rparr>"
    using latest_after_push [OF extract_apid_parse [OF assms], of tc now st "0x128"]
    by (simp add: get_cfs_ros_link_def a hk_frame_of_parse [OF assms] d Let_def)
next
  assume a: "apid_get (ph_apid (sp_primary k)) = 0x160"
    and d: "sp_user_data k = [hm] @ be32 n1 @ be32 n2 @ be32 n3 @ rest"
  let ?d = "[hm] @ be32 n1 @ be32 n2 @ be32 n3 @ rest"
  have "read_be_u32 ?d 1 = n1" "read_be_u32 ?d 5 = n2" "read_be_u32 ?d 9 = n3"
    using read_be_u32_at [of 1 "[hm]" n1] read_be_u32_at [of 5 "[hm] @ be32 n1" n2]
      read_be_u32_at [of 9 "[hm] @ be32 n1 @ be32 n2" n3]
    by simp_all
  then show "get_fleet_dds_link (process_hk_packet tc now bs st) =
        \<lparr>fd_health_mask = hm, fd_land_age_ms = n1, fd_uav_age_ms = n2, fd_cryo_age_ms = n3,
         fd_last_hk_utc = Some (tai_to_iso8601 tc (us_converter st) (sh_time (sp_secondary k)))\<rparr>"
    using latest_after_push [OF extract_apid_parse [OF assms], of tc now st "0x160"]
    by (simp add: get_fleet_dds_link_def a hk_frame_of_parse [OF assms] d Let_def get_at_def)
qed

theorem link_surfaces_decode_witness:
  "\<exists>bs. fd_land_age_ms (get_fleet_dds_link (process_hk_packet example_calendar (0, 0) bs (ui_state_new 37 ()))) = 77"
proof -
  define b where "b = with_user_data ([7] @ be32 77 @ be32 78 @ be32 79) (with_instance_id (InstanceId 1)
     (with_func_code (FuncCode 5) (builder_tm (Apid 0x160))))"
  have ok: "builder_ok b"
    by (simp add: b_def builder_ok_def with_user_data_def with_instance_id_def with_func_code_def
        builder_tm_def builder_new_def apid_ok_def apid_max_def fc_ok_def iid_ok_def)
  obtain bs where bs: "builder_build b = Inr bs"
    by (simp add: b_def builder_build_eq with_user_data_def with_instance_id_def with_func_code_def
        builder_tm_def builder_new_def)
  obtain k where k: "sp_parse bs = Inr k" "apid_get (ph_apid (sp_primary k)) = 0x160"
    "sp_user_data k = [7] @ be32 77 @ be32 78 @ be32 79 @ []"
    using builder_parse [OF ok bs]
    by (auto simp: b_def builder_packet_def primary_new_def with_user_data_def with_instance_id_def
        with_func_code_def builder_tm_def builder_new_def)
  show ?thesis
    using link_surfaces_decode [OF k(1), where hm = 7 and ?n1.0 = 77 and ?n2.0 = 78 and ?n3.0 = 79
        and rest = "[]" and tc = example_calendar and now = "(0, 0)" and st = "ui_state_new 37 ()"] k(2,3)
    by (intro exI [of _ bs]) simp
qed

end
