(* ===== verification/Pipeline.thy ===== *)
theory Pipeline
  imports Ingest_Framer Ingest_Demux Ingest_Decoder Ingest_Router Ingest_Sinks
begin

text \<open>
  The task graph of \<open>rust/ground_station/src/main.rs\<close>: the framer, the demultiplexer, one decoder
  and one relay per virtual channel 0 to 3, the router and the sink tasks run concurrently and
  share only channels and the user-interface state.  Each step of the relation below is one turn
  of one task; a step that needs a message or room waits until there is one.  The channels of
  \<open>tokio\<close> are the records \<open>fo\<close>, \<open>bo\<close> and \<open>wo\<close> of their operations, for frames, for packets and
  for packets tagged with their virtual channel; the laws they are relied upon for are
  \<open>chan_laws\<close>.
\<close>

section \<open>Channels\<close>

record ('ch, 'a) chan_ops =
  ch_try_send :: "'ch \<Rightarrow> 'a \<Rightarrow> 'ch option"
  ch_recv :: "'ch \<Rightarrow> ('a \<times> 'ch) option"
  ch_items :: "'ch \<Rightarrow> 'a list"

definition chan_laws :: "('ch, 'a) chan_ops \<Rightarrow> bool" where
  "chan_laws ops \<longleftrightarrow> fifo_send (ch_try_send ops) (ch_items ops) \<and> fifo_recv (ch_recv ops) (ch_items ops)"

definition bqueue_ops :: "('a bqueue, 'a) chan_ops" where
  "bqueue_ops = \<lparr>ch_try_send = bq_try_send, ch_recv = bq_recv, ch_items = bq_items\<rparr>"

lemma bqueue_laws: "chan_laws bqueue_ops"
  by (simp add: chan_laws_def bqueue_ops_def fifo_send_bqueue fifo_recv_bqueue)

lemma chan_sendD: "chan_laws ops \<Longrightarrow> ch_try_send ops ch x = Some ch' \<Longrightarrow> ch_items ops ch' = ch_items ops ch @ [x]"
  by (simp add: chan_laws_def fifo_send_def)

lemma chan_recvD: "chan_laws ops \<Longrightarrow> ch_recv ops ch = Some (x, ch') \<Longrightarrow> ch_items ops ch = x # ch_items ops ch'"
  by (simp add: chan_laws_def fifo_recv_def)

section \<open>The state of the tasks\<close>

record ('f, 'b, 'w, 'q) pipeline =
  pl_frames :: 'f
  pl_demux :: "'f demux"
  pl_decoder :: "u8 \<Rightarrow> spp_decoder"
  pl_spp :: "u8 \<Rightarrow> 'b"
  pl_relay :: "u8 \<Rightarrow> bytes option"
  pl_tagged :: 'w
  pl_router :: apid_router
  pl_hk :: 'b
  pl_event :: 'b
  pl_cfdp :: 'b
  pl_rover :: 'b
  pl_ui :: "'q ui_state"

text \<open>The channels and tasks as \<open>main\<close> creates them; \<open>mk\<close> makes a channel of a capacity.\<close>

definition pipeline_new ::
  "(nat \<Rightarrow> 'f) \<Rightarrow> (nat \<Rightarrow> 'b) \<Rightarrow> (nat \<Rightarrow> 'w) \<Rightarrow> 'q \<Rightarrow> ('f, 'b, 'w, 'q) pipeline" where
  "pipeline_new mkf mkb mkw tc_tx =
     \<lparr>pl_frames = mkf aos_to_demux_cap, pl_demux = demux_default mkf, pl_decoder = decoder_new,
      pl_spp = (\<lambda>_. mkb spp_to_router_cap), pl_relay = (\<lambda>_. None),
      pl_tagged = mkw (spp_to_router_cap * 4), pl_router = router_new,
      pl_hk = mkb router_to_hk_cap, pl_event = mkb router_to_event_cap,
      pl_cfdp = mkb router_to_cfdp_cap, pl_rover = mkb router_to_rover_cap,
      pl_ui = ui_state_new 37 tc_tx\<rparr>"

text \<open>\<open>let _ = tx.try_send(bytes)\<close>: a full sink loses the packet silently.\<close>

definition offer :: "('b, bytes) chan_ops \<Rightarrow> 'b \<Rightarrow> bytes \<Rightarrow> 'b" where
  "offer bo ch bs = (case ch_try_send bo ch bs of None \<Rightarrow> ch | Some ch' \<Rightarrow> ch')"

text \<open>\<open>try_write\<close> on the time authority succeeds when \<open>lock_free\<close>.\<close>

definition mark_time_suspect :: "bool \<Rightarrow> 'q ui_state \<Rightarrow> 'q ui_state" where
  "mark_time_suspect lock_free ui =
     (if lock_free then ui\<lparr>us_time_auth := (us_time_auth ui)\<lparr>ta_time_suspect_seen := True\<rparr>\<rparr> else ui)"

definition clock_skew_apid :: u16 where
  "clock_skew_apid = 0x541"

text \<open>One turn of the router task.\<close>

definition router_turn ::
  "('b, bytes) chan_ops \<Rightarrow> bool \<Rightarrow> u8 \<Rightarrow> bytes \<Rightarrow> ('f, 'b, 'w, 'q) pipeline \<Rightarrow> ('f, 'b, 'w, 'q) pipeline" where
  "router_turn bo lock_free vc bs pl =
     (case sp_parse bs of
        Inl _ \<Rightarrow> pl
      | Inr pkt \<Rightarrow>
          (let (decision, r) = route_packet (pl_router pl) vc pkt; pl = pl\<lparr>pl_router := r\<rparr> in
           case decision of
             Hk \<Rightarrow> pl\<lparr>pl_hk := offer bo (pl_hk pl) bs\<rparr>
           | EventLog \<Rightarrow> pl\<lparr>pl_event := offer bo (pl_event pl) bs\<rparr>
           | CfdpPdu \<Rightarrow> pl\<lparr>pl_cfdp := offer bo (pl_cfdp pl) bs\<rparr>
           | RoverForward \<Rightarrow> pl\<lparr>pl_rover := offer bo (pl_rover pl) bs\<rparr>
           | IdleFill \<Rightarrow> pl
           | Rejected _ \<Rightarrow>
               (if apid_get (ph_apid (sp_primary pkt)) = clock_skew_apid
                then pl\<lparr>pl_ui := mark_time_suspect lock_free (pl_ui pl)\<rparr>
                else pl)))"

text \<open>One turn of the link-state subscriber; \<open>now_utc\<close> is the formatted clock.\<close>

fun link_variant_of :: "link_state \<Rightarrow> link_variant" where
  "link_variant_of Aos = VAos"
| "link_variant_of Los = VLos"
| "link_variant_of Degraded = VDegraded"

definition link_turn :: "string option \<Rightarrow> link_state \<Rightarrow> 'q ui_state \<Rightarrow> 'q ui_state" where
  "link_turn formatted ls ui =
     ui\<lparr>us_link := \<lparr>ls_state = link_variant_of ls,
        ls_last_frame_utc = Some (case formatted of None \<Rightarrow> [] | Some t \<Rightarrow> t)\<rparr>\<rparr>"

section \<open>From datagrams to the byte stream\<close>

text \<open>
  The UDP task: each datagram is cut to the receive buffer of sixteen frames and written to the
  pipe that the framer reads; the first receive error ends the task.
\<close>

definition udp_buf_len :: nat where
  "udp_buf_len = aos_frame_len * 16"

fun udp_bridge :: "(io_error + bytes) list \<Rightarrow> bytes" where
  "udp_bridge [] = []"
| "udp_bridge (Inr datagram # rest) = take udp_buf_len datagram @ udp_bridge rest"
| "udp_bridge (Inl e # rest) = []"

lemma bridged_frames:
  "list_all (\<lambda>d. length d = 1024) ds \<Longrightarrow> frames_in (udp_bridge (map Inr ds)) = ds"
  by (induction ds) (simp_all add: frames_in.simps udp_buf_len_def aos_frame_len_def)

text \<open>
  The pipe keeps no datagram boundaries: after a stray datagram shorter than a frame, every frame
  that the framer cuts spans two datagrams.
\<close>

lemma stray_datagram_shifts_frames:
  assumes "0 < length stray" "length stray < 1024" "length d = 1024" "length d' = 1024"
  shows "frames_in (udp_bridge (map Inr [stray, d, d'])) =
    [stray @ take (1024 - length stray) d,
     drop (1024 - length stray) d @ take (1024 - length stray) d']"
  using assms by (simp add: frames_in.simps udp_buf_len_def aos_frame_len_def)

section \<open>Steps\<close>

datatype pipeline_event =
    Framed aos_frame
  | Routed u8 bytes
  | Internal

definition served_vcs :: "u8 set" where
  "served_vcs = {0, 1, 2, 3}"

inductive pipeline_step ::
  "'dt time_crate \<Rightarrow> ('f, aos_frame) chan_ops \<Rightarrow> ('b, bytes) chan_ops \<Rightarrow> ('w, u8 \<times> bytes) chan_ops \<Rightarrow>
   ('f, 'b, 'w, 'q) pipeline \<Rightarrow> pipeline_event \<Rightarrow> ('f, 'b, 'w, 'q) pipeline \<Rightarrow> bool"
  for tc fo bo wo
where
  framed: "ch_try_send fo (pl_frames pl) fr = Some ch \<Longrightarrow>
    pipeline_step tc fo bo wo pl (Framed fr) (pl\<lparr>pl_frames := ch\<rparr>)"
| framed_lost: "ch_try_send fo (pl_frames pl) fr = None \<Longrightarrow>
    pipeline_step tc fo bo wo pl (Framed fr) pl"
| demux: "ch_recv fo (pl_frames pl) = Some (fr, ch) \<Longrightarrow>
    demux_dispatch (ch_try_send fo) (pl_demux pl) now fr = (outs, d) \<Longrightarrow>
    pipeline_step tc fo bo wo pl Internal (pl\<lparr>pl_frames := ch, pl_demux := d\<rparr>)"
| decode: "vc \<in> served_vcs \<Longrightarrow> dx_senders (pl_demux pl) vc = Some c \<Longrightarrow> ch_recv fo c = Some (fr, c') \<Longrightarrow>
    decoder_process (ch_try_send bo) (pl_decoder pl vc) (pl_spp pl vc) now fr = (outs, dec, tx) \<Longrightarrow>
    pipeline_step tc fo bo wo pl Internal
      (pl\<lparr>pl_demux := (pl_demux pl)\<lparr>dx_senders := (dx_senders (pl_demux pl))(vc \<mapsto> c')\<rparr>,
          pl_decoder := (pl_decoder pl)(vc := dec), pl_spp := (pl_spp pl)(vc := tx)\<rparr>)"
| relay_recv: "vc \<in> served_vcs \<Longrightarrow> pl_relay pl vc = None \<Longrightarrow> ch_recv bo (pl_spp pl vc) = Some (bs, ch) \<Longrightarrow>
    pipeline_step tc fo bo wo pl Internal
      (pl\<lparr>pl_spp := (pl_spp pl)(vc := ch), pl_relay := (pl_relay pl)(vc := Some bs)\<rparr>)"
| relay_send: "vc \<in> served_vcs \<Longrightarrow> pl_relay pl vc = Some bs \<Longrightarrow> ch_try_send wo (pl_tagged pl) (vc, bs) = Some ch \<Longrightarrow>
    pipeline_step tc fo bo wo pl Internal (pl\<lparr>pl_tagged := ch, pl_relay := (pl_relay pl)(vc := None)\<rparr>)"
| route: "ch_recv wo (pl_tagged pl) = Some ((vc, bs), ch) \<Longrightarrow>
    pipeline_step tc fo bo wo pl (Routed vc bs) (router_turn bo lock_free vc bs (pl\<lparr>pl_tagged := ch\<rparr>))"
| hk_sink: "ch_recv bo (pl_hk pl) = Some (bs, ch) \<Longrightarrow>
    pipeline_step tc fo bo wo pl Internal (pl\<lparr>pl_hk := ch, pl_ui := process_hk_packet tc utc bs (pl_ui pl)\<rparr>)"
| rover_sink: "ch_recv bo (pl_rover pl) = Some (bs, ch) \<Longrightarrow>
    pipeline_step tc fo bo wo pl Internal (pl\<lparr>pl_rover := ch, pl_ui := process_hk_packet tc utc bs (pl_ui pl)\<rparr>)"
| event_sink: "ch_recv bo (pl_event pl) = Some (bs, ch) \<Longrightarrow>
    pipeline_step tc fo bo wo pl Internal (pl\<lparr>pl_event := ch, pl_ui := process_event_packet tc utc bs (pl_ui pl)\<rparr>)"
| link_task: "pipeline_step tc fo bo wo pl Internal (pl\<lparr>pl_ui := link_turn formatted ls (pl_ui pl)\<rparr>)"

inductive pipeline_trace ::
  "'dt time_crate \<Rightarrow> ('f, aos_frame) chan_ops \<Rightarrow> ('b, bytes) chan_ops \<Rightarrow> ('w, u8 \<times> bytes) chan_ops \<Rightarrow>
   ('f, 'b, 'w, 'q) pipeline \<Rightarrow> pipeline_event list \<Rightarrow> ('f, 'b, 'w, 'q) pipeline \<Rightarrow> bool"
  for tc fo bo wo
where
  start: "pipeline_trace tc fo bo wo pl [] pl"
| extend: "pipeline_trace tc fo bo wo pl es pl' \<Longrightarrow> pipeline_step tc fo bo wo pl' e pl'' \<Longrightarrow>
    pipeline_trace tc fo bo wo pl (es @ [e]) pl''"

section \<open>What is in flight\<close>

text \<open>The payloads of one channel between the framer and the router, oldest first.\<close>

definition in_flight ::
  "('f, aos_frame) chan_ops \<Rightarrow> ('b, bytes) chan_ops \<Rightarrow> ('w, u8 \<times> bytes) chan_ops \<Rightarrow>
   ('f, 'b, 'w, 'q) pipeline \<Rightarrow> u8 \<Rightarrow> bytes list" where
  "in_flight fo bo wo pl vc =
     map snd (filter (\<lambda>p. fst p = vc) (ch_items wo (pl_tagged pl)))
     @ (case pl_relay pl vc of None \<Rightarrow> [] | Some bs \<Rightarrow> [bs])
     @ ch_items bo (pl_spp pl vc)
     @ map af_data (queued (ch_items fo) (pl_demux pl) vc)
     @ map af_data (filter (\<lambda>fr. af_vc_id fr = vc) (ch_items fo (pl_frames pl)))"

definition framed_on :: "u8 \<Rightarrow> pipeline_event list \<Rightarrow> bytes list" where
  "framed_on vc es =
     concat (map (\<lambda>e. case e of Framed fr \<Rightarrow> if af_vc_id fr = vc then [af_data fr] else [] | _ \<Rightarrow> []) es)"

definition routed_on :: "u8 \<Rightarrow> pipeline_event list \<Rightarrow> bytes list" where
  "routed_on vc es =
     concat (map (\<lambda>e. case e of Routed v bs \<Rightarrow> if v = vc then [bs] else [] | _ \<Rightarrow> []) es)"

lemma event_simps [simp]:
  "framed_on vc [] = []" "routed_on vc [] = []"
  "framed_on vc (es @ es') = framed_on vc es @ framed_on vc es'"
  "routed_on vc (es @ es') = routed_on vc es @ routed_on vc es'"
  "framed_on vc [Framed fr] = (if af_vc_id fr = vc then [af_data fr] else [])"
  "framed_on vc [Routed v bs] = []" "framed_on vc [Internal] = []"
  "routed_on vc [Routed v bs] = (if v = vc then [bs] else [])"
  "routed_on vc [Framed fr] = []" "routed_on vc [Internal] = []"
  by (simp_all add: framed_on_def routed_on_def)

lemma router_turn_frame [simp]:
  "pl_tagged (router_turn bo lf vc bs pl) = pl_tagged pl"
  "pl_relay (router_turn bo lf vc bs pl) = pl_relay pl"
  "pl_spp (router_turn bo lf vc bs pl) = pl_spp pl"
  "pl_demux (router_turn bo lf vc bs pl) = pl_demux pl"
  "pl_frames (router_turn bo lf vc bs pl) = pl_frames pl"
  by (simp_all add: router_turn_def Let_def split: sum.split prod.split route.split)

lemma dispatch_queued:
  assumes "chan_laws fo" "demux_dispatch (ch_try_send fo) d now fr = (outs, d')"
  shows "\<exists>sent. queued (ch_items fo) d' vc = queued (ch_items fo) d vc @ sent
    \<and> (sent = [] \<or> sent = [fr] \<and> af_vc_id fr = vc)"
  using queued_dispatch [of "ch_try_send fo" "ch_items fo" d now fr vc]
    accepted_on_dispatch [of vc "ch_try_send fo" d now fr] assms
  by (auto simp: chan_laws_def)

lemma decoder_sends:
  assumes "chan_laws bo" "decoder_process (ch_try_send bo) dec tx now fr = (outs, dec', tx')"
  shows "(ch_items bo tx' = ch_items bo tx @ [af_data fr] \<and> is_ok (sp_parse (af_data fr))) \<or> tx' = tx"
  by (rule decoder_process_cases [of fr "ch_try_send bo" tx dec now])
    (use assms in \<open>auto simp: split_beta chan_sendD\<close>)

lemma step_in_flight:
  assumes "pipeline_step tc fo bo wo pl e pl'" "chan_laws fo" "chan_laws bo" "chan_laws wo"
  shows "subseq (routed_on vc [e] @ in_flight fo bo wo pl' vc) (in_flight fo bo wo pl vc @ framed_on vc [e])"
  using assms(1)
proof cases
  case (framed fr ch)
  then show ?thesis using chan_sendD [OF assms(2)] by (simp add: in_flight_def queued_def)
next
  case (framed_lost fr)
  then show ?thesis by (simp add: subseq_rev_drop_many)
next
  case (demux fr ch now outs d)
  obtain sent where "queued (ch_items fo) d vc = queued (ch_items fo) (pl_demux pl) vc @ sent"
    "sent = [] \<or> sent = [fr] \<and> af_vc_id fr = vc"
    using dispatch_queued [OF assms(2) demux(4)] by blast
  then show ?thesis
    using demux(1,2) chan_recvD [OF assms(2) demux(3)]
    by (auto simp: in_flight_def intro!: list_emb_append_mono)
next
  case (decode v c fr c' now outs dec tx)
  have old: "queued (ch_items fo) (pl_demux pl) v = fr # ch_items fo c'"
    using decode(4) chan_recvD [OF assms(2) decode(5)] by (simp add: queued_def)
  have new: "queued (ch_items fo) ((pl_demux pl)\<lparr>dx_senders := (dx_senders (pl_demux pl))(v \<mapsto> c')\<rparr>) vc
      = (if vc = v then ch_items fo c' else queued (ch_items fo) (pl_demux pl) vc)"
    by (simp add: queued_def)
  show ?thesis
  proof (cases "v = vc")
    case True
    from decoder_sends [OF assms(3) decode(6)]
    have "ch_items bo tx = ch_items bo (pl_spp pl v) @ [af_data fr] \<or> tx = pl_spp pl v" by blast
    then show ?thesis
    proof
      assume "tx = pl_spp pl v"
      then show ?thesis
        using True decode(1,2) old new by (auto simp: in_flight_def intro!: list_emb_append_mono)
    qed (use True decode(1,2) old new in \<open>simp add: in_flight_def\<close>)
  next
    case False
    then show ?thesis using decode(1,2) new by (simp add: in_flight_def)
  qed
next
  case (relay_recv v bs ch)
  then show ?thesis
    using chan_recvD [OF assms(3) relay_recv(5)] by (auto simp: in_flight_def)
next
  case (relay_send v bs ch)
  then show ?thesis
    using chan_sendD [OF assms(4) relay_send(5)] by (auto simp: in_flight_def)
next
  case (route v bs ch lock_free)
  then show ?thesis
    using chan_recvD [OF assms(4) route(3)] by (auto simp: in_flight_def)
qed (simp_all add: in_flight_def)

lemma trace_in_flight:
  assumes "pipeline_trace tc fo bo wo pl es pl'" "chan_laws fo" "chan_laws bo" "chan_laws wo"
  shows "subseq (routed_on vc es @ in_flight fo bo wo pl' vc) (in_flight fo bo wo pl vc @ framed_on vc es)"
  using assms(1)
proof induction
  case (extend pl es pl' e pl'')
  have a: "subseq (routed_on vc es @ (routed_on vc [e] @ in_flight fo bo wo pl'' vc))
      (routed_on vc es @ (in_flight fo bo wo pl' vc @ framed_on vc [e]))"
    by (intro list_emb_append_mono subseq_order.refl step_in_flight [OF extend(2) assms(2-4)])
  have b: "subseq ((routed_on vc es @ in_flight fo bo wo pl' vc) @ framed_on vc [e])
      ((in_flight fo bo wo pl vc @ framed_on vc es) @ framed_on vc [e])"
    by (intro list_emb_append_mono extend.IH subseq_order.refl)
  show ?case
    using subseq_order.trans [OF a [unfolded append_assoc [symmetric]] b] by simp
qed simp

section \<open>What each sink may hold\<close>

definition hk_block :: "nat set" where
  "hk_block = {0x100..0x17F} \<union> {0x200..0x2FF}"

definition rover_block :: "nat set" where
  "rover_block = {0x300..0x45F}"

text \<open>APIDs that virtual channels 1 and 2 accept.\<close>

definition admitted :: "nat set" where
  "admitted = - (forbidden_apids \<union> {0x7FF})"

definition carries :: "nat set \<Rightarrow> bytes \<Rightarrow> bool" where
  "carries A bs \<longleftrightarrow> (case sp_parse bs of Inl _ \<Rightarrow> False | Inr k \<Rightarrow> pkt_apid k \<in> A)"

lemma carriesI: "sp_parse bs = Inr k \<Longrightarrow> pkt_apid k \<in> A \<Longrightarrow> carries A bs"
  by (simp add: carries_def)

lemma carriesE: "carries A bs \<Longrightarrow> (\<And>k. sp_parse bs = Inr k \<Longrightarrow> pkt_apid k \<in> A \<Longrightarrow> P) \<Longrightarrow> P"
  by (auto simp: carries_def split: sum.splits)

lemma carries_UNIV: "carries UNIV bs \<longleftrightarrow> is_ok (sp_parse bs)"
  by (simp add: carries_def split: sum.split)

lemma carries_extract: "carries A bs \<Longrightarrow> \<exists>a. extract_apid bs = Some a \<and> unat a \<in> A"
  by (elim carriesE) (simp add: extract_apid_parse pkt_apid_def)

text \<open>Every packet of a channel has an APID in the given block.\<close>

definition holds_only :: "('b, bytes) chan_ops \<Rightarrow> nat set \<Rightarrow> 'b \<Rightarrow> bool" where
  "holds_only bo A ch \<longleftrightarrow> list_all (carries A) (ch_items bo ch)"

lemma holds_only_recv:
  "chan_laws bo \<Longrightarrow> ch_recv bo ch = Some (bs, ch') \<Longrightarrow> holds_only bo A ch \<longleftrightarrow> carries A bs \<and> holds_only bo A ch'"
  by (simp add: holds_only_def chan_recvD)

lemma holds_only_send:
  "chan_laws bo \<Longrightarrow> ch_try_send bo ch bs = Some ch' \<Longrightarrow> holds_only bo A ch' \<longleftrightarrow> holds_only bo A ch \<and> carries A bs"
  by (simp add: holds_only_def chan_sendD)

lemma holds_only_offer:
  "chan_laws bo \<Longrightarrow> holds_only bo A ch \<Longrightarrow> carries A bs \<Longrightarrow> holds_only bo A (offer bo ch bs)"
  by (simp add: offer_def holds_only_send split: option.split)

lemma holds_only_empty: "ch_items bo ch = [] \<Longrightarrow> holds_only bo A ch"
  by (simp add: holds_only_def)

section \<open>The invariant of the task graph\<close>

definition decoded_ok ::
  "('b, bytes) chan_ops \<Rightarrow> ('w, u8 \<times> bytes) chan_ops \<Rightarrow> ('f, 'b, 'w, 'q) pipeline \<Rightarrow> bool" where
  "decoded_ok bo wo pl \<longleftrightarrow>
     (\<forall>vc. holds_only bo UNIV (pl_spp pl vc) \<and> pred_option (carries UNIV) (pl_relay pl vc))
     \<and> list_all (\<lambda>p. carries UNIV (snd p)) (ch_items wo (pl_tagged pl))"

definition sinks_ok :: "('b, bytes) chan_ops \<Rightarrow> ('f, 'b, 'w, 'q) pipeline \<Rightarrow> bool" where
  "sinks_ok bo pl \<longleftrightarrow>
     holds_only bo hk_block (pl_hk pl) \<and> holds_only bo rover_block (pl_rover pl)
     \<and> holds_only bo admitted (pl_event pl) \<and> holds_only bo admitted (pl_cfdp pl)"

definition ui_ok :: "'q ui_state \<Rightarrow> bool" where
  "ui_ok ui \<longleftrightarrow> list_all (\<lambda>s. unat (hs_apid s) \<in> hk_block \<union> rover_block) (us_hk ui)
     \<and> list_all (\<lambda>e. unat (ee_apid e) \<in> admitted) (us_events ui)"

lemma route_blocks:
  "fst (route_packet r vc pkt) = Hk \<Longrightarrow> pkt_apid pkt \<in> hk_block"
  "fst (route_packet r vc pkt) = RoverForward \<Longrightarrow> pkt_apid pkt \<in> rover_block"
  "fst (route_packet r vc pkt) = EventLog \<Longrightarrow> pkt_apid pkt \<in> admitted"
  "fst (route_packet r vc pkt) = CfdpPdu \<Longrightarrow> pkt_apid pkt \<in> admitted"
  unfolding route_decision hk_block_def rover_block_def admitted_def forbidden_apids_def
  by (auto split: if_splits)

lemma list_all_upsert:
  "list_all (\<lambda>s. Q (hs_apid s)) hk \<Longrightarrow> Q a \<Longrightarrow> list_all (\<lambda>s. Q (hs_apid s)) (hk_upsert hk a fr)"
  by (induction hk a fr rule: hk_upsert.induct) auto

lemma ui_ok_hk:
  assumes "ui_ok ui" "carries A bs" "A \<subseteq> hk_block \<union> rover_block"
  shows "ui_ok (process_hk_packet tc now bs ui)"
proof -
  obtain a where a: "extract_apid bs = Some a" "unat a \<in> A" using carries_extract [OF assms(2)] by blast
  then show ?thesis
    using assms(1,3) list_all_upsert [of "\<lambda>a. unat a \<in> hk_block \<union> rover_block"]
    by (auto simp: ui_ok_def process_hk_packet_def)
qed

lemma ui_ok_event:
  assumes "ui_ok ui" "carries admitted bs"
  shows "ui_ok (process_event_packet tc now bs ui)"
proof -
  obtain a where "extract_apid bs = Some a" "unat a \<in> admitted" using carries_extract [OF assms(2)] by blast
  then show ?thesis
    using assms(1) by (auto simp: ui_ok_def process_event_packet_def ring_push_def event_entry_of_def
        list_all_iff Let_def split_beta dest: in_set_dropD)
qed

definition pipeline_inv ::
  "('b, bytes) chan_ops \<Rightarrow> ('w, u8 \<times> bytes) chan_ops \<Rightarrow> ('f, 'b, 'w, 'q) pipeline \<Rightarrow> bool" where
  "pipeline_inv bo wo pl \<longleftrightarrow> decoded_ok bo wo pl \<and> sinks_ok bo pl \<and> ui_ok (pl_ui pl)"

lemma ui_ok_frame [simp]:
  "ui_ok (mark_time_suspect lf ui) = ui_ok ui"
  "ui_ok (link_turn formatted ls ui) = ui_ok ui"
  by (simp_all add: ui_ok_def mark_time_suspect_def link_turn_def)

lemma decoder_output_ok:
  assumes "chan_laws bo" "holds_only bo UNIV tx"
    "decoder_process (ch_try_send bo) dec tx now fr = (outs, dec', tx')"
  shows "holds_only bo UNIV tx'"
  using decoder_sends [OF assms(1,3)] assms(2) by (auto simp: holds_only_def carries_UNIV)

lemma step_decoded_ok:
  assumes "pipeline_step tc fo bo wo pl e pl'" "chan_laws bo" "chan_laws wo" "decoded_ok bo wo pl"
  shows "decoded_ok bo wo pl'"
  using assms(1)
proof cases
  case (decode v c fr c' now outs dec tx)
  then show ?thesis
    using assms(4) decoder_output_ok [OF assms(2) _ decode(6)] by (simp add: decoded_ok_def)
next
  case (relay_recv v bs ch)
  then show ?thesis
    using assms(4) holds_only_recv [OF assms(2) relay_recv(5), of UNIV]
    by (simp add: decoded_ok_def)
next
  case (relay_send v bs ch)
  then show ?thesis
    using assms(4) chan_sendD [OF assms(3) relay_send(5)]
    by (simp add: decoded_ok_def) (metis option.pred_inject(2))
next
  case (route v bs ch lf)
  then show ?thesis
    using assms(4) chan_recvD [OF assms(3) route(3)] by (simp add: decoded_ok_def)
qed (use assms(4) in \<open>simp_all add: decoded_ok_def\<close>)

lemma router_turn_sinks:
  assumes "chan_laws bo" "sinks_ok bo pl"
  shows "sinks_ok bo (router_turn bo lf vc bs pl)"
proof (cases "sp_parse bs")
  case (Inr k)
  obtain d r where r: "route_packet (pl_router pl) vc k = (d, r)" by fastforce
  have "d = Hk \<Longrightarrow> carries hk_block bs" "d = RoverForward \<Longrightarrow> carries rover_block bs"
    "d = EventLog \<Longrightarrow> carries admitted bs" "d = CfdpPdu \<Longrightarrow> carries admitted bs"
    using route_blocks [of "pl_router pl" vc k] carriesI [OF Inr] by (simp_all add: r)
  then show ?thesis
    using assms by (cases d) (simp_all add: router_turn_def Inr r Let_def sinks_ok_def holds_only_offer)
qed (use assms in \<open>simp add: router_turn_def\<close>)

lemma router_turn_ui:
  "us_hk (pl_ui (router_turn bo lf vc bs pl)) = us_hk (pl_ui pl)"
  "us_events (pl_ui (router_turn bo lf vc bs pl)) = us_events (pl_ui pl)"
  by (simp_all add: router_turn_def Let_def mark_time_suspect_def split: sum.split prod.split route.split)

lemma step_sinks_ok:
  assumes "pipeline_step tc fo bo wo pl e pl'" "chan_laws bo" "sinks_ok bo pl"
  shows "sinks_ok bo pl'"
  using assms(1)
proof cases
  case (route v bs ch lf)
  have "sinks_ok bo (pl\<lparr>pl_tagged := ch\<rparr>)" using assms(3) by (simp add: sinks_ok_def)
  then show ?thesis using route(2) router_turn_sinks [OF assms(2)] by simp
next
  case (hk_sink bs ch now)
  then show ?thesis
    using assms(3) holds_only_recv [OF assms(2) hk_sink(3)] by (simp add: sinks_ok_def)
next
  case (rover_sink bs ch now)
  then show ?thesis
    using assms(3) holds_only_recv [OF assms(2) rover_sink(3)] by (simp add: sinks_ok_def)
next
  case (event_sink bs ch now)
  then show ?thesis
    using assms(3) holds_only_recv [OF assms(2) event_sink(3)] by (simp add: sinks_ok_def)
qed (use assms(3) in \<open>simp_all add: sinks_ok_def\<close>)

lemma step_ui_ok:
  assumes "pipeline_step tc fo bo wo pl e pl'" "chan_laws bo" "sinks_ok bo pl" "ui_ok (pl_ui pl)"
  shows "ui_ok (pl_ui pl')"
  using assms(1)
proof cases
  case (route v bs ch lf)
  then show ?thesis using assms(4) by (simp add: ui_ok_def router_turn_ui)
next
  case (hk_sink bs ch now)
  then have "carries hk_block bs"
    using assms(3) holds_only_recv [OF assms(2) hk_sink(3)] by (simp add: sinks_ok_def)
  from ui_ok_hk [OF assms(4) this] show ?thesis using hk_sink(2) by simp
next
  case (rover_sink bs ch now)
  then have "carries rover_block bs"
    using assms(3) holds_only_recv [OF assms(2) rover_sink(3)] by (simp add: sinks_ok_def)
  from ui_ok_hk [OF assms(4) this] show ?thesis using rover_sink(2) by simp
next
  case (event_sink bs ch now)
  then have "carries admitted bs"
    using assms(3) holds_only_recv [OF assms(2) event_sink(3)] by (simp add: sinks_ok_def)
  then show ?thesis using event_sink(2) assms(4) ui_ok_event by simp
qed (use assms(4) in simp_all)

section \<open>The time-suspect badge\<close>

definition suspect :: "('f, 'b, 'w, 'q) pipeline \<Rightarrow> bool" where
  "suspect pl = ta_time_suspect_seen (us_time_auth (pl_ui pl))"

definition skew_routed :: "pipeline_event list \<Rightarrow> bool" where
  "skew_routed es \<longleftrightarrow> (\<exists>vc bs. Routed vc bs \<in> set es \<and> carries {0x541} bs)"

lemma sink_suspect [simp]:
  "us_time_auth (process_hk_packet tc now bs ui) = us_time_auth ui"
  "us_time_auth (process_event_packet tc now bs ui) = us_time_auth ui"
  "us_time_auth (link_turn formatted ls ui) = us_time_auth ui"
  by (simp_all add: process_hk_packet_def process_event_packet_def link_turn_def split: option.split)

lemma router_turn_suspect:
  assumes "suspect (router_turn bo lf vc bs pl)"
  shows "suspect pl \<or> carries {0x541} bs"
proof (cases "sp_parse bs")
  case (Inr k)
  have "apid_get (ph_apid (sp_primary k)) = clock_skew_apid \<longleftrightarrow> pkt_apid k = 0x541"
    by (simp add: pkt_apid_def clock_skew_apid_def word_unat_eq_iff)
  then show ?thesis
    using assms by (cases "fst (route_packet (pl_router pl) vc k)")
      (auto simp: router_turn_def Inr Let_def split_beta suspect_def carries_def split: if_splits)
qed (use assms in \<open>simp add: router_turn_def\<close>)

lemma step_suspect:
  assumes "pipeline_step tc fo bo wo pl e pl'" "suspect pl'"
  shows "suspect pl \<or> skew_routed [e]"
  using assms(1)
proof cases
  case (route v bs ch lf)
  then have "suspect (router_turn bo lf v bs (pl\<lparr>pl_tagged := ch\<rparr>))" using assms(2) by simp
  from router_turn_suspect [OF this] show ?thesis
    by (auto simp: route(1) skew_routed_def suspect_def)
qed (use assms(2) in \<open>simp_all add: suspect_def\<close>)

section \<open>Every run from the start\<close>

definition all_fresh :: "('ch, 'a) chan_ops \<Rightarrow> (nat \<Rightarrow> 'ch) \<Rightarrow> bool" where
  "all_fresh ops mk \<longleftrightarrow> (\<forall>n. ch_items ops (mk n) = [])"

lemma pipeline_new_inv:
  assumes "all_fresh bo mkb" "all_fresh wo mkw"
  shows "pipeline_inv bo wo (pipeline_new mkf mkb mkw q)" "\<not> suspect (pipeline_new mkf mkb mkw q)"
  using assms by (simp_all add: pipeline_inv_def pipeline_new_def decoded_ok_def sinks_ok_def ui_ok_def
      suspect_def all_fresh_def holds_only_empty ui_state_new_def time_authority_default_def)

lemma pipeline_new_in_flight:
  assumes "all_fresh fo mkf" "all_fresh bo mkb" "all_fresh wo mkw"
  shows "in_flight fo bo wo (pipeline_new mkf mkb mkw q) vc = []"
  using assms by (simp add: in_flight_def pipeline_new_def all_fresh_def queued_def demux_default_def demux_new_def
      split: option.split)

lemma trace_inv:
  assumes "pipeline_trace tc fo bo wo pl es pl'" "chan_laws bo" "chan_laws wo" "pipeline_inv bo wo pl"
  shows "pipeline_inv bo wo pl'"
  using assms(1,4)
  by induction (auto simp: pipeline_inv_def intro: step_decoded_ok [OF _ assms(2,3)]
      step_sinks_ok [OF _ assms(2)] step_ui_ok [OF _ assms(2)])

lemma trace_routed_ok:
  assumes "pipeline_trace tc fo bo wo pl es pl'" "chan_laws bo" "chan_laws wo" "pipeline_inv bo wo pl"
  shows "list_all (carries UNIV) (routed_on vc es)"
  using assms(1,4)
proof induction
  case (extend pl es pl' e pl'')
  have "decoded_ok bo wo pl'"
    using trace_inv [OF extend(1) assms(2,3) extend.prems] by (simp add: pipeline_inv_def)
  from extend(2) this have "list_all (carries UNIV) (routed_on vc [e])"
  proof cases
    case (route v bs ch lf)
    then show ?thesis
      using \<open>decoded_ok bo wo pl'\<close> chan_recvD [OF assms(3) route(3)] by (simp add: decoded_ok_def)
  qed (simp_all add: routed_on_def)
  then show ?case using extend.IH extend.prems by simp
qed simp

lemma trace_suspect:
  assumes "pipeline_trace tc fo bo wo pl es pl'" "suspect pl'"
  shows "suspect pl \<or> skew_routed es"
  using assms
proof induction
  case (extend pl es pl' e pl'')
  then show ?case using step_suspect [OF extend(2)] by (auto simp: skew_routed_def)
qed simp

section \<open>A packet that finds room reaches the store\<close>

definition chan_live :: "('ch, 'a) chan_ops \<Rightarrow> bool" where
  "chan_live ops \<longleftrightarrow> (\<forall>ch. ch_items ops ch \<noteq> [] \<longrightarrow> ch_recv ops ch \<noteq> None)"

definition has_room :: "('ch, 'a) chan_ops \<Rightarrow> 'ch \<Rightarrow> bool" where
  "has_room ops ch \<longleftrightarrow> ch_items ops ch = [] \<and> (\<forall>x. ch_try_send ops ch x \<noteq> None)"

lemma hop:
  assumes "chan_laws ops" "chan_live ops" "has_room ops ch"
  obtains ch1 ch2 where "ch_try_send ops ch x = Some ch1" "ch_recv ops ch1 = Some (x, ch2)"
proof -
  obtain ch1 where s: "ch_try_send ops ch x = Some ch1" using assms(3) unfolding has_room_def by blast
  have i: "ch_items ops ch1 = [x]"
    using chan_sendD [OF assms(1) s] assms(3) by (simp add: has_room_def)
  then obtain y ch2 where r: "ch_recv ops ch1 = Some (y, ch2)"
    using assms(2) unfolding chan_live_def by fastforce
  then have "y = x" using chan_recvD [OF assms(1) r] i by simp
  with s r that show ?thesis by blast
qed

definition path_clear ::
  "('f, aos_frame) chan_ops \<Rightarrow> ('b, bytes) chan_ops \<Rightarrow> ('w, u8 \<times> bytes) chan_ops \<Rightarrow>
   u8 \<Rightarrow> ('f, 'b, 'w, 'q) pipeline \<Rightarrow> bool" where
  "path_clear fo bo wo vc pl \<longleftrightarrow>
     has_room fo (pl_frames pl) \<and> vc \<notin> dx_idle (pl_demux pl)
     \<and> pred_option (has_room fo) (dx_senders (pl_demux pl) vc) \<and> dx_senders (pl_demux pl) vc \<noteq> None
     \<and> has_room bo (pl_spp pl vc) \<and> pl_relay pl vc = None \<and> has_room wo (pl_tagged pl)
     \<and> has_room bo (pl_hk pl)"

lemma trace_two:
  "pipeline_trace tc fo bo wo pl es p1 \<Longrightarrow> pipeline_step tc fo bo wo p1 e p2 \<Longrightarrow>
   pipeline_step tc fo bo wo p2 e' p3 \<Longrightarrow> pipeline_trace tc fo bo wo pl (es @ [e, e']) p3"
  using pipeline_trace.extend [OF pipeline_trace.extend, of tc fo bo wo pl es p1 e p2 e' p3] by simp

lemma framed_to_relay:
  fixes fr :: aos_frame
  assumes "chan_laws fo" "chan_laws bo" "chan_live fo" "chan_live bo" "path_clear fo bo wo vc pl"
    "vc \<in> served_vcs" "af_vc_id fr = vc" "sp_parse (af_data fr) = Inr k"
  shows "\<exists>es pl'. pipeline_trace tc fo bo wo pl es pl' \<and> pl_relay pl' vc = Some (af_data fr)
    \<and> pl_tagged pl' = pl_tagged pl \<and> pl_hk pl' = pl_hk pl \<and> pl_ui pl' = pl_ui pl
    \<and> framed_on vc es = [af_data fr]"
proof -
  obtain f1 f2 where f: "ch_try_send fo (pl_frames pl) fr = Some f1" "ch_recv fo f1 = Some (fr, f2)"
    using hop [OF assms(1,3)] assms(5) unfolding path_clear_def by blast
  obtain c where c0: "dx_senders (pl_demux pl) vc = Some c" "has_room fo c"
    using assms(5) by (auto simp: path_clear_def)
  obtain c1 c2 where c: "ch_try_send fo c fr = Some c1" "ch_recv fo c1 = Some (fr, c2)"
    using hop [OF assms(1,3) c0(2)] by blast
  obtain s1 s2 where s: "ch_try_send bo (pl_spp pl vc) (af_data fr) = Some s1"
      "ch_recv bo s1 = Some (af_data fr, s2)"
    using hop [OF assms(2,4)] assms(5) unfolding path_clear_def by blast
  define d where "d = (pl_demux pl)\<lparr>dx_senders := (dx_senders (pl_demux pl))(vc \<mapsto> c1)\<rparr>"
  define p1 where "p1 = pl\<lparr>pl_frames := f1\<rparr>"
  define p2 where "p2 = p1\<lparr>pl_frames := f2, pl_demux := d\<rparr>"
  define p3 where "p3 = p2\<lparr>pl_demux := (pl_demux p2)\<lparr>dx_senders := (dx_senders (pl_demux p2))(vc \<mapsto> c2)\<rparr>,
    pl_decoder := (pl_decoder p2)(vc := pl_decoder p2 vc), pl_spp := (pl_spp p2)(vc := s1)\<rparr>"
  define p4 where "p4 = p3\<lparr>pl_spp := (pl_spp p3)(vc := s2), pl_relay := (pl_relay p3)(vc \<mapsto> af_data fr)\<rparr>"
  have "demux_dispatch (ch_try_send fo) (pl_demux pl) 0 fr = ([Accepted vc fr], d)"
    using assms(5,7) c0 c by (simp add: demux_dispatch_def path_clear_def d_def Let_def)
  then have 2: "pipeline_step tc fo bo wo p1 Internal p2"
    using f(2) unfolding p2_def by (intro pipeline_step.demux) (simp_all add: p1_def)
  have "decoder_process (ch_try_send bo) (pl_decoder p2 vc) (pl_spp p2 vc) 0 fr = ([], pl_decoder p2 vc, s1)"
    using s(1) assms(8) by (simp add: decoder_process_def p2_def p1_def)
  with assms(6) _ c(2) have 3: "pipeline_step tc fo bo wo p2 Internal p3"
    unfolding p3_def by (rule pipeline_step.decode) (simp add: p2_def d_def)
  have 4: "pipeline_step tc fo bo wo p3 Internal p4"
    unfolding p4_def using assms(5,6) s(2)
    by (intro pipeline_step.relay_recv) (simp_all add: p3_def p2_def p1_def path_clear_def)
  have 1: "pipeline_step tc fo bo wo pl (Framed fr) p1"
    unfolding p1_def by (rule pipeline_step.framed [OF f(1)])
  have "pipeline_trace tc fo bo wo pl [Framed fr, Internal, Internal, Internal] p4"
    using trace_two [OF trace_two [OF pipeline_trace.start 1 2] 3 4] by simp
  moreover have "framed_on vc [Framed fr, Internal, Internal, Internal] = [af_data fr]"
    by (simp add: framed_on_def assms(7))
  moreover have "pl_relay p4 vc = Some (af_data fr) \<and> pl_tagged p4 = pl_tagged pl \<and> pl_hk p4 = pl_hk pl
    \<and> pl_ui p4 = pl_ui pl"
    by (simp add: p4_def p3_def p2_def p1_def)
  ultimately show ?thesis by blast
qed

section \<open>An example run\<close>

definition example_hk :: bytes where
  "example_hk = [0x09, 0x10, 0xC0, 0, 0, 10, 0x2F, 0, 0, 0, 5, 0, 0, 0, 5, 1, 7]"

definition example_hk_packet :: space_packet where
  "example_hk_packet =
     \<lparr>sp_primary = primary_new (Apid 0x110) Tm (SequenceCount 0) (PacketDataLength 10),
      sp_secondary = secondary_new \<lparr>coarse = 5, fine = 0\<rparr> (FuncCode 5) (InstanceId 1),
      sp_user_data = [7]\<rparr>"

definition example_hk_frame :: aos_frame where
  "example_hk_frame = \<lparr>af_vc_id = 0, af_ocf = None, af_data = example_hk\<rparr>"

definition fresh_queue :: "nat \<Rightarrow> 'a bqueue" where
  "fresh_queue n = \<lparr>bq_cap = n, bq_items = []\<rparr>"

definition example_start ::
  "(aos_frame bqueue, bytes bqueue, (u8 \<times> bytes) bqueue, unit) pipeline" where
  "example_start = pipeline_new fresh_queue fresh_queue fresh_queue ()"

lemma example_hk_parse: "sp_parse example_hk = Inr example_hk_packet"
  unfolding example_hk_def example_hk_packet_def by code_simp

lemma fresh_all: "all_fresh bqueue_ops fresh_queue"
  by (simp add: all_fresh_def bqueue_ops_def fresh_queue_def)

lemma bqueue_live: "chan_live bqueue_ops"
  by (auto simp: chan_live_def bqueue_ops_def bq_recv_def split: list.split)

lemma fresh_has_room: "0 < n \<Longrightarrow> has_room bqueue_ops (fresh_queue n)"
  by (simp add: has_room_def bqueue_ops_def fresh_queue_def bq_try_send_def)

lemma start_path_clear: "path_clear bqueue_ops bqueue_ops bqueue_ops 0 example_start"
  by (simp add: path_clear_def example_start_def pipeline_new_def fresh_has_room demux_default_def
      demux_new_def vc_idle_def aos_to_demux_cap_def demux_to_spp_cap_def spp_to_router_cap_def
      router_to_hk_cap_def)

lemma example_run:
  "\<exists>es pl. pipeline_trace example_calendar bqueue_ops bqueue_ops bqueue_ops
     (pipeline_new fresh_queue fresh_queue fresh_queue ()) es pl \<and> framed_on 0 es = [example_hk]"
  using framed_to_relay [OF bqueue_laws bqueue_laws bqueue_live bqueue_live start_path_clear,
      where fr = example_hk_frame and k = example_hk_packet and tc = example_calendar] example_hk_parse
  by (simp add: served_vcs_def example_hk_frame_def flip: example_start_def) blast

section \<open>Properties\<close>

text \<open>
  C6: The ingest path keeps each virtual channel in order.  In every run of the task graph from
  its start, whatever the interleaving of its tasks, the packets that the router receives on a
  channel are the data fields of frames of that channel, unchanged, in the order the framer
  produced them and each at most once, and all of them parse as space packets.
\<close>

theorem pipeline_in_order_per_channel:
  assumes "pipeline_trace tc fo bo wo (pipeline_new mkf mkb mkw q) es pl"
    and "chan_laws fo" "chan_laws bo" "chan_laws wo"
    and "all_fresh fo mkf" "all_fresh bo mkb" "all_fresh wo mkw"
  shows "subseq (routed_on vc es @ in_flight fo bo wo pl vc) (framed_on vc es)
    \<and> (\<forall>bs \<in> set (routed_on vc es). is_ok (sp_parse bs))"
  using trace_in_flight [OF assms(1-4), of vc] pipeline_new_in_flight [OF assms(5-7), where q = q and vc = vc]
    trace_routed_ok [OF assms(1,3,4) pipeline_new_inv(1) [OF assms(6,7)], of vc]
  by (simp add: list_all_iff carries_UNIV)

theorem pipeline_in_order_per_channel_witness:
  "\<exists>es. framed_on 0 es = [example_hk] \<and> subseq (routed_on 0 es) [example_hk]"
proof -
  obtain es pl where run: "pipeline_trace example_calendar bqueue_ops bqueue_ops bqueue_ops
      (pipeline_new fresh_queue fresh_queue fresh_queue ()) es pl" "framed_on 0 es = [example_hk]"
    using example_run by blast
  have "subseq (routed_on 0 es @ in_flight bqueue_ops bqueue_ops bqueue_ops pl 0) [example_hk]"
    using pipeline_in_order_per_channel [OF run(1) bqueue_laws bqueue_laws bqueue_laws
        fresh_all fresh_all fresh_all, of 0] run(2) by simp
  then have "subseq (routed_on 0 es) [example_hk]"
    by (rule subseq_order.trans [OF subseq_rev_drop_many [OF subseq_order.refl]])
  then show ?thesis using run(2) by blast
qed

text \<open>
  C7: Simulation and ground-internal packets never reach the operator.  In every run of the task
  graph from its start, the housekeeping store holds only APIDs of the orbiter, relay, MCU and
  rover telemetry blocks, the event log holds no forbidden and no idle APID, and the time-suspect
  badge is set only if a clock-skew packet (APID 0x541) came through the router.  So the badge says
  nothing of bit 0 of the function code, the time-suspect flag for which the architecture document
  (9.2) and \<open>secondary.rs\<close> ask a badge: packets with this bit, of any other APID, never set it.
\<close>

theorem ui_never_shows_forbidden:
  assumes "pipeline_trace tc fo bo wo (pipeline_new mkf mkb mkw q) es pl"
    and "chan_laws bo" "chan_laws wo" "all_fresh bo mkb" "all_fresh wo mkw"
  shows "(\<forall>s \<in> set (us_hk (pl_ui pl)). unat (hs_apid s) \<in> {0x100..0x17F} \<union> {0x200..0x2FF} \<union> {0x300..0x45F})
    \<and> (\<forall>e \<in> set (us_events (pl_ui pl)). unat (ee_apid e) \<notin> forbidden_apids \<union> {0x7FF})
    \<and> (ta_time_suspect_seen (us_time_auth (pl_ui pl)) \<longrightarrow>
        (\<exists>vc bs k. Routed vc bs \<in> set es \<and> sp_parse bs = Inr k \<and> pkt_apid k = 0x541))"
proof -
  have "ui_ok (pl_ui pl)"
    using trace_inv [OF assms(1-3) pipeline_new_inv(1) [OF assms(4,5)]] by (simp add: pipeline_inv_def)
  moreover have "suspect pl \<longrightarrow> skew_routed es"
    using trace_suspect [OF assms(1)] pipeline_new_inv(2) [OF assms(4,5), of mkf q] by blast
  ultimately show ?thesis
    by (auto simp: ui_ok_def list_all_iff hk_block_def rover_block_def admitted_def suspect_def
        skew_routed_def elim!: carriesE)
qed

theorem ui_never_shows_forbidden_witness:
  "\<exists>es pl. pipeline_trace example_calendar bqueue_ops bqueue_ops bqueue_ops
     (pipeline_new fresh_queue fresh_queue fresh_queue ()) es pl \<and> framed_on 0 es = [example_hk]
     \<and> 0x541 \<notin> ee_apid ` set (us_events (pl_ui pl))"
proof -
  obtain es pl where run: "pipeline_trace example_calendar bqueue_ops bqueue_ops bqueue_ops
      (pipeline_new fresh_queue fresh_queue fresh_queue ()) es pl" "framed_on 0 es = [example_hk]"
    using example_run by blast
  show ?thesis
    using ui_never_shows_forbidden [OF run(1) bqueue_laws bqueue_laws fresh_all fresh_all] run
    by (intro exI [of _ es] exI [of _ pl]) (auto simp: forbidden_apids_def)
qed

text \<open>
  C8: The ingest path is live.  When the path of a served channel is clear, a frame of that
  channel whose data field is a housekeeping packet can be carried through every stage, and the
  store then shows the packet's user data and the UTC time of its secondary header as the latest
  frame of its APID.
\<close>

theorem housekeeping_reaches_store:
  fixes fr :: aos_frame
  assumes "chan_laws fo" "chan_laws bo" "chan_laws wo" "chan_live fo" "chan_live bo" "chan_live wo"
    and "path_clear fo bo wo vc pl" "vc \<in> {0, 3}" "af_vc_id fr = vc"
    and "sp_parse (af_data fr) = Inr k" "pkt_apid k \<in> {0x100..0x17F} \<union> {0x200..0x2FF}"
  shows "\<exists>es pl'. pipeline_trace tc fo bo wo pl es pl' \<and> framed_on vc es = [af_data fr]
    \<and> latest_hk_frame (us_hk (pl_ui pl')) (apid_get (ph_apid (sp_primary k))) =
        Some \<lparr>hf_timestamp_utc = tai_to_iso8601 tc (us_converter (pl_ui pl)) (sh_time (sp_secondary k)),
              hf_data = sp_user_data k\<rparr>"
proof -
  have served: "vc \<in> served_vcs" using assms(8) by (auto simp: served_vcs_def)
  obtain es p4 where tr: "pipeline_trace tc fo bo wo pl es p4" "framed_on vc es = [af_data fr]"
    and p4: "pl_relay p4 vc = Some (af_data fr)" "pl_tagged p4 = pl_tagged pl" "pl_hk p4 = pl_hk pl"
      "pl_ui p4 = pl_ui pl"
    using framed_to_relay [OF assms(1,2,4,5,7) served assms(9,10)] by blast
  obtain t1 t2 where t: "ch_try_send wo (pl_tagged pl) (vc, af_data fr) = Some t1"
      "ch_recv wo t1 = Some ((vc, af_data fr), t2)"
    using hop [OF assms(3,6)] assms(7) unfolding path_clear_def by blast
  obtain h1 h2 where h: "ch_try_send bo (pl_hk pl) (af_data fr) = Some h1"
      "ch_recv bo h1 = Some (af_data fr, h2)"
    using hop [OF assms(2,5)] assms(7) unfolding path_clear_def by blast
  define p5 where "p5 = p4\<lparr>pl_tagged := t1, pl_relay := (pl_relay p4)(vc := None)\<rparr>"
  define p6 where "p6 = router_turn bo True vc (af_data fr) (p5\<lparr>pl_tagged := t2\<rparr>)"
  define p7 where "p7 = p6\<lparr>pl_hk := h2, pl_ui := process_hk_packet tc undefined (af_data fr) (pl_ui p6)\<rparr>"
  have 5: "pipeline_step tc fo bo wo p4 Internal p5"
    unfolding p5_def using pipeline_step.relay_send [OF served p4(1)] t(1) p4(2) by simp
  have 6: "pipeline_step tc fo bo wo p5 (Routed vc (af_data fr)) p6"
    unfolding p6_def by (rule pipeline_step.route) (simp add: p5_def t(2))
  have "fst (route_packet r vc k) = Hk" for r
    using assms(8,11) by (auto simp: route_decision forbidden_apids_def)
  then have hk: "pl_hk p6 = h1" "pl_ui p6 = pl_ui pl"
    using h(1) p4 by (simp_all add: p6_def p5_def router_turn_def assms(10) split_beta Let_def offer_def)
  have 7: "pipeline_step tc fo bo wo p6 Internal p7"
    unfolding p7_def by (rule pipeline_step.hk_sink) (simp add: hk h(2))
  have "latest_hk_frame (us_hk (pl_ui p7)) (apid_get (ph_apid (sp_primary k))) =
      Some \<lparr>hf_timestamp_utc = tai_to_iso8601 tc (us_converter (pl_ui pl)) (sh_time (sp_secondary k)),
            hf_data = sp_user_data k\<rparr>"
    by (simp add: p7_def hk latest_after_push [OF extract_apid_parse [OF assms(10)]]
        hk_frame_of_parse [OF assms(10)])
  moreover have "framed_on vc (es @ [Internal, Routed vc (af_data fr)] @ [Internal]) = [af_data fr]"
    using tr(2) by (simp add: framed_on_def)
  moreover have "pipeline_trace tc fo bo wo pl (es @ [Internal, Routed vc (af_data fr)] @ [Internal]) p7"
    using pipeline_trace.extend [OF trace_two [OF tr(1) 5 6] 7] by simp
  ultimately show ?thesis by blast
qed

theorem housekeeping_reaches_store_witness:
  "\<exists>es pl. pipeline_trace example_calendar bqueue_ops bqueue_ops bqueue_ops example_start es pl
     \<and> map_option hf_data (latest_hk_frame (us_hk (pl_ui pl)) 0x110) = Some [7]"
proof -
  have "pkt_apid example_hk_packet = 0x110" "sp_user_data example_hk_packet = [7]"
    "apid_get (ph_apid (sp_primary example_hk_packet)) = 0x110"
    by (simp_all add: pkt_apid_def example_hk_packet_def primary_new_def)
  then obtain es pl where "pipeline_trace example_calendar bqueue_ops bqueue_ops bqueue_ops example_start es pl"
    "map_option hf_data (latest_hk_frame (us_hk (pl_ui pl)) 0x110) = Some [7]"
    using housekeeping_reaches_store [OF bqueue_laws bqueue_laws bqueue_laws bqueue_live bqueue_live
        bqueue_live start_path_clear, where fr = example_hk_frame and k = example_hk_packet
        and tc = example_calendar] example_hk_parse
    by (auto simp: example_hk_frame_def)
  then show ?thesis by blast
qed

end
