(* ===== verification/Ui_Server.thy ===== *)
theory Ui_Server
  imports Ui_State "HOL-Library.Sublist"
begin

text \<open>
  The HTTP interface of \<open>rust/ground_station/src/ui/mod.rs\<close>: the route table of \<open>router\<close> and what
  the server does with a request.  Matching a request against the table is \<open>axum\<close>'s and an argument;
  so is the rest of what the handlers use (\<open>rnd\<close>, \<open>fmt1\<close>, \<open>try_send\<close>).  A request whose body is not
  the JSON that its handler expects has no body here and is refused by the extractor.
\<close>

section \<open>Routes\<close>

datatype http_method = Get | Head | Post | OtherMethod

datatype endpoint =
    GetHk | GetEvents | GetCfdp | GetMfile | GetLink | GetCop1 | GetTimeAuth | PostTc | GetRover
  | GetCfsRosLink | GetRosGroundLink | GetFleetDdsLink | WsHandler

definition ui_router :: "(string \<times> http_method \<times> endpoint) list" where
  "ui_router =
     [(''/api/hk'', Get, GetHk), (''/api/events'', Get, GetEvents), (''/api/cfdp'', Get, GetCfdp),
      (''/api/mfile'', Get, GetMfile), (''/api/link'', Get, GetLink), (''/api/cop1'', Get, GetCop1),
      (''/api/time'', Get, GetTimeAuth), (''/api/tc'', Post, PostTc), (''/api/rover'', Get, GetRover),
      (''/api/link/cfs-ros'', Get, GetCfsRosLink), (''/api/link/ros-ground'', Get, GetRosGroundLink),
      (''/api/link/fleet-dds'', Get, GetFleetDdsLink), (''/ws'', Get, WsHandler)]"

text \<open>
  The documented contract of \<open>axum\<close>: a handler runs only for its own path, and for its own method,
  except that a handler for GET also answers HEAD.
\<close>

definition routes_by_table ::
  "((string \<times> http_method \<times> endpoint) list \<Rightarrow> string \<Rightarrow> http_method \<Rightarrow> endpoint option) \<Rightarrow> bool" where
  "routes_by_table route \<longleftrightarrow>
     (\<forall>table path meth ep. route table path meth = Some ep \<longrightarrow>
        (path, meth, ep) \<in> set table \<or> meth = Head \<and> (path, Get, ep) \<in> set table)"

section \<open>Requests\<close>

record ui_request =
  rq_path :: string
  rq_method :: http_method
  rq_body :: "tc_submit_request option"

datatype ui_reply =
    HkReply "hk_snapshot list" | EventsReply "event_entry list" | CfdpReply "cfdp_status list"
  | MfileReply "mfile_status list" | LinkReply link_state_dto | Cop1Reply cop1_status
  | TimeReply time_authority | TcReply tc_submit_response | CfsRosReply cfs_ros_link
  | RosGroundReply ros_ground_link | FleetDdsReply fleet_dds_link
  | SwitchToWebSocket | Refused nat string | BadBody | NotRouted

fun run_endpoint ::
  "(rat \<Rightarrow> f64) \<Rightarrow> (f64 \<Rightarrow> string) \<Rightarrow> ('ch \<Rightarrow> tc_queue_entry \<Rightarrow> 'ch option)
     \<Rightarrow> endpoint \<Rightarrow> tc_submit_request option \<Rightarrow> 'ch ui_state \<Rightarrow> ui_reply \<times> 'ch ui_state" where
  "run_endpoint rnd fmt1 try_send GetHk body st = (HkReply (get_hk st), st)"
| "run_endpoint rnd fmt1 try_send GetEvents body st = (EventsReply (get_events st), st)"
| "run_endpoint rnd fmt1 try_send GetCfdp body st = (CfdpReply (get_cfdp st), st)"
| "run_endpoint rnd fmt1 try_send GetMfile body st = (MfileReply (get_mfile st), st)"
| "run_endpoint rnd fmt1 try_send GetLink body st = (LinkReply (get_link st), st)"
| "run_endpoint rnd fmt1 try_send GetCop1 body st = (Cop1Reply (get_cop1 st), st)"
| "run_endpoint rnd fmt1 try_send GetTimeAuth body st = (TimeReply (get_time_auth st), st)"
| "run_endpoint rnd fmt1 try_send GetRover body st = (HkReply (get_rover st), st)"
| "run_endpoint rnd fmt1 try_send GetCfsRosLink body st = (CfsRosReply (get_cfs_ros_link st), st)"
| "run_endpoint rnd fmt1 try_send GetRosGroundLink body st = (RosGroundReply (get_ros_ground_link st), st)"
| "run_endpoint rnd fmt1 try_send GetFleetDdsLink body st = (FleetDdsReply (get_fleet_dds_link st), st)"
| "run_endpoint rnd fmt1 try_send WsHandler body st = (SwitchToWebSocket, st)"
| "run_endpoint rnd fmt1 try_send PostTc body st =
     (case body of
        None \<Rightarrow> (BadBody, st)
      | Some req \<Rightarrow>
          (case post_tc rnd fmt1 try_send st req of
             (Inl (status, msg), st) \<Rightarrow> (Refused status msg, st)
           | (Inr resp, st) \<Rightarrow> (TcReply resp, st)))"

definition serve_request ::
  "((string \<times> http_method \<times> endpoint) list \<Rightarrow> string \<Rightarrow> http_method \<Rightarrow> endpoint option)
     \<Rightarrow> (rat \<Rightarrow> f64) \<Rightarrow> (f64 \<Rightarrow> string) \<Rightarrow> ('ch \<Rightarrow> tc_queue_entry \<Rightarrow> 'ch option)
     \<Rightarrow> 'ch ui_state \<Rightarrow> ui_request \<Rightarrow> ui_reply \<times> 'ch ui_state" where
  "serve_request route rnd fmt1 try_send st rq =
     (case route ui_router (rq_path rq) (rq_method rq) of
        None \<Rightarrow> (NotRouted, st)
      | Some ep \<Rightarrow> run_endpoint rnd fmt1 try_send ep (rq_body rq) st)"

fun serve_all ::
  "((string \<times> http_method \<times> endpoint) list \<Rightarrow> string \<Rightarrow> http_method \<Rightarrow> endpoint option)
     \<Rightarrow> (rat \<Rightarrow> f64) \<Rightarrow> (f64 \<Rightarrow> string) \<Rightarrow> ('ch \<Rightarrow> tc_queue_entry \<Rightarrow> 'ch option)
     \<Rightarrow> 'ch ui_state \<Rightarrow> ui_request list \<Rightarrow> ui_reply list \<times> 'ch ui_state" where
  "serve_all route rnd fmt1 try_send st [] = ([], st)"
| "serve_all route rnd fmt1 try_send st (rq # rqs) =
     (let (reply, st) = serve_request route rnd fmt1 try_send st rq;
          (replies, st) = serve_all route rnd fmt1 try_send st rqs in
      (reply # replies, st))"

section \<open>What requests can change\<close>

definition entry_of :: "tc_submit_request \<Rightarrow> tc_queue_entry" where
  "entry_of req =
     \<lparr>te_apid = (case tr_apid req of None \<Rightarrow> 0 | Some a \<Rightarrow> a),
      te_func_code = (case tr_func_code req of None \<Rightarrow> 0 | Some f \<Rightarrow> f),
      te_payload = [], te_valid_until = tr_valid_until req\<rparr>"

text \<open>The telecommand that a request asks for, if it arrives within its window after \<open>n\<close> seconds.\<close>

definition admissible :: "u32 \<Rightarrow> nat \<Rightarrow> ui_request \<Rightarrow> tc_queue_entry option" where
  "admissible now n rq =
     (case rq_body rq of
        Some req \<Rightarrow>
          (if rq_path rq = ''/api/tc'' \<and> rq_method rq = Post \<and> unat now + n \<le> unat (tr_valid_until req)
           then Some (entry_of req) else None)
      | None \<Rightarrow> None)"

lemma only_post_tc:
  assumes "routes_by_table route" "route ui_router path meth = Some PostTc"
  shows "path = ''/api/tc'' \<and> meth = Post"
proof -
  have "(path, meth, PostTc) \<in> set ui_router \<or> (path, Get, PostTc) \<in> set ui_router"
    using assms unfolding routes_by_table_def by blast
  then show ?thesis by (simp add: ui_router_def)
qed

lemma post_tc_step:
  assumes "\<forall>n :: int. \<bar>n\<bar> \<le> 2 ^ 53 \<longrightarrow> rnd (of_int n) = Fin (of_int n)" "n \<le> 2 ^ 52"
    and "us_light_time_s st = Fin (of_nat n)" "fifo_send try_send contents"
  shows "\<exists>tx added. snd (post_tc rnd fmt1 try_send st req) = st\<lparr>us_tc_tx := tx\<rparr>
    \<and> contents tx = contents (us_tc_tx st) @ added
    \<and> (added = [] \<or> added = [entry_of req] \<and> unat (coarse (us_now_tai st)) + n \<le> unat (tr_valid_until req))"
proof -
  note v = check_window_exact [OF assms(1,2), of "\<lparr>coarse = tr_valid_until req, fine = 0\<rparr>" "us_now_tai st"]
  show ?thesis
  proof (cases "unat (coarse (us_now_tai st)) + n > unat (tr_valid_until req)")
    case True
    then have "snd (post_tc rnd fmt1 try_send st req) = st\<lparr>us_tc_tx := us_tc_tx st\<rparr>"
      by (simp add: post_tc_def Let_def assms(3) v)
    then show ?thesis by (intro exI [of _ "us_tc_tx st"] exI [of _ "[]"]) simp
  next
    case False
    then have post: "snd (post_tc rnd fmt1 try_send st req) =
        (case try_send (us_tc_tx st) (entry_of req) of Some tx \<Rightarrow> st\<lparr>us_tc_tx := tx\<rparr> | None \<Rightarrow> st)"
      by (simp add: post_tc_def Let_def assms(3) v entry_of_def)
    show ?thesis
    proof (cases "try_send (us_tc_tx st) (entry_of req)")
      case None
      then show ?thesis using post by (intro exI [of _ "us_tc_tx st"] exI [of _ "[]"]) simp
    next
      case (Some tx)
      then show ?thesis
        using post fifo_sendD [OF assms(4) Some] False
        by (intro exI [of _ tx] exI [of _ "[entry_of req]"]) simp
    qed
  qed
qed

lemma run_endpoint_reads:
  "ep \<noteq> PostTc \<or> body = None \<Longrightarrow> snd (run_endpoint rnd fmt1 try_send ep body st) = st"
  by (cases ep) auto

lemma serve_step:
  assumes "\<forall>n :: int. \<bar>n\<bar> \<le> 2 ^ 53 \<longrightarrow> rnd (of_int n) = Fin (of_int n)" "n \<le> 2 ^ 52"
    and "us_light_time_s st = Fin (of_nat n)" "fifo_send try_send contents" "routes_by_table route"
  shows "\<exists>tx added. snd (serve_request route rnd fmt1 try_send st rq) = st\<lparr>us_tc_tx := tx\<rparr>
    \<and> contents tx = contents (us_tc_tx st) @ added
    \<and> subseq added (List.map_filter (admissible (coarse (us_now_tai st)) n) [rq])"
proof -
  have same: ?thesis if "snd (serve_request route rnd fmt1 try_send st rq) = st"
    using that by (intro exI [of _ "us_tc_tx st"] exI [of _ "[]"]) simp
  show ?thesis
  proof (cases "route ui_router (rq_path rq) (rq_method rq) = Some PostTc \<and> rq_body rq \<noteq> None")
    case True
    then obtain req where req: "rq_body rq = Some req" by blast
    have at: "rq_path rq = ''/api/tc''" "rq_method rq = Post"
      using only_post_tc [OF assms(5)] True by blast+
    obtain res st' where post: "post_tc rnd fmt1 try_send st req = (res, st')" by fastforce
    then have "snd (serve_request route rnd fmt1 try_send st rq) = st'"
      using True req by (simp add: serve_request_def split: sum.split)
    with post_tc_step [OF assms(1-4), of fmt1 req] post at req show ?thesis
      by (auto simp: admissible_def List.map_filter_simps)
  next
    case False
    then have "snd (serve_request route rnd fmt1 try_send st rq) = st"
      using run_endpoint_reads [of _ "rq_body rq" rnd fmt1 try_send st]
      by (auto simp: serve_request_def split: option.split)
    then show ?thesis by (rule same)
  qed
qed

section \<open>Properties\<close>

text \<open>
  C36: The interface can do one thing only: queue telecommands that are in time.  Whatever requests
  the server answers, in any number and order, the store shows the same housekeeping, events,
  transfers, link and time as before; the telecommand queue is the only change, and what it gained
  are the telecommands, in order and at most once each, of POST requests to \<open>/api/tc\<close> whose
  deadline is not before the clock plus the light time, each with an empty payload.
\<close>

theorem requests_only_queue_commands:
  assumes rounding: "\<forall>n :: int. \<bar>n\<bar> \<le> 2 ^ 53 \<longrightarrow> rnd (of_int n) = Fin (of_int n)"
    and light: "n \<le> 2 ^ 52" "us_light_time_s st = Fin (of_nat n)"
    and laws: "fifo_send try_send contents" "routes_by_table route"
  shows "\<exists>tx added. snd (serve_all route rnd fmt1 try_send st rqs) = st\<lparr>us_tc_tx := tx\<rparr>
    \<and> contents tx = contents (us_tc_tx st) @ added
    \<and> subseq added (List.map_filter (admissible (coarse (us_now_tai st)) n) rqs)"
  using light(2)
proof (induction rqs arbitrary: st)
  case Nil
  then show ?case by (intro exI [of _ "us_tc_tx st"] exI [of _ "[]"]) simp
next
  case (Cons rq rqs)
  obtain reply st1 where one: "serve_request route rnd fmt1 try_send st rq = (reply, st1)" by fastforce
  obtain tx1 added1 where s1: "st1 = st\<lparr>us_tc_tx := tx1\<rparr>" "contents tx1 = contents (us_tc_tx st) @ added1"
    "subseq added1 (List.map_filter (admissible (coarse (us_now_tai st)) n) [rq])"
    using serve_step [OF rounding light(1) Cons.prems laws, of fmt1 rq] one by auto
  obtain tx added where s2: "snd (serve_all route rnd fmt1 try_send st1 rqs) = st1\<lparr>us_tc_tx := tx\<rparr>"
    "contents tx = contents (us_tc_tx st1) @ added"
    "subseq added (List.map_filter (admissible (coarse (us_now_tai st1)) n) rqs)"
    using Cons.IH [of st1] Cons.prems s1(1) by auto
  have "subseq (added1 @ added) (List.map_filter (admissible (coarse (us_now_tai st)) n) [rq]
      @ List.map_filter (admissible (coarse (us_now_tai st)) n) rqs)"
    using s1 s2(3) by (intro list_emb_append_mono) simp_all
  then have "subseq (added1 @ added) (List.map_filter (admissible (coarse (us_now_tai st)) n) (rq # rqs))"
    by (simp add: List.map_filter_simps split: option.splits)
  then show ?case
    using one s1 s2 by (intro exI [of _ tx] exI [of _ "added1 @ added"]) (simp add: split_beta)
qed

text \<open>An exact matcher: the first route with the path and the method.\<close>

definition exact_routes ::
  "(string \<times> http_method \<times> endpoint) list \<Rightarrow> string \<Rightarrow> http_method \<Rightarrow> endpoint option" where
  "exact_routes table path meth = map_of (map (\<lambda>(p, m, ep). ((p, m), ep)) table) (path, meth)"

lemma exact_routes_by_table: "routes_by_table exact_routes"
  by (auto simp: routes_by_table_def exact_routes_def dest!: map_of_SomeD)

theorem requests_only_queue_commands_witness:
  "\<exists>tx added. snd (serve_all exact_routes Fin (\<lambda>_. []) bq_try_send example_store
      [\<lparr>rq_path = ''/api/tc'', rq_method = Post,
        rq_body = Some \<lparr>tr_valid_until = 599, tr_apid = None, tr_func_code = None\<rparr>\<rparr>]) = example_store\<lparr>us_tc_tx := tx\<rparr>
    \<and> bq_items tx = bq_items (us_tc_tx example_store) @ added \<and> added = []"
proof -
  let ?rqs = "[\<lparr>rq_path = ''/api/tc'', rq_method = Post,
      rq_body = Some \<lparr>tr_valid_until = 599, tr_apid = None, tr_func_code = None\<rparr>\<rparr>]"
  have "us_light_time_s example_store = Fin (of_nat 600)"
    by (simp add: example_store_def ui_state_new_def)
  from requests_only_queue_commands [OF _ _ this fifo_send_bqueue exact_routes_by_table, of Fin "\<lambda>_. []" ?rqs]
  obtain tx added where "snd (serve_all exact_routes Fin (\<lambda>_. []) bq_try_send example_store ?rqs) = example_store\<lparr>us_tc_tx := tx\<rparr>"
    "bq_items tx = bq_items (us_tc_tx example_store) @ added"
    "subseq added (List.map_filter (admissible (coarse (us_now_tai example_store)) 600) ?rqs)"
    by auto
  moreover from this(3) have "added = []"
    by (simp add: admissible_def example_store_def ui_state_new_def List.map_filter_simps)
  ultimately show ?thesis by blast
qed

end
