(* ===== verification/Ground_Station.thy ===== *)
theory Ground_Station
  imports Pipeline Ui_Server
begin

text \<open>
  The whole ground station of \<open>rust/ground_station/src/main.rs\<close>: the ingest tasks, the HTTP server
  and the telecommand dispatcher run concurrently over one store.  A step is a turn of an ingest
  task, the answer to one request, or one entry taken by the dispatcher.  The queue between server
  and dispatcher is the record \<open>qo\<close> of its operations.
\<close>

section \<open>State and steps\<close>

record ('f, 'b, 'w, 'q) station =
  gs_pipeline :: "('f, 'b, 'w, 'q) pipeline"
  gs_dispatched :: u64

datatype station_event =
    Ingest pipeline_event
  | Requested ui_request ui_reply
  | Dispatched tc_queue_entry u64

definition station_new ::
  "(nat \<Rightarrow> 'f) \<Rightarrow> (nat \<Rightarrow> 'b) \<Rightarrow> (nat \<Rightarrow> 'w) \<Rightarrow> (nat \<Rightarrow> 'q) \<Rightarrow> ('f, 'b, 'w, 'q) station" where
  "station_new mkf mkb mkw mkq =
     \<lparr>gs_pipeline = pipeline_new mkf mkb mkw (mkq 64), gs_dispatched = 0\<rparr>"

inductive station_step ::
  "'dt time_crate \<Rightarrow> ('f, aos_frame) chan_ops \<Rightarrow> ('b, bytes) chan_ops \<Rightarrow> ('w, u8 \<times> bytes) chan_ops \<Rightarrow>
   ('q, tc_queue_entry) chan_ops \<Rightarrow>
   ((string \<times> http_method \<times> endpoint) list \<Rightarrow> string \<Rightarrow> http_method \<Rightarrow> endpoint option) \<Rightarrow>
   (rat \<Rightarrow> f64) \<Rightarrow> (f64 \<Rightarrow> string) \<Rightarrow>
   ('f, 'b, 'w, 'q) station \<Rightarrow> station_event \<Rightarrow> ('f, 'b, 'w, 'q) station \<Rightarrow> bool"
  for tc fo bo wo qo route rnd fmt1
where
  ingest: "pipeline_step tc fo bo wo (gs_pipeline gs) e pl \<Longrightarrow>
    station_step tc fo bo wo qo route rnd fmt1 gs (Ingest e) (gs\<lparr>gs_pipeline := pl\<rparr>)"
| request: "serve_request route rnd fmt1 (ch_try_send qo) (pl_ui (gs_pipeline gs)) rq = (reply, ui) \<Longrightarrow>
    station_step tc fo bo wo qo route rnd fmt1 gs (Requested rq reply)
      (gs\<lparr>gs_pipeline := (gs_pipeline gs)\<lparr>pl_ui := ui\<rparr>\<rparr>)"
| dispatch: "ch_recv qo (us_tc_tx (pl_ui (gs_pipeline gs))) = Some (entry, q) \<Longrightarrow>
    run_dispatcher (gs_dispatched gs) [entry] = ([(entry, n)], n) \<Longrightarrow>
    station_step tc fo bo wo qo route rnd fmt1 gs (Dispatched entry n)
      (gs\<lparr>gs_pipeline := (gs_pipeline gs)\<lparr>pl_ui := (pl_ui (gs_pipeline gs))\<lparr>us_tc_tx := q\<rparr>\<rparr>,
          gs_dispatched := n\<rparr>)"

inductive station_trace ::
  "'dt time_crate \<Rightarrow> ('f, aos_frame) chan_ops \<Rightarrow> ('b, bytes) chan_ops \<Rightarrow> ('w, u8 \<times> bytes) chan_ops \<Rightarrow>
   ('q, tc_queue_entry) chan_ops \<Rightarrow>
   ((string \<times> http_method \<times> endpoint) list \<Rightarrow> string \<Rightarrow> http_method \<Rightarrow> endpoint option) \<Rightarrow>
   (rat \<Rightarrow> f64) \<Rightarrow> (f64 \<Rightarrow> string) \<Rightarrow>
   ('f, 'b, 'w, 'q) station \<Rightarrow> station_event list \<Rightarrow> ('f, 'b, 'w, 'q) station \<Rightarrow> bool"
  for tc fo bo wo qo route rnd fmt1
where
  start: "station_trace tc fo bo wo qo route rnd fmt1 gs [] gs"
| extend: "station_trace tc fo bo wo qo route rnd fmt1 gs es gs' \<Longrightarrow>
    station_step tc fo bo wo qo route rnd fmt1 gs' e gs'' \<Longrightarrow>
    station_trace tc fo bo wo qo route rnd fmt1 gs (es @ [e]) gs''"

section \<open>What the trace shows\<close>

definition ingested :: "station_event list \<Rightarrow> pipeline_event list" where
  "ingested es = List.map_filter (\<lambda>e. case e of Ingest p \<Rightarrow> Some p | _ \<Rightarrow> None) es"

definition requested :: "station_event list \<Rightarrow> ui_request list" where
  "requested es = List.map_filter (\<lambda>e. case e of Requested rq _ \<Rightarrow> Some rq | _ \<Rightarrow> None) es"

definition dispatched :: "station_event list \<Rightarrow> tc_queue_entry list" where
  "dispatched es = List.map_filter (\<lambda>e. case e of Dispatched entry _ \<Rightarrow> Some entry | _ \<Rightarrow> None) es"

lemma map_filter_append: "List.map_filter f (xs @ ys) = List.map_filter f xs @ List.map_filter f ys"
  by (simp add: List.map_filter_def)

lemmas station_events = ingested_def requested_def dispatched_def map_filter_append List.map_filter_simps

section \<open>Ingest and commands do not meet\<close>

text \<open>What the ingest tasks never write: the queue, the clock and the light time.\<close>

definition command_side :: "'q ui_state \<Rightarrow> 'q \<times> cuc \<times> f64" where
  "command_side ui = (us_tc_tx ui, us_now_tai ui, us_light_time_s ui)"

lemma ingest_keeps_command_side:
  assumes "pipeline_step tc fo bo wo pl e pl'"
  shows "command_side (pl_ui pl') = command_side (pl_ui pl)"
  using assms
  by cases (auto simp: command_side_def process_hk_packet_def process_event_packet_def link_turn_def
      router_turn_def mark_time_suspect_def Let_def
      split: option.split sum.split prod.split route.split)

text \<open>What requests and the dispatcher never write: everything but the queue.\<close>

lemma post_tc_keeps: "\<exists>tx. snd (post_tc rnd fmt1 try_send st req) = st\<lparr>us_tc_tx := tx\<rparr>"
proof -
  have same: "\<exists>tx. st = st\<lparr>us_tc_tx := tx\<rparr>" by (rule exI [of _ "us_tc_tx st"]) simp
  then show ?thesis
    by (auto simp: post_tc_def Let_def split: sum.split option.split)
qed

lemma request_keeps:
  assumes "serve_request route rnd fmt1 try_send st rq = (reply, st')"
  shows "\<exists>tx. st' = st\<lparr>us_tc_tx := tx\<rparr>"
proof -
  have same: "\<exists>tx. st = st\<lparr>us_tc_tx := tx\<rparr>" by (rule exI [of _ "us_tc_tx st"]) simp
  have "\<exists>tx. snd (run_endpoint rnd fmt1 try_send ep body st) = st\<lparr>us_tc_tx := tx\<rparr>" for ep body
  proof (cases "ep = PostTc \<and> body \<noteq> None")
    case True
    then obtain req where "ep = PostTc" "body = Some req" by blast
    then show ?thesis
      using post_tc_keeps [of rnd fmt1 try_send st req] by (auto split: prod.split sum.split)
  next
    case False
    then show ?thesis using run_endpoint_reads [of ep body rnd fmt1 try_send st] same by simp
  qed
  then show ?thesis
    using assms same by (auto simp: serve_request_def split: option.splits) (metis snd_conv)
qed

section \<open>The ingest path inside the station\<close>

text \<open>The ingest tasks do not see the telecommand queue: it may be any other one.\<close>

definition with_queue :: "'q \<Rightarrow> ('f, 'b, 'w, 'q) pipeline \<Rightarrow> ('f, 'b, 'w, 'q) pipeline" where
  "with_queue q pl = pl\<lparr>pl_ui := (pl_ui pl)\<lparr>us_tc_tx := q\<rparr>\<rparr>"

lemma with_queue_simps [simp]:
  "pl_frames (with_queue q pl) = pl_frames pl" "pl_demux (with_queue q pl) = pl_demux pl"
  "pl_decoder (with_queue q pl) = pl_decoder pl" "pl_spp (with_queue q pl) = pl_spp pl"
  "pl_relay (with_queue q pl) = pl_relay pl" "pl_tagged (with_queue q pl) = pl_tagged pl"
  "pl_router (with_queue q pl) = pl_router pl" "pl_hk (with_queue q pl) = pl_hk pl"
  "pl_event (with_queue q pl) = pl_event pl" "pl_cfdp (with_queue q pl) = pl_cfdp pl"
  "pl_rover (with_queue q pl) = pl_rover pl"
  "pl_ui (with_queue q pl) = (pl_ui pl)\<lparr>us_tc_tx := q\<rparr>"
  "with_queue q (with_queue q' pl) = with_queue q pl"
  by (simp_all add: with_queue_def)

lemma with_queue_update:
  "(with_queue q pl)\<lparr>pl_frames := ch\<rparr> = with_queue q (pl\<lparr>pl_frames := ch\<rparr>)"
  "(with_queue q pl)\<lparr>pl_demux := d\<rparr> = with_queue q (pl\<lparr>pl_demux := d\<rparr>)"
  "(with_queue q pl)\<lparr>pl_decoder := dec\<rparr> = with_queue q (pl\<lparr>pl_decoder := dec\<rparr>)"
  "(with_queue q pl)\<lparr>pl_spp := spp\<rparr> = with_queue q (pl\<lparr>pl_spp := spp\<rparr>)"
  "(with_queue q pl)\<lparr>pl_relay := r\<rparr> = with_queue q (pl\<lparr>pl_relay := r\<rparr>)"
  "(with_queue q pl)\<lparr>pl_tagged := w\<rparr> = with_queue q (pl\<lparr>pl_tagged := w\<rparr>)"
  "(with_queue q pl)\<lparr>pl_hk := b\<rparr> = with_queue q (pl\<lparr>pl_hk := b\<rparr>)"
  "(with_queue q pl)\<lparr>pl_event := b\<rparr> = with_queue q (pl\<lparr>pl_event := b\<rparr>)"
  "(with_queue q pl)\<lparr>pl_rover := b\<rparr> = with_queue q (pl\<lparr>pl_rover := b\<rparr>)"
  "(with_queue q pl)\<lparr>pl_ui := ui\<lparr>us_tc_tx := q\<rparr>\<rparr> = with_queue q (pl\<lparr>pl_ui := ui\<rparr>)"
  by (cases pl; simp add: with_queue_def)+

lemma with_queue_self: "us_tc_tx (pl_ui pl) = q \<Longrightarrow> with_queue q pl = pl"
  by (auto simp: with_queue_def)

lemma sinks_queue:
  "process_hk_packet tc utc bs (ui\<lparr>us_tc_tx := q\<rparr>) = (process_hk_packet tc utc bs ui)\<lparr>us_tc_tx := q\<rparr>"
  "process_event_packet tc utc bs (ui\<lparr>us_tc_tx := q\<rparr>) = (process_event_packet tc utc bs ui)\<lparr>us_tc_tx := q\<rparr>"
  "link_turn formatted ls (ui\<lparr>us_tc_tx := q\<rparr>) = (link_turn formatted ls ui)\<lparr>us_tc_tx := q\<rparr>"
  "mark_time_suspect lf (ui\<lparr>us_tc_tx := q\<rparr>) = (mark_time_suspect lf ui)\<lparr>us_tc_tx := q\<rparr>"
  by (simp_all add: process_hk_packet_def process_event_packet_def link_turn_def mark_time_suspect_def
      split: option.split)

lemma router_turn_queue:
  "router_turn bo lf vc bs (with_queue q pl) = with_queue q (router_turn bo lf vc bs pl)"
  by (auto simp: router_turn_def with_queue_def sinks_queue Let_def split: sum.split prod.split route.split)

lemma step_with_queue:
  assumes "pipeline_step tc fo bo wo pl e pl'"
  shows "pipeline_step tc fo bo wo (with_queue q pl) e (with_queue q pl')"
  using assms
proof cases
  case (framed fr ch)
  with pipeline_step.framed [where pl = "with_queue q pl" and tc = tc and fo = fo and bo = bo and wo = wo, of fr ch]
  show ?thesis by (simp add: with_queue_update)
next
  case (framed_lost fr)
  with pipeline_step.framed_lost [where pl = "with_queue q pl" and tc = tc and fo = fo and bo = bo and wo = wo, of fr]
  show ?thesis by simp
next
  case (demux fr ch now outs d)
  with pipeline_step.demux [where pl = "with_queue q pl" and tc = tc and fo = fo and bo = bo and wo = wo, of fr ch now outs d]
  show ?thesis by (simp add: with_queue_update)
next
  case (decode vc c fr c' now outs dec tx)
  with pipeline_step.decode [where pl = "with_queue q pl" and tc = tc and fo = fo and bo = bo and wo = wo, of vc c fr c' now outs dec tx]
  show ?thesis by (simp add: with_queue_update)
next
  case (relay_recv vc bs ch)
  with pipeline_step.relay_recv [where pl = "with_queue q pl" and tc = tc and fo = fo and bo = bo and wo = wo, of vc bs ch]
  show ?thesis by (simp add: with_queue_update)
next
  case (relay_send vc bs ch)
  with pipeline_step.relay_send [where pl = "with_queue q pl" and tc = tc and fo = fo and bo = bo and wo = wo, of vc bs ch]
  show ?thesis by (simp add: with_queue_update)
next
  case (route vc bs ch lf)
  have "(with_queue q pl)\<lparr>pl_tagged := ch\<rparr> = with_queue q (pl\<lparr>pl_tagged := ch\<rparr>)" by (simp add: with_queue_def)
  with route pipeline_step.route [where pl = "with_queue q pl" and tc = tc and fo = fo and bo = bo and wo = wo, of vc bs ch lf]
  show ?thesis by (simp add: router_turn_queue)
next
  case (hk_sink bs ch utc)
  with pipeline_step.hk_sink [where pl = "with_queue q pl" and tc = tc and fo = fo and bo = bo and wo = wo, of bs ch utc]
  show ?thesis by (simp add: with_queue_update sinks_queue)
next
  case (rover_sink bs ch utc)
  with pipeline_step.rover_sink [where pl = "with_queue q pl" and tc = tc and fo = fo and bo = bo and wo = wo, of bs ch utc]
  show ?thesis by (simp add: with_queue_update sinks_queue)
next
  case (event_sink bs ch utc)
  with pipeline_step.event_sink [where pl = "with_queue q pl" and tc = tc and fo = fo and bo = bo and wo = wo, of bs ch utc]
  show ?thesis by (simp add: with_queue_update sinks_queue)
next
  case (link_task formatted ls)
  with pipeline_step.link_task [where pl = "with_queue q pl" and tc = tc and fo = fo and bo = bo and wo = wo, of formatted ls]
  show ?thesis by (simp add: with_queue_update sinks_queue)
qed

lemma station_refines:
  assumes "station_trace tc fo bo wo qo route rnd fmt1 gs es gs'"
  shows "pipeline_trace tc fo bo wo (with_queue q (gs_pipeline gs)) (ingested es) (with_queue q (gs_pipeline gs'))"
  using assms
proof induction
  case (start gs)
  show ?case by (simp add: ingested_def List.map_filter_simps pipeline_trace.start)
next
  case (extend gs es gs' e gs'')
  from extend(2) show ?case
  proof cases
    case (ingest p pl)
    then show ?thesis
      using pipeline_trace.extend [OF extend.IH step_with_queue [OF ingest(3)]] by (simp add: station_events)
  next
    case (request rq reply ui)
    obtain tx where "ui = (pl_ui (gs_pipeline gs'))\<lparr>us_tc_tx := tx\<rparr>"
      using request_keeps [OF request(3)] by blast
    then have "with_queue q (gs_pipeline gs'') = with_queue q (gs_pipeline gs')"
      using request(2) by (simp add: with_queue_def)
    then show ?thesis using extend.IH request(1) by (simp add: station_events)
  next
    case (dispatch entry q' n)
    then have "with_queue q (gs_pipeline gs'') = with_queue q (gs_pipeline gs')"
      by (simp add: with_queue_def)
    then show ?thesis using extend.IH dispatch(1) by (simp add: station_events)
  qed
qed

section \<open>Commands\<close>

definition commands_ok ::
  "('q, tc_queue_entry) chan_ops \<Rightarrow> station_event list \<Rightarrow> ('f, 'b, 'w, 'q) station \<Rightarrow> bool" where
  "commands_ok qo es gs \<longleftrightarrow>
     (let ui = pl_ui (gs_pipeline gs) in
      us_now_tai ui = \<lparr>coarse = 0, fine = 0\<rparr> \<and> us_light_time_s ui = Fin (of_nat 600)
      \<and> subseq (dispatched es @ ch_items qo (us_tc_tx ui)) (List.map_filter (admissible 0 600) (requested es))
      \<and> gs_dispatched gs = of_nat (length (dispatched es)))"

lemma station_new_commands: "ch_items qo (mkq 64) = [] \<Longrightarrow> commands_ok qo [] (station_new mkf mkb mkw mkq)"
  by (simp add: commands_ok_def station_new_def pipeline_new_def ui_state_new_def station_events)

lemma station_step_commands:
  assumes "station_step tc fo bo wo qo route rnd fmt1 gs e gs'" "commands_ok qo es gs"
    and "\<forall>n :: int. \<bar>n\<bar> \<le> 2 ^ 53 \<longrightarrow> rnd (of_int n) = Fin (of_int n)" "chan_laws qo" "routes_by_table route"
  shows "commands_ok qo (es @ [e]) gs'"
  using assms(1)
proof cases
  case (ingest p pl)
  then show ?thesis
    using assms(2) ingest_keeps_command_side [OF ingest(3)]
    by (simp add: commands_ok_def command_side_def station_events Let_def)
next
  case (request rq reply ui)
  let ?ui = "pl_ui (gs_pipeline gs)"
  have fifo: "fifo_send (ch_try_send qo) (ch_items qo)" using assms(4) by (simp add: chan_laws_def)
  have ui: "us_light_time_s ?ui = Fin (of_nat 600)" "coarse (us_now_tai ?ui) = 0"
    using assms(2) by (simp_all add: commands_ok_def Let_def)
  obtain tx added where tx: "ui = ?ui\<lparr>us_tc_tx := tx\<rparr>"
    "ch_items qo tx = ch_items qo (us_tc_tx ?ui) @ added"
    "subseq added (List.map_filter (admissible 0 600) [rq])"
    using serve_step [OF assms(3) _ ui(1) fifo assms(5), of fmt1 rq] request(3) ui(2) by auto
  have "subseq ((dispatched es @ ch_items qo (us_tc_tx ?ui)) @ added)
      (List.map_filter (admissible 0 600) (requested es) @ List.map_filter (admissible 0 600) [rq])"
    using assms(2) tx(3) by (intro list_emb_append_mono) (simp_all add: commands_ok_def Let_def)
  then show ?thesis
    using assms(2) request(1,2) tx(1,2) by (simp add: commands_ok_def station_events Let_def)
next
  case (dispatch entry q n)
  have "ch_items qo (us_tc_tx (pl_ui (gs_pipeline gs))) = entry # ch_items qo q"
    using chan_recvD [OF assms(4) dispatch(3)] .
  moreover have "n = gs_dispatched gs + 1" using dispatch(4) by (simp add: Let_def)
  ultimately show ?thesis
    using assms(2) dispatch(1,2) by (simp add: commands_ok_def station_events Let_def)
qed

lemma station_commands:
  assumes "station_trace tc fo bo wo qo route rnd fmt1 gs es gs'" "commands_ok qo [] gs"
    and "\<forall>n :: int. \<bar>n\<bar> \<le> 2 ^ 53 \<longrightarrow> rnd (of_int n) = Fin (of_int n)" "chan_laws qo" "routes_by_table route"
  shows "commands_ok qo es gs'"
  using assms(1,2)
proof induction
  case (extend gs es gs' e gs'')
  then show ?case using station_step_commands [OF extend(2) _ assms(3-5)] by blast
qed

section \<open>Properties\<close>

text \<open>
  C11: The whole station refines its ingest path.  Whatever the server and the dispatcher do in
  between, the ingest turns of a run of the station, alone and with any telecommand queue, are a
  run of the ingest task graph that ends with the same tasks, channels and surfaces; so what is
  proved of the task graph holds inside the station.
\<close>

theorem station_refines_ingest:
  assumes "station_trace tc fo bo wo qo route rnd fmt1 gs es gs'"
  shows "pipeline_trace tc fo bo wo
      ((gs_pipeline gs)\<lparr>pl_ui := (pl_ui (gs_pipeline gs))\<lparr>us_tc_tx := q\<rparr>\<rparr>) (ingested es)
      ((gs_pipeline gs')\<lparr>pl_ui := (pl_ui (gs_pipeline gs'))\<lparr>us_tc_tx := q\<rparr>\<rparr>)"
  using station_refines [OF assms, of q] by (simp only: with_queue_def)

text \<open>
  C12: Only telecommands in time are dispatched.  In every run of the station, what the dispatcher
  has taken and what is still queued are, in order and each at most once, telecommands of requests
  to POST \<open>/api/tc\<close> with a deadline of at least 600: the clock is never advanced and the light time
  never changed.  The dispatcher's running total is the number of its entries.
\<close>

theorem station_dispatches_in_time:
  assumes "station_trace tc fo bo wo qo route rnd fmt1 (station_new mkf mkb mkw mkq) es gs"
    and "\<forall>n :: int. \<bar>n\<bar> \<le> 2 ^ 53 \<longrightarrow> rnd (of_int n) = Fin (of_int n)"
    and "chan_laws qo" "ch_items qo (mkq 64) = []" "routes_by_table route"
  shows "subseq (dispatched es @ ch_items qo (us_tc_tx (pl_ui (gs_pipeline gs))))
      (List.map_filter (admissible 0 600) (requested es))
    \<and> gs_dispatched gs = of_nat (length (dispatched es))"
  using station_commands [OF assms(1) station_new_commands [where mkq = mkq and qo = qo, OF assms(4)] assms(2,3,5)]
  by (simp add: commands_ok_def Let_def)

definition example_request :: ui_request where
  "example_request = \<lparr>rq_path = ''/api/tc'', rq_method = Post,
     rq_body = Some \<lparr>tr_valid_until = 700, tr_apid = Some 0x181, tr_func_code = None\<rparr>\<rparr>"

definition example_entry :: tc_queue_entry where
  "example_entry = \<lparr>te_apid = 0x181, te_func_code = 0, te_payload = [], te_valid_until = 700\<rparr>"

definition example_station ::
  "(aos_frame bqueue, bytes bqueue, (u8 \<times> bytes) bqueue, tc_queue_entry bqueue) station" where
  "example_station = station_new fresh_queue fresh_queue fresh_queue fresh_queue"

lemma example_served:
  "serve_request exact_routes Fin (\<lambda>_. []) bq_try_send (ui_state_new 37 (fresh_queue 64)) example_request =
     (TcReply \<lparr>tp_accepted = True\<rparr>, ui_state_new 37 (fresh_queue 64\<lparr>bq_items := [example_entry]\<rparr>))"
  by code_simp

lemma example_calls: "station_trace example_calendar bqueue_ops bqueue_ops bqueue_ops bqueue_ops exact_routes Fin (\<lambda>_. [])
    example_station [Requested example_request (TcReply \<lparr>tp_accepted = True\<rparr>), Dispatched example_entry 1]
    (example_station\<lparr>gs_dispatched := 1\<rparr>)"
proof -
  let ?mid = "example_station\<lparr>gs_pipeline := (gs_pipeline example_station)\<lparr>pl_ui :=
      ui_state_new 37 (fresh_queue 64\<lparr>bq_items := [example_entry]\<rparr>)\<rparr>\<rparr>"
  have ui: "pl_ui (gs_pipeline example_station) = ui_state_new 37 (fresh_queue 64)"
    by (simp add: example_station_def station_new_def pipeline_new_def)
  have one: "station_step example_calendar bqueue_ops bqueue_ops bqueue_ops bqueue_ops exact_routes Fin (\<lambda>_. [])
      example_station (Requested example_request (TcReply \<lparr>tp_accepted = True\<rparr>)) ?mid"
    by (rule station_step.request) (simp add: ui example_served bqueue_ops_def)
  have restored: "ui_state_new 37 (fresh_queue 64\<lparr>bq_items := [example_entry]\<rparr>)\<lparr>us_tc_tx := fresh_queue 64\<rparr>
      = pl_ui (gs_pipeline example_station)"
    by (simp add: ui ui_state_new_def)
  have two: "station_step example_calendar bqueue_ops bqueue_ops bqueue_ops bqueue_ops exact_routes Fin (\<lambda>_. [])
      ?mid (Dispatched example_entry 1) (example_station\<lparr>gs_dispatched := 1\<rparr>)"
  proof -
    have "ch_recv bqueue_ops (us_tc_tx (pl_ui (gs_pipeline ?mid))) = Some (example_entry, fresh_queue 64)"
      by (simp add: ui_state_new_def bqueue_ops_def bq_recv_def fresh_queue_def)
    moreover have "run_dispatcher (gs_dispatched ?mid) [example_entry] = ([(example_entry, 1)], 1)"
      by (simp add: example_station_def station_new_def)
    ultimately have "station_step example_calendar bqueue_ops bqueue_ops bqueue_ops bqueue_ops exact_routes Fin (\<lambda>_. [])
      ?mid (Dispatched example_entry 1)
      (?mid\<lparr>gs_pipeline := (gs_pipeline ?mid)\<lparr>pl_ui := (pl_ui (gs_pipeline ?mid))\<lparr>us_tc_tx := fresh_queue 64\<rparr>\<rparr>, gs_dispatched := 1\<rparr>)"
      by (rule station_step.dispatch)
    then show ?thesis by (simp add: restored)
  qed
  show ?thesis
    using station_trace.extend [OF station_trace.extend [OF station_trace.start one] two] by simp
qed

lemma example_run_with:
  "\<exists>es pl. pipeline_trace example_calendar bqueue_ops bqueue_ops bqueue_ops
     (pipeline_new fresh_queue fresh_queue fresh_queue (q :: tc_queue_entry bqueue)) es pl \<and> framed_on 0 es = [example_hk]"
proof -
  have "path_clear bqueue_ops bqueue_ops bqueue_ops 0 (pipeline_new fresh_queue fresh_queue fresh_queue q)"
    using start_path_clear by (simp add: path_clear_def example_start_def pipeline_new_def)
  from framed_to_relay [OF bqueue_laws bqueue_laws bqueue_live bqueue_live this,
      where fr = example_hk_frame and k = example_hk_packet and tc = example_calendar] example_hk_parse
  show ?thesis by (simp add: served_vcs_def example_hk_frame_def) blast
qed

lemma ingest_in_station:
  assumes "pipeline_trace tc fo bo wo pl es pl'" "station_trace tc fo bo wo qo route rnd fmt1 gs ss gs'"
    "gs_pipeline gs' = pl"
  shows "station_trace tc fo bo wo qo route rnd fmt1 gs (ss @ map Ingest es) (gs'\<lparr>gs_pipeline := pl'\<rparr>)"
  using assms
proof induction
  case (start pl)
  then show ?case by auto
next
  case (extend pl es pl' e pl'')
  then show ?case
    using station_trace.extend [OF extend.IH [OF extend.prems]
        station_step.ingest [where gs = "gs'\<lparr>gs_pipeline := pl'\<rparr>"]] by simp
qed

lemma ingested_calls: "ingested [Requested rq reply, Dispatched entry n] = []"
  by (simp add: station_events)

lemma ingested_map: "ingested (ss @ map Ingest es) = ingested ss @ es"
  by (induction es) (simp_all add: station_events)

theorem station_refines_ingest_witness:
  "\<exists>es pl q. framed_on 0 es = [example_hk] \<and> pipeline_trace example_calendar bqueue_ops bqueue_ops bqueue_ops
     (pipeline_new fresh_queue fresh_queue fresh_queue (fresh_queue 1 :: tc_queue_entry bqueue)) es (pl\<lparr>pl_ui := (pl_ui pl)\<lparr>us_tc_tx := q\<rparr>\<rparr>)"
proof -
  let ?gs = "example_station\<lparr>gs_dispatched := 1\<rparr>"
  obtain es pl where run: "pipeline_trace example_calendar bqueue_ops bqueue_ops bqueue_ops
      (pipeline_new fresh_queue fresh_queue fresh_queue (fresh_queue 64 :: tc_queue_entry bqueue)) es pl" "framed_on 0 es = [example_hk]"
    using example_run_with by blast
  have "gs_pipeline ?gs = pipeline_new fresh_queue fresh_queue fresh_queue (fresh_queue 64)"
    by (simp add: example_station_def station_new_def)
  note trace = ingest_in_station [OF run(1) example_calls this]
  have "pipeline_trace example_calendar bqueue_ops bqueue_ops bqueue_ops
      ((gs_pipeline example_station)\<lparr>pl_ui := (pl_ui (gs_pipeline example_station))\<lparr>us_tc_tx := fresh_queue 1\<rparr>\<rparr>)
      es (pl\<lparr>pl_ui := (pl_ui pl)\<lparr>us_tc_tx := fresh_queue 1\<rparr>\<rparr>)"
  using station_refines_ingest [OF trace, of "fresh_queue 1"] by (simp only: ingested_map ingested_calls append_Nil) simp
  moreover have "(gs_pipeline example_station)\<lparr>pl_ui := (pl_ui (gs_pipeline example_station))\<lparr>us_tc_tx := fresh_queue 1\<rparr>\<rparr>
      = pipeline_new fresh_queue fresh_queue fresh_queue (fresh_queue 1)"
    by (simp add: example_station_def station_new_def pipeline_new_def ui_state_new_def)
  ultimately show ?thesis using run(2) by auto
qed

theorem station_dispatches_in_time_witness:
  "subseq [example_entry] (List.map_filter (admissible 0 600) [example_request])"
  using station_dispatches_in_time [OF example_calls [unfolded example_station_def] _ bqueue_laws _ exact_routes_by_table]
  by (simp add: station_events station_new_def pipeline_new_def ui_state_new_def fresh_queue_def bqueue_ops_def)

end
