(* ===== verification/Pipeline_Drain.thy ===== *)
theory Pipeline_Drain
  imports Pipeline
begin

text \<open>
  The task graph of \<open>rust/ground_station/src/main.rs\<close> comes to rest.  A turn that takes a message
  moves it at least one stage forward or loses it, so that the work left, a weighted count of the
  messages in the channels, decreases; when no task can take a turn, nothing is left on the way.
\<close>

section \<open>Turns that take a message\<close>

text \<open>Every turn except the arrival of a frame and the turn of the link-state subscriber.\<close>

definition message_turn ::
  "'dt time_crate \<Rightarrow> ('f, aos_frame) chan_ops \<Rightarrow> ('b, bytes) chan_ops \<Rightarrow> ('w, u8 \<times> bytes) chan_ops \<Rightarrow>
   ('f, 'b, 'w, 'q) pipeline \<Rightarrow> ('f, 'b, 'w, 'q) pipeline \<Rightarrow> bool" where
  "message_turn tc fo bo wo pl pl' \<longleftrightarrow>
     (\<exists>e. pipeline_step tc fo bo wo pl e pl' \<and> (\<forall>fr. e \<noteq> Framed fr))
     \<and> (\<forall>formatted ls. pl' \<noteq> pl\<lparr>pl_ui := link_turn formatted ls (pl_ui pl)\<rparr>)"

definition vc_work ::
  "('f, aos_frame) chan_ops \<Rightarrow> ('b, bytes) chan_ops \<Rightarrow> ('f, 'b, 'w, 'q) pipeline \<Rightarrow> u8 \<Rightarrow> nat" where
  "vc_work fo bo pl vc =
     7 * length (queued (ch_items fo) (pl_demux pl) vc) + 5 * length (ch_items bo (pl_spp pl vc))
     + (case pl_relay pl vc of None \<Rightarrow> 0 | Some _ \<Rightarrow> 4)"

definition work_left ::
  "('f, aos_frame) chan_ops \<Rightarrow> ('b, bytes) chan_ops \<Rightarrow> ('w, u8 \<times> bytes) chan_ops \<Rightarrow>
   ('f, 'b, 'w, 'q) pipeline \<Rightarrow> nat" where
  "work_left fo bo wo pl =
     9 * length (ch_items fo (pl_frames pl)) + (\<Sum>vc \<in> served_vcs. vc_work fo bo pl vc)
     + 3 * length (ch_items wo (pl_tagged pl))
     + length (ch_items bo (pl_hk pl)) + length (ch_items bo (pl_event pl)) + length (ch_items bo (pl_rover pl))"

lemma sum_one_change:
  fixes f g :: "'a \<Rightarrow> nat"
  assumes "finite A" "a \<in> A" "\<And>x. x \<in> A \<Longrightarrow> x \<noteq> a \<Longrightarrow> f x = g x"
  shows "sum f A + g a = sum g A + f a"
proof -
  have "sum f (A - {a}) = sum g (A - {a})" using assms(3) by (intro sum.cong) auto
  then show ?thesis using assms(1,2) by (simp add: sum.remove [of A a])
qed

lemma finite_served: "finite served_vcs"
  by (simp add: served_vcs_def)

lemma offer_length: "chan_laws bo \<Longrightarrow> length (ch_items bo (offer bo ch bs)) \<le> Suc (length (ch_items bo ch))"
  by (auto simp: offer_def chan_sendD split: option.split)

lemma router_turn_work:
  assumes "chan_laws bo"
  shows "work_left fo bo wo (router_turn bo lock_free vc bs pl) \<le> Suc (work_left fo bo wo pl)"
  using offer_length [OF assms, of "pl_hk pl" bs] offer_length [OF assms, of "pl_event pl" bs]
    offer_length [OF assms, of "pl_rover pl" bs]
  by (auto simp: router_turn_def work_left_def vc_work_def Let_def split: sum.split prod.split route.split)

lemma dispatch_work:
  assumes "chan_laws fo" "demux_dispatch (ch_try_send fo) (pl_demux pl) now fr = (outs, d)"
  shows "(\<Sum>vc \<in> served_vcs. vc_work fo bo (pl\<lparr>pl_frames := ch, pl_demux := d\<rparr>) vc)
    \<le> (\<Sum>vc \<in> served_vcs. vc_work fo bo pl vc) + 7"
proof -
  have "vc_work fo bo (pl\<lparr>pl_frames := ch, pl_demux := d\<rparr>) vc \<le> vc_work fo bo pl vc + (if vc = af_vc_id fr then 7 else 0)" for vc
    using dispatch_queued [OF assms, of vc] by (auto simp: vc_work_def)
  then have "(\<Sum>vc \<in> served_vcs. vc_work fo bo (pl\<lparr>pl_frames := ch, pl_demux := d\<rparr>) vc)
      \<le> (\<Sum>vc \<in> served_vcs. vc_work fo bo pl vc + (if vc = af_vc_id fr then 7 else 0))"
    by (intro sum_mono)
  also have "\<dots> \<le> (\<Sum>vc \<in> served_vcs. vc_work fo bo pl vc) + 7"
    using finite_served by (simp add: sum.distrib)
  finally show ?thesis .
qed

lemma step_work:
  assumes "pipeline_step tc fo bo wo pl e pl'" "\<forall>fr. e \<noteq> Framed fr"
    and laws: "chan_laws fo" "chan_laws bo" "chan_laws wo"
  shows "work_left fo bo wo pl' < work_left fo bo wo pl
    \<or> (\<exists>formatted ls. pl' = pl\<lparr>pl_ui := link_turn formatted ls (pl_ui pl)\<rparr>)"
  using assms(1)
proof cases
  case (demux fr ch now outs d)
  then show ?thesis
    using dispatch_work [OF laws(1) demux(4), of bo ch] chan_recvD [OF laws(1) demux(3)]
    by (simp add: work_left_def)
next
  case (decode vc c fr c' now outs dec tx)
  have "ch_items bo tx = ch_items bo (pl_spp pl vc) @ [af_data fr] \<or> tx = pl_spp pl vc"
    using decoder_sends [OF laws(2) decode(6)] by blast
  then have less: "vc_work fo bo pl' vc < vc_work fo bo pl vc"
    using decode(2,4) chan_recvD [OF laws(1) decode(5)] by (auto simp: vc_work_def queued_def)
  have "vc_work fo bo pl' v = vc_work fo bo pl v" if "v \<noteq> vc" for v
    using decode(2) that by (simp add: vc_work_def queued_def)
  then have "(\<Sum>v \<in> served_vcs. vc_work fo bo pl' v) < (\<Sum>v \<in> served_vcs. vc_work fo bo pl v)"
    using less sum_one_change [OF finite_served decode(3), of "vc_work fo bo pl'" "vc_work fo bo pl"] by simp
  then show ?thesis using decode(2) by (simp add: work_left_def)
next
  case (relay_recv vc bs ch)
  then have less: "vc_work fo bo pl' vc < vc_work fo bo pl vc"
    using chan_recvD [OF laws(2) relay_recv(5)] by (simp add: vc_work_def)
  have "vc_work fo bo pl' v = vc_work fo bo pl v" if "v \<noteq> vc" for v
    using relay_recv(2) that by (simp add: vc_work_def)
  then have "(\<Sum>v \<in> served_vcs. vc_work fo bo pl' v) < (\<Sum>v \<in> served_vcs. vc_work fo bo pl v)"
    using less sum_one_change [OF finite_served relay_recv(3), of "vc_work fo bo pl'" "vc_work fo bo pl"] by simp
  then show ?thesis using relay_recv(2) by (simp add: work_left_def)
next
  case (relay_send vc bs ch)
  then have less: "vc_work fo bo pl' vc + 4 = vc_work fo bo pl vc"
    by (simp add: vc_work_def)
  have "vc_work fo bo pl' v = vc_work fo bo pl v" if "v \<noteq> vc" for v
    using relay_send(2) that by (simp add: vc_work_def)
  then have "(\<Sum>v \<in> served_vcs. vc_work fo bo pl' v) + 4 = (\<Sum>v \<in> served_vcs. vc_work fo bo pl v)"
    using less sum_one_change [OF finite_served relay_send(3), of "vc_work fo bo pl'" "vc_work fo bo pl"] by simp
  then show ?thesis
    using relay_send(2) chan_sendD [OF laws(3) relay_send(5)] by (simp add: work_left_def)
next
  case (route vc bs ch lock_free)
  have "work_left fo bo wo (pl\<lparr>pl_tagged := ch\<rparr>) + 3 = work_left fo bo wo pl"
    using chan_recvD [OF laws(3) route(3)] by (simp add: work_left_def vc_work_def)
  then show ?thesis
    using router_turn_work [OF laws(2), of fo wo lock_free vc bs "pl\<lparr>pl_tagged := ch\<rparr>"] route(2) by simp
next
  case (hk_sink bs ch utc)
  then show ?thesis using chan_recvD [OF laws(2) hk_sink(3)] by (simp add: work_left_def vc_work_def)
next
  case (rover_sink bs ch utc)
  then show ?thesis using chan_recvD [OF laws(2) rover_sink(3)] by (simp add: work_left_def vc_work_def)
next
  case (event_sink bs ch utc)
  then show ?thesis using chan_recvD [OF laws(2) event_sink(3)] by (simp add: work_left_def vc_work_def)
qed (use assms(2) in auto)

lemma message_turn_work:
  assumes "message_turn tc fo bo wo pl pl'" "chan_laws fo" "chan_laws bo" "chan_laws wo"
  shows "work_left fo bo wo pl' < work_left fo bo wo pl"
  using assms(1) step_work [OF _ _ assms(2-4), of tc pl _ pl'] unfolding message_turn_def by blast

lemma turns_work:
  assumes "chan_laws fo" "chan_laws bo" "chan_laws wo"
  shows "(message_turn tc fo bo wo ^^ n) pl pl' \<Longrightarrow> n + work_left fo bo wo pl' \<le> work_left fo bo wo pl"
proof (induction n arbitrary: pl')
  case (Suc n)
  then obtain mid where "(message_turn tc fo bo wo ^^ n) pl mid" "message_turn tc fo bo wo mid pl'"
    by auto
  then show ?case using Suc.IH message_turn_work [OF _ assms] by fastforce
qed simp

section \<open>Rest\<close>

definition chan_roomy :: "('ch, 'a) chan_ops \<Rightarrow> bool" where
  "chan_roomy ops \<longleftrightarrow> (\<forall>ch x. ch_items ops ch = [] \<longrightarrow> ch_try_send ops ch x \<noteq> None)"

definition at_rest ::
  "'dt time_crate \<Rightarrow> ('f, aos_frame) chan_ops \<Rightarrow> ('b, bytes) chan_ops \<Rightarrow> ('w, u8 \<times> bytes) chan_ops \<Rightarrow>
   ('f, 'b, 'w, 'q) pipeline \<Rightarrow> bool" where
  "at_rest tc fo bo wo pl \<longleftrightarrow> (\<forall>pl'. \<not> message_turn tc fo bo wo pl pl')"

text \<open>At rest, the turns that are possible leave every channel as it is.\<close>

lemma rest_keeps:
  assumes "at_rest tc fo bo wo pl" "pipeline_step tc fo bo wo pl e pl'" "\<forall>fr. e \<noteq> Framed fr"
  shows "pl_frames pl' = pl_frames pl" "pl_demux pl' = pl_demux pl" "pl_spp pl' = pl_spp pl"
    "pl_relay pl' = pl_relay pl" "pl_tagged pl' = pl_tagged pl" "pl_hk pl' = pl_hk pl"
    "pl_event pl' = pl_event pl" "pl_rover pl' = pl_rover pl"
proof -
  obtain formatted ls where "pl' = pl\<lparr>pl_ui := link_turn formatted ls (pl_ui pl)\<rparr>"
    using assms unfolding at_rest_def message_turn_def by blast
  then show "pl_frames pl' = pl_frames pl" "pl_demux pl' = pl_demux pl" "pl_spp pl' = pl_spp pl"
    "pl_relay pl' = pl_relay pl" "pl_tagged pl' = pl_tagged pl" "pl_hk pl' = pl_hk pl"
    "pl_event pl' = pl_event pl" "pl_rover pl' = pl_rover pl" by simp_all
qed

text \<open>A channel whose receipts all leave it unchanged is empty.\<close>

lemma stuck_channel:
  assumes "chan_laws ops" "chan_live ops" "\<And>x ch'. ch_recv ops ch = Some (x, ch') \<Longrightarrow> ch' = ch"
  shows "ch_items ops ch = []"
proof (rule ccontr)
  assume "ch_items ops ch \<noteq> []"
  then obtain x ch' where r: "ch_recv ops ch = Some (x, ch')"
    using assms(2) by (fastforce simp: chan_live_def)
  show False using chan_recvD [OF assms(1) r] assms(3) [OF r] by simp
qed

definition drained ::
  "('f, aos_frame) chan_ops \<Rightarrow> ('b, bytes) chan_ops \<Rightarrow> ('w, u8 \<times> bytes) chan_ops \<Rightarrow>
   ('f, 'b, 'w, 'q) pipeline \<Rightarrow> bool" where
  "drained fo bo wo pl \<longleftrightarrow>
     ch_items fo (pl_frames pl) = [] \<and> (\<forall>vc \<in> served_vcs. in_flight fo bo wo pl vc = [])
     \<and> ch_items wo (pl_tagged pl) = []
     \<and> ch_items bo (pl_hk pl) = [] \<and> ch_items bo (pl_event pl) = [] \<and> ch_items bo (pl_rover pl) = []"

lemma rest_drained:
  assumes rest: "at_rest tc fo bo wo pl"
    and laws: "chan_laws fo" "chan_laws bo" "chan_laws wo"
    and live: "chan_live fo" "chan_live bo" "chan_live wo" "chan_roomy wo"
  shows "drained fo bo wo pl"
proof -
  have frames: "ch_items fo (pl_frames pl) = []"
  proof (rule stuck_channel [OF laws(1) live(1)])
    fix fr ch assume r: "ch_recv fo (pl_frames pl) = Some (fr, ch)"
    obtain outs d where "demux_dispatch (ch_try_send fo) (pl_demux pl) 0 fr = (outs, d)" by fastforce
    from rest_keeps(1) [OF rest pipeline_step.demux [OF r this]] show "ch = pl_frames pl" by simp
  qed
  have tagged: "ch_items wo (pl_tagged pl) = []"
  proof (rule stuck_channel [OF laws(3) live(3)])
    fix x ch assume "ch_recv wo (pl_tagged pl) = Some (x, ch)"
    then have "ch_recv wo (pl_tagged pl) = Some ((fst x, snd x), ch)" by simp
    from rest_keeps(5) [OF rest pipeline_step.route [OF this, of tc fo bo True]] show "ch = pl_tagged pl" by simp
  qed
  have relay: "pl_relay pl vc = None" if "vc \<in> served_vcs" for vc
  proof (rule ccontr)
    assume "pl_relay pl vc \<noteq> None"
    then obtain bs where bs: "pl_relay pl vc = Some bs" by blast
    obtain ch where "ch_try_send wo (pl_tagged pl) (vc, bs) = Some ch"
      using live(4) tagged unfolding chan_roomy_def by blast
    from rest_keeps(4) [OF rest pipeline_step.relay_send [OF that bs this]] show False
      using bs by (simp add: fun_eq_iff) (metis option.distinct(1))
  qed
  have spp: "ch_items bo (pl_spp pl vc) = []" if "vc \<in> served_vcs" for vc
  proof (rule stuck_channel [OF laws(2) live(2)])
    fix bs ch assume "ch_recv bo (pl_spp pl vc) = Some (bs, ch)"
    from rest_keeps(3) [OF rest pipeline_step.relay_recv [OF that relay [OF that] this]]
    show "ch = pl_spp pl vc" by (simp add: fun_eq_iff) metis
  qed
  have queue: "queued (ch_items fo) (pl_demux pl) vc = []" if "vc \<in> served_vcs" for vc
  proof (cases "dx_senders (pl_demux pl) vc")
    case (Some c)
    have "ch_items fo c = []"
    proof (rule stuck_channel [OF laws(1) live(1)])
      fix fr c' assume r: "ch_recv fo c = Some (fr, c')"
      obtain outs dec tx where "decoder_process (ch_try_send bo) (pl_decoder pl vc) (pl_spp pl vc) 0 fr = (outs, dec, tx)"
        by (metis prod_cases3)
      from rest_keeps(2) [OF rest pipeline_step.decode [OF that Some r this]]
      have "(pl_demux pl)\<lparr>dx_senders := (dx_senders (pl_demux pl))(vc \<mapsto> c')\<rparr> = pl_demux pl" by simp
      from arg_cong [OF this, of dx_senders] have "((dx_senders (pl_demux pl))(vc \<mapsto> c')) vc = dx_senders (pl_demux pl) vc"
        by simp
      with Some show "c' = c" by simp
    qed
    with Some show ?thesis by (simp add: queued_def)
  qed (simp add: queued_def)
  have "ch_items bo (pl_hk pl) = []"
    using rest_keeps(6) [OF rest pipeline_step.hk_sink] by (intro stuck_channel [OF laws(2) live(2)]) simp
  moreover have "ch_items bo (pl_rover pl) = []"
    using rest_keeps(8) [OF rest pipeline_step.rover_sink] by (intro stuck_channel [OF laws(2) live(2)]) simp
  moreover have "ch_items bo (pl_event pl) = []"
    using rest_keeps(7) [OF rest pipeline_step.event_sink] by (intro stuck_channel [OF laws(2) live(2)]) simp
  ultimately show ?thesis
    using frames tagged relay spp queue by (simp add: drained_def in_flight_def)
qed

text \<open>Rest is reached from every state.\<close>

lemma reaches_rest:
  assumes "chan_laws fo" "chan_laws bo" "chan_laws wo"
  shows "\<exists>n pl'. (message_turn tc fo bo wo ^^ n) pl pl' \<and> at_rest tc fo bo wo pl'"
proof (induction "work_left fo bo wo pl" arbitrary: pl rule: less_induct)
  case less
  show ?case
  proof (cases "at_rest tc fo bo wo pl")
    case True
    then show ?thesis by (intro exI [of _ 0] exI [of _ pl]) simp
  next
    case False
    then obtain mid where mid: "message_turn tc fo bo wo pl mid" by (auto simp: at_rest_def)
    obtain n pl' where "(message_turn tc fo bo wo ^^ n) mid pl'" "at_rest tc fo bo wo pl'"
      using less [OF message_turn_work [OF mid assms]] by blast
    with mid show ?thesis by (metis relpowp_Suc_I2)
  qed
qed

section \<open>Properties\<close>

text \<open>
  C9: The backlog drains.  Once no more frames arrive, the tasks take at most \<open>work_left\<close> turns
  that move a message, in whatever order they are scheduled; a state of rest can be reached, and in
  every state of rest that is reached nothing is left between the framer and the sinks.
\<close>

theorem pipeline_drains:
  assumes "chan_laws fo" "chan_laws bo" "chan_laws wo"
    and "chan_live fo" "chan_live bo" "chan_live wo" "chan_roomy wo"
  shows "(\<forall>n pl'. (message_turn tc fo bo wo ^^ n) pl pl' \<longrightarrow>
      n \<le> work_left fo bo wo pl
      \<and> (at_rest tc fo bo wo pl' \<longrightarrow>
          ch_items fo (pl_frames pl') = [] \<and> (\<forall>vc \<in> {0, 1, 2, 3}. in_flight fo bo wo pl' vc = [])
          \<and> ch_items bo (pl_hk pl') = [] \<and> ch_items bo (pl_event pl') = [] \<and> ch_items bo (pl_rover pl') = []))
    \<and> (\<exists>n pl'. (message_turn tc fo bo wo ^^ n) pl pl' \<and> at_rest tc fo bo wo pl')"
proof (intro conjI allI impI)
  fix n pl' assume run: "(message_turn tc fo bo wo ^^ n) pl pl'"
  show "n \<le> work_left fo bo wo pl" using turns_work [OF assms(1-3) run] by simp
next
  fix n pl' assume "at_rest tc fo bo wo pl'"
  from rest_drained [OF this assms]
  show "ch_items fo (pl_frames pl') = []" "\<forall>vc \<in> {0, 1, 2, 3}. in_flight fo bo wo pl' vc = []"
    "ch_items bo (pl_hk pl') = []" "ch_items bo (pl_event pl') = []" "ch_items bo (pl_rover pl') = []"
    by (simp_all add: drained_def served_vcs_def)
qed (rule reaches_rest [OF assms(1-3)])

text \<open>A first-in first-out queue of fixed capacity, at least one.\<close>

definition fixed_queue :: "nat \<Rightarrow> ('a list, 'a) chan_ops" where
  "fixed_queue cap =
     \<lparr>ch_try_send = (\<lambda>q x. if length q \<le> cap then Some (q @ [x]) else None),
      ch_recv = (\<lambda>q. case q of [] \<Rightarrow> None | x # xs \<Rightarrow> Some (x, xs)), ch_items = (\<lambda>q. q)\<rparr>"

lemma fixed_queue_laws:
  "chan_laws (fixed_queue cap)" "chan_live (fixed_queue cap)" "chan_roomy (fixed_queue cap)"
  by (auto simp: chan_laws_def chan_live_def chan_roomy_def fixed_queue_def fifo_send_def fifo_recv_def
      split: list.splits if_splits)

theorem pipeline_drains_witness:
  "\<exists>n pl'. (message_turn example_calendar (fixed_queue 511) (fixed_queue 255) (fixed_queue 1023) ^^ n)
      ((pipeline_new (\<lambda>_. []) (\<lambda>_. []) (\<lambda>_. []) ())\<lparr>pl_frames := [example_hk_frame]\<rparr>) pl'
    \<and> in_flight (fixed_queue 511) (fixed_queue 255) (fixed_queue 1023) pl' 0 = []"
  using pipeline_drains [OF fixed_queue_laws(1) fixed_queue_laws(1) fixed_queue_laws(1)
      fixed_queue_laws(2) fixed_queue_laws(2) fixed_queue_laws(2) fixed_queue_laws(3),
      of example_calendar 511 255 1023
      "(pipeline_new (\<lambda>_. []) (\<lambda>_. []) (\<lambda>_. []) ())\<lparr>pl_frames := [example_hk_frame]\<rparr>"]
  by blast

end
