(* ===== verification/Pipeline_Burst.thy ===== *)
theory Pipeline_Burst
  imports Pipeline_Drain
begin

text \<open>
  No loss in a burst: as long as the framer has produced no more frames than its queue holds
  (\<open>AOS_TO_DEMUX_CAP\<close>, 64), no send of the ingest path in \<open>rust/ground_station/src/main.rs\<close> can be
  refused, however slow each task is, so nothing that parses is lost.  The capacity a channel is
  created with is the function \<open>cap\<close>; that it stays the same and that a send is refused only when the
  queue is full is \<open>chan_capacity\<close>.
\<close>

section \<open>Capacities\<close>

definition chan_capacity :: "('ch, 'a) chan_ops \<Rightarrow> ('ch \<Rightarrow> nat) \<Rightarrow> bool" where
  "chan_capacity ops cap \<longleftrightarrow>
     (\<forall>ch x. length (ch_items ops ch) < cap ch \<longrightarrow> ch_try_send ops ch x \<noteq> None)
     \<and> (\<forall>ch x ch'. ch_try_send ops ch x = Some ch' \<longrightarrow> cap ch' = cap ch)
     \<and> (\<forall>ch x ch'. ch_recv ops ch = Some (x, ch') \<longrightarrow> cap ch' = cap ch)"

lemma capacityD:
  assumes "chan_capacity ops cap"
  shows "length (ch_items ops ch) < cap ch \<Longrightarrow> \<exists>ch'. ch_try_send ops ch x = Some ch'"
    and "ch_try_send ops ch x = Some ch' \<Longrightarrow> cap ch' = cap ch"
    and "ch_recv ops ch = Some (x, ch') \<Longrightarrow> cap ch' = cap ch"
  using assms by (auto simp: chan_capacity_def)

lemma bqueue_capacity: "chan_capacity bqueue_ops bq_cap"
  by (auto simp: chan_capacity_def bqueue_ops_def bq_try_send_def bq_recv_def split: if_splits list.splits)

section \<open>The invariant of a burst\<close>

text \<open>The number of frames that the framer has produced.\<close>

definition frames_sent :: "pipeline_event list \<Rightarrow> nat" where
  "frames_sent es = length (filter (\<lambda>e. case e of Framed _ \<Rightarrow> True | _ \<Rightarrow> False) es)"

definition burst_inv ::
  "('f, aos_frame) chan_ops \<Rightarrow> ('f \<Rightarrow> nat) \<Rightarrow> ('b \<Rightarrow> nat) \<Rightarrow> nat \<Rightarrow> ('f, 'b, 'w, 'q) pipeline \<Rightarrow> bool" where
  "burst_inv fo fcap bcap n pl \<longleftrightarrow>
     length (ch_items fo (pl_frames pl)) \<le> n \<and> fcap (pl_frames pl) = aos_to_demux_cap
     \<and> dx_idle (pl_demux pl) = {vc_idle}
     \<and> (\<forall>vc \<in> served_vcs. \<exists>c. dx_senders (pl_demux pl) vc = Some c \<and> fcap c = demux_to_spp_cap)
     \<and> (\<forall>vc. bcap (pl_spp pl vc) = spp_to_router_cap)"

lemma burst_inv_new:
  assumes "all_fresh fo mkf" "\<forall>n. fcap (mkf n) = n" "\<forall>n. bcap (mkb n) = n"
  shows "burst_inv fo fcap bcap 0 (pipeline_new mkf mkb mkw q)"
  using assms by (simp add: burst_inv_def pipeline_new_def all_fresh_def demux_default_def demux_new_def served_vcs_def)

lemma burst_inv_frame:
  assumes "burst_inv fo fcap bcap n pl" "pl_frames pl' = pl_frames pl" "pl_demux pl' = pl_demux pl" "pl_spp pl' = pl_spp pl"
  shows "burst_inv fo fcap bcap n pl'"
  using assms by (simp add: burst_inv_def)

lemma dispatch_senders:
  assumes "demux_dispatch (ch_try_send fo) d now fr = (outs, d')" "chan_capacity fo fcap"
  shows "dx_idle d' = dx_idle d"
    and "dx_senders d vc = Some c \<Longrightarrow> \<exists>c'. dx_senders d' vc = Some c' \<and> fcap c' = fcap c"
proof -
  from assms(1) show "dx_idle d' = dx_idle d"
    by (cases rule: demux_dispatch_cases [of fr d "ch_try_send fo" now])
      (auto simp: demux_emit_bp_def split: if_splits)
  assume c: "dx_senders d vc = Some c"
  from assms(1) c show "\<exists>c'. dx_senders d' vc = Some c' \<and> fcap c' = fcap c"
    by (cases rule: demux_dispatch_cases [of fr d "ch_try_send fo" now])
      (auto simp: demux_emit_bp_def capacityD(2) [OF assms(2)] split: if_splits)
qed

lemma step_burst_inv:
  assumes "pipeline_step tc fo bo wo pl e pl'" "burst_inv fo fcap bcap n pl"
    and laws: "chan_laws fo" "chan_capacity fo fcap" "chan_capacity bo bcap"
  shows "burst_inv fo fcap bcap (n + frames_sent [e]) pl'"
  using assms(1)
proof cases
  case (framed fr ch)
  then show ?thesis
    using assms(2) chan_sendD [OF laws(1)] capacityD(2) [OF laws(2)] by (simp add: burst_inv_def frames_sent_def)
next
  case (framed_lost fr)
  then show ?thesis using assms(2) by (auto simp: burst_inv_def frames_sent_def)
next
  case (demux fr ch now outs d)
  have idle: "dx_idle d = {vc_idle}"
    using assms(2) dispatch_senders(1) [OF demux(4) laws(2)] by (simp add: burst_inv_def)
  have served: "\<exists>c. dx_senders d vc = Some c \<and> fcap c = demux_to_spp_cap" if "vc \<in> served_vcs" for vc
  proof -
    obtain c where "dx_senders (pl_demux pl) vc = Some c" "fcap c = demux_to_spp_cap"
      using assms(2) \<open>vc \<in> served_vcs\<close> unfolding burst_inv_def by blast
    then show ?thesis using dispatch_senders(2) [OF demux(4) laws(2)] by metis
  qed
  show ?thesis
    using assms(2) demux(1,2) idle served chan_recvD [OF laws(1) demux(3)] capacityD(3) [OF laws(2) demux(3)]
    by (simp add: burst_inv_def frames_sent_def)
next
  case (decode vc c fr c' now outs dec tx)
  have "bcap tx = bcap (pl_spp pl vc)"
    by (rule decoder_process_cases [of fr "ch_try_send bo" "pl_spp pl vc" "pl_decoder pl vc" now])
      (use decode(6) capacityD(2) [OF laws(3)] in \<open>auto simp: split_beta\<close>)
  then show ?thesis
    using assms(2) decode(1,2,4) capacityD(3) [OF laws(2) decode(5)] by (auto simp: burst_inv_def frames_sent_def)
next
  case (relay_recv vc bs ch)
  then show ?thesis
    using assms(2) capacityD(3) [OF laws(3) relay_recv(5)] by (simp add: burst_inv_def frames_sent_def)
qed (use assms(2) in \<open>auto simp: frames_sent_def intro: burst_inv_frame\<close>)

section \<open>No step loses a packet\<close>

abbreviation parsing :: "bytes list \<Rightarrow> bytes list" where
  "parsing \<equiv> filter (\<lambda>bs. is_ok (sp_parse bs))"

text \<open>With room in the channel that is written, the demultiplexer and the decoder only move packets on.\<close>

lemma demux_keeps_flight:
  assumes "chan_laws fo" "chan_capacity fo fcap" "burst_inv fo fcap bcap n pl" "vc \<in> served_vcs"
    and room: "length (in_flight fo bo wo pl vc) \<le> 64"
    and recv: "ch_recv fo (pl_frames pl) = Some (fr, ch)"
    and sent: "demux_dispatch (ch_try_send fo) (pl_demux pl) now fr = (outs, d)"
  shows "in_flight fo bo wo (pl\<lparr>pl_frames := ch, pl_demux := d\<rparr>) vc = in_flight fo bo wo pl vc"
proof -
  have split: "in_flight fo bo wo pl vc = map snd (filter (\<lambda>p. fst p = vc) (ch_items wo (pl_tagged pl)))
      @ (case pl_relay pl vc of None \<Rightarrow> [] | Some bs \<Rightarrow> [bs]) @ ch_items bo (pl_spp pl vc)
      @ map af_data (queued (ch_items fo) (pl_demux pl) vc)
      @ map af_data (filter (\<lambda>fr. af_vc_id fr = vc) (fr # ch_items fo ch))"
    using chan_recvD [OF assms(1) recv] by (simp add: in_flight_def)
  have "queued (ch_items fo) d vc = queued (ch_items fo) (pl_demux pl) vc @ (if af_vc_id fr = vc then [fr] else [])"
  proof (cases "af_vc_id fr = vc")
    case True
    obtain c where c: "dx_senders (pl_demux pl) vc = Some c" "fcap c = 128"
      using assms(3,4) by (auto simp: burst_inv_def demux_to_spp_cap_def)
    have "length (ch_items fo c) < fcap c"
      using room c unfolding split by (simp add: queued_def True)
    then obtain c' where c': "ch_try_send fo c fr = Some c'" using capacityD(1) [OF assms(2)] by blast
    moreover have "vc \<notin> dx_idle (pl_demux pl)"
      using assms(3,4) by (auto simp: burst_inv_def served_vcs_def vc_idle_def)
    ultimately have "d = (pl_demux pl)\<lparr>dx_senders := (dx_senders (pl_demux pl))(vc \<mapsto> c')\<rparr>"
      using sent True c(1) by (simp add: demux_dispatch_def Let_def)
    then show ?thesis using chan_sendD [OF assms(1) c'] True c(1) by (simp add: queued_def)
  next
    case False
    then show ?thesis using dispatch_queued [OF assms(1) sent, of vc] by auto
  qed
  then show ?thesis unfolding split by (simp add: in_flight_def)
qed

lemma decoder_appends:
  assumes "chan_laws bo" "chan_capacity bo bcap" "length (ch_items bo q) < bcap q"
    and "decoder_process (ch_try_send bo) dec q now fr = (outs, dec', q')"
  shows "ch_items bo q' = ch_items bo q @ parsing [af_data fr]"
proof -
  obtain tx where tx: "ch_try_send bo q (af_data fr) = Some tx"
    using capacityD(1) [OF assms(2,3)] by blast
  show ?thesis
    by (rule decoder_process_cases [of fr "ch_try_send bo" q dec now])
      (use assms(4) tx chan_sendD [OF assms(1) tx] in \<open>auto simp: split_beta\<close>)
qed

lemma step_lossless:
  assumes "pipeline_step tc fo bo wo pl e pl'" "burst_inv fo fcap bcap n pl" "vc \<in> served_vcs"
    and room: "n + frames_sent [e] \<le> 64" "length (in_flight fo bo wo pl vc) \<le> 64"
    and laws: "chan_laws fo" "chan_laws bo" "chan_laws wo"
    and caps: "chan_capacity fo fcap" "chan_capacity bo bcap"
  shows "parsing (routed_on vc [e] @ in_flight fo bo wo pl' vc) =
    parsing (in_flight fo bo wo pl vc @ framed_on vc [e])"
  using assms(1)
proof cases
  case (framed fr ch)
  then show ?thesis using chan_sendD [OF laws(1)] by (simp add: in_flight_def queued_def)
next
  case (framed_lost fr)
  then have "length (ch_items fo (pl_frames pl)) < fcap (pl_frames pl)"
    using assms(2) room(1) by (simp add: burst_inv_def frames_sent_def aos_to_demux_cap_def)
  from capacityD(1) [OF caps(1) this, of fr] framed_lost(3) show ?thesis by simp
next
  case (demux fr ch now outs d)
  then show ?thesis
    using demux_keeps_flight [OF laws(1) caps(1) assms(2,3) room(2) demux(3,4)] by simp
next
  case (decode v c fr c' now outs dec tx)
  have old: "queued (ch_items fo) (pl_demux pl) v = fr # ch_items fo c'"
    using decode(4) chan_recvD [OF laws(1) decode(5)] by (simp add: queued_def)
  show ?thesis
  proof (cases "v = vc")
    case True
    have "length (ch_items bo (pl_spp pl v)) < bcap (pl_spp pl v)"
      using assms(2) room(2) True by (simp add: burst_inv_def in_flight_def spp_to_router_cap_def)
    then show ?thesis
      using decoder_appends [OF laws(2) caps(2) _ decode(6)] True decode(1,2) old
      by (simp add: in_flight_def queued_def)
  qed (use decode(1,2) in \<open>simp add: in_flight_def queued_def\<close>)
next
  case (relay_recv v bs ch)
  then show ?thesis
    using chan_recvD [OF laws(2) relay_recv(5)] by (auto simp: in_flight_def)
next
  case (relay_send v bs ch)
  then show ?thesis
    using chan_sendD [OF laws(3) relay_send(5)] by (auto simp: in_flight_def)
next
  case (route v bs ch lock_free)
  then show ?thesis
    using chan_recvD [OF laws(3) route(3)] by (auto simp: in_flight_def)
qed (simp_all add: in_flight_def)

section \<open>A whole run\<close>

lemma frames_sent_append: "frames_sent (es @ es') = frames_sent es + frames_sent es'"
  by (simp add: frames_sent_def)

lemma framed_on_length: "length (framed_on vc es) \<le> frames_sent es"
proof (induction es)
  case (Cons e es)
  then show ?case by (cases e) (simp_all add: framed_on_def frames_sent_def)
qed (simp add: framed_on_def)

lemma trace_lossless:
  assumes "pipeline_trace tc fo bo wo pl es pl'" "burst_inv fo fcap bcap 0 pl"
    and "\<forall>vc. in_flight fo bo wo pl vc = []" "vc \<in> served_vcs" "frames_sent es \<le> 64"
    and laws: "chan_laws fo" "chan_laws bo" "chan_laws wo"
    and caps: "chan_capacity fo fcap" "chan_capacity bo bcap"
  shows "burst_inv fo fcap bcap (frames_sent es) pl'
    \<and> parsing (routed_on vc es @ in_flight fo bo wo pl' vc) = parsing (framed_on vc es)"
  using assms(1,2,3,5)
proof induction
  case (start pl)
  then show ?case by (simp add: frames_sent_def)
next
  case (extend pl es pl' e pl'')
  have few: "frames_sent es + frames_sent [e] \<le> 64" using extend.prems(3) by (simp add: frames_sent_append)
  have IH: "burst_inv fo fcap bcap (frames_sent es) pl'"
    "parsing (routed_on vc es @ in_flight fo bo wo pl' vc) = parsing (framed_on vc es)"
    using extend.IH extend.prems(1,2) few by simp_all
  have "subseq (in_flight fo bo wo pl' vc) (routed_on vc es @ in_flight fo bo wo pl' vc)"
    by (rule list_emb_append2) simp
  also have "subseq \<dots> (framed_on vc es)"
    using trace_in_flight [OF extend(1) laws, of vc] extend.prems(2) by simp
  finally have "subseq (in_flight fo bo wo pl' vc) (framed_on vc es)" .
  then have "length (in_flight fo bo wo pl' vc) \<le> frames_sent es"
    by (meson list_emb_length framed_on_length order_trans)
  then have "length (in_flight fo bo wo pl' vc) \<le> 64" using few by simp
  from step_lossless [OF extend(2) IH(1) assms(4) few this laws caps] IH(2)
  have "parsing (routed_on vc (es @ [e]) @ in_flight fo bo wo pl'' vc) = parsing (framed_on vc (es @ [e]))"
    by simp
  then show ?case
    using step_burst_inv [OF extend(2) IH(1) laws(1) caps] by (simp add: frames_sent_append)
qed

lemma burst_delivered:
  assumes "pipeline_trace tc fo bo wo (pipeline_new mkf mkb mkw q) es pl"
    and "frames_sent es \<le> 64" "vc \<in> served_vcs"
    and "chan_laws fo" "chan_laws bo" "chan_laws wo"
    and "all_fresh fo mkf" "all_fresh bo mkb" "all_fresh wo mkw"
    and "chan_capacity fo fcap" "chan_capacity bo bcap" "\<forall>n. fcap (mkf n) = n" "\<forall>n. bcap (mkb n) = n"
  shows "parsing (framed_on vc es) = routed_on vc es @ parsing (in_flight fo bo wo pl vc)"
proof -
  have "list_all (carries UNIV) (routed_on vc es)"
    using trace_routed_ok [OF assms(1,5,6) pipeline_new_inv(1) [OF assms(8,9)]] .
  then have "parsing (routed_on vc es) = routed_on vc es"
    by (intro filter_True) (simp add: list_all_iff carries_UNIV)
  moreover have inv: "burst_inv fo fcap bcap 0 (pipeline_new mkf mkb mkw q)"
    by (rule burst_inv_new) (simp_all add: assms(7,12,13))
  have fresh: "\<forall>vc. in_flight fo bo wo (pipeline_new mkf mkb mkw q) vc = []"
    by (intro allI pipeline_new_in_flight assms(7-9))
  ultimately show ?thesis
    using trace_lossless [OF assms(1) inv fresh assms(3,2,4-6,10,11)] by simp
qed

lemma routed_at_rest:
  assumes "pipeline_trace tc fo bo wo (pipeline_new mkf mkb mkw q) es pl"
    and "frames_sent es \<le> 64" "vc \<in> served_vcs"
    and "chan_laws fo" "chan_laws bo" "chan_laws wo"
    and "all_fresh fo mkf" "all_fresh bo mkb" "all_fresh wo mkw"
    and "chan_capacity fo fcap" "chan_capacity bo bcap" "\<forall>n. fcap (mkf n) = n" "\<forall>n. bcap (mkb n) = n"
    and "chan_live fo" "chan_live bo" "chan_live wo" "chan_roomy wo" "at_rest tc fo bo wo pl"
  shows "routed_on vc es = parsing (framed_on vc es)"
proof -
  have "in_flight fo bo wo pl vc = []"
    using rest_drained [OF assms(18,4-6,14-17)] assms(3) unfolding drained_def by blast
  then show ?thesis using burst_delivered [OF assms(1-13)] by simp
qed

section \<open>A burst settles\<close>

definition all_framed :: "pipeline_event list \<Rightarrow> aos_frame list" where
  "all_framed es = concat (map (\<lambda>e. case e of Framed fr \<Rightarrow> [fr] | _ \<Rightarrow> []) es)"

lemma all_framed_simps [simp]:
  "all_framed [] = []" "all_framed (es @ es') = all_framed es @ all_framed es'"
  "all_framed (map Framed frs) = frs" "all_framed [e] = (case e of Framed fr \<Rightarrow> [fr] | _ \<Rightarrow> [])"
  by (simp_all add: all_framed_def comp_def)

lemma frames_accepted:
  assumes "chan_laws fo" "chan_capacity fo fcap" "length (ch_items fo (pl_frames pl)) + length frs \<le> fcap (pl_frames pl)"
  shows "\<exists>pl'. pipeline_trace tc fo bo wo pl (map Framed frs) pl' \<and> fcap (pl_frames pl') = fcap (pl_frames pl)
    \<and> length (ch_items fo (pl_frames pl')) = length (ch_items fo (pl_frames pl)) + length frs"
  using assms(3)
proof (induction frs rule: rev_induct)
  case Nil
  show ?case by (intro exI [of _ pl]) (simp add: pipeline_trace.start)
next
  case (snoc fr frs)
  then obtain pl' where pl': "pipeline_trace tc fo bo wo pl (map Framed frs) pl'" "fcap (pl_frames pl') = fcap (pl_frames pl)"
    "length (ch_items fo (pl_frames pl')) = length (ch_items fo (pl_frames pl)) + length frs"
    by auto
  then obtain ch where ch: "ch_try_send fo (pl_frames pl') fr = Some ch"
    using snoc.prems capacityD(1) [OF assms(2), of "pl_frames pl'" fr] by auto
  have "pipeline_trace tc fo bo wo pl (map Framed (frs @ [fr])) (pl'\<lparr>pl_frames := ch\<rparr>)"
    using pipeline_trace.extend [OF pl'(1) pipeline_step.framed [OF ch]] by simp
  then show ?case
    using pl'(2,3) chan_sendD [OF assms(1) ch] capacityD(2) [OF assms(2) ch]
    by (intro exI [of _ "pl'\<lparr>pl_frames := ch\<rparr>"]) simp
qed

lemma turns_trace:
  assumes "pipeline_trace tc fo bo wo pl0 es pl"
  shows "(message_turn tc fo bo wo ^^ n) pl pl' \<Longrightarrow>
    \<exists>es'. pipeline_trace tc fo bo wo pl0 (es @ es') pl' \<and> all_framed es' = []"
proof (induction n arbitrary: pl')
  case 0
  then show ?case using assms by (intro exI [of _ "[]"]) simp
next
  case (Suc n)
  then obtain mid where turn: "(message_turn tc fo bo wo ^^ n) pl mid" "message_turn tc fo bo wo mid pl'" by auto
  with Suc.IH obtain es' where mid: "message_turn tc fo bo wo mid pl'" "pipeline_trace tc fo bo wo pl0 (es @ es') mid"
    "all_framed es' = []" by blast
  then obtain e where "pipeline_step tc fo bo wo mid e pl'" "\<forall>fr. e \<noteq> Framed fr"
    by (auto simp: message_turn_def)
  then show ?case
    using pipeline_trace.extend [OF mid(2)] mid(3)
    by (intro exI [of _ "es' @ [e]"]) (auto split: pipeline_event.split)
qed

text \<open>Any burst of at most 64 frames can be sent, and its run can be carried to rest.\<close>

lemma burst_settles:
  assumes "length frs \<le> 64" "chan_laws fo" "chan_laws bo" "chan_laws wo"
    and "all_fresh fo mkf" "chan_capacity fo fcap" "\<forall>n. fcap (mkf n) = n"
  shows "\<exists>es pl. pipeline_trace tc fo bo wo (pipeline_new mkf mkb mkw q) es pl \<and> all_framed es = frs
    \<and> at_rest tc fo bo wo pl"
proof -
  let ?pl = "pipeline_new mkf mkb mkw q"
  have "length (ch_items fo (pl_frames ?pl)) + length frs \<le> fcap (pl_frames ?pl)"
    using assms(1,5,7) by (simp add: pipeline_new_def all_fresh_def aos_to_demux_cap_def)
  from frames_accepted [OF assms(2,6) this]
  obtain pl1 where "pipeline_trace tc fo bo wo ?pl (map Framed frs) pl1" by blast
  moreover obtain n pl' where "(message_turn tc fo bo wo ^^ n) pl1 pl'" "at_rest tc fo bo wo pl'"
    using reaches_rest [OF assms(2-4)] by blast
  ultimately show ?thesis
    using turns_trace [of tc fo bo wo ?pl "map Framed frs" pl1 n pl'] by fastforce
qed

section \<open>Properties\<close>

text \<open>
  C10: A burst is delivered whole.  In every run of the task graph from its start in which the
  framer produces at most 64 frames, whatever the interleaving, every frame of a served channel
  whose data field parses is on the way or has been routed, in order: no bounded queue refuses
  anything.  Once the tasks are at rest the router has received exactly those packets.
\<close>

theorem burst_delivered_whole:
  assumes "pipeline_trace tc fo bo wo (pipeline_new mkf mkb mkw q) es pl"
    and "length (filter (\<lambda>e. case e of Framed _ \<Rightarrow> True | _ \<Rightarrow> False) es) \<le> 64" "vc \<in> {0, 1, 2, 3}"
    and "chan_laws fo" "chan_laws bo" "chan_laws wo"
    and "all_fresh fo mkf" "all_fresh bo mkb" "all_fresh wo mkw"
    and "chan_capacity fo fcap" "chan_capacity bo bcap" "\<forall>n. fcap (mkf n) = n" "\<forall>n. bcap (mkb n) = n"
    and "chan_live fo" "chan_live bo" "chan_live wo" "chan_roomy wo"
  shows "filter (\<lambda>bs. is_ok (sp_parse bs)) (framed_on vc es) =
      routed_on vc es @ filter (\<lambda>bs. is_ok (sp_parse bs)) (in_flight fo bo wo pl vc)
    \<and> (at_rest tc fo bo wo pl \<longrightarrow> routed_on vc es = filter (\<lambda>bs. is_ok (sp_parse bs)) (framed_on vc es))"
proof -
  have few: "frames_sent es \<le> 64" "vc \<in> served_vcs"
    using assms(2,3) by (simp_all add: frames_sent_def served_vcs_def)
  show ?thesis
    using burst_delivered [OF assms(1) few assms(4-13)] routed_at_rest [OF assms(1) few assms(4-17)] by blast
qed

theorem burst_delivered_whole_witness:
  "\<exists>pl :: (aos_frame bqueue, bytes bqueue, (u8 \<times> bytes) list, unit) pipeline.
    pipeline_trace example_calendar bqueue_ops bqueue_ops (fixed_queue 511)
      (pipeline_new fresh_queue fresh_queue (\<lambda>_. []) ()) [Framed example_hk_frame] pl
    \<and> filter (\<lambda>bs. is_ok (sp_parse bs)) (in_flight bqueue_ops bqueue_ops (fixed_queue 511) pl 0) = [example_hk]"
proof -
  let ?pl = "pipeline_new fresh_queue fresh_queue (\<lambda>_. []) () ::
    (aos_frame bqueue, bytes bqueue, (u8 \<times> bytes) list, unit) pipeline"
  obtain ch where "ch_try_send bqueue_ops (pl_frames ?pl) example_hk_frame = Some ch"
    using fresh_has_room [of aos_to_demux_cap] unfolding has_room_def
    by (fastforce simp: pipeline_new_def aos_to_demux_cap_def)
  from pipeline_trace.extend [OF pipeline_trace.start pipeline_step.framed [OF this]]
  obtain pl where run: "pipeline_trace example_calendar bqueue_ops bqueue_ops (fixed_queue 511) ?pl
      [Framed example_hk_frame] pl" by auto
  have fresh: "all_fresh (fixed_queue 511) (\<lambda>_. [])" by (simp add: all_fresh_def fixed_queue_def)
  have "filter (\<lambda>bs. is_ok (sp_parse bs)) (framed_on 0 [Framed example_hk_frame]) =
      routed_on 0 [Framed example_hk_frame] @ filter (\<lambda>bs. is_ok (sp_parse bs))
        (in_flight bqueue_ops bqueue_ops (fixed_queue 511) pl 0)"
    using burst_delivered_whole [OF run _ _ bqueue_laws bqueue_laws fixed_queue_laws(1) fresh_all fresh_all fresh
        bqueue_capacity bqueue_capacity _ _ bqueue_live bqueue_live fixed_queue_laws(2,3), of 0]
    by (simp add: fresh_queue_def)
  then show ?thesis
    using run by (auto simp: example_hk_frame_def example_hk_parse)
qed

end
