(* ===== verification/Injector.thy ===== *)
theory Injector
  imports Ingest_Framer Ingest_Decoder Ingest_Router Ingest_Sinks
begin

text \<open>
  The demo telemetry injector, \<open>rust/ground_station/src/bin/demo_injector.rs\<close>: the packets of one
  tick, their packing into AOS frames, and the sending loop.  The CRC engine is the argument
  \<open>crc16\<close>; the UDP socket is the argument \<open>send_to\<close>, which returns the socket after the datagram or
  \<open>None\<close> on an I/O error.  Floating-point arithmetic is the record \<open>fo\<close> of the operations the
  payloads use: rounding is the processor's and the precision of \<open>sin\<close> and \<open>cos\<close> is left open by
  the standard library, so nothing is assumed about them.  Integer arithmetic wraps, as in a
  release build.
\<close>

section \<open>Constants\<close>

definition inj_fecf_payload_len :: nat where
  "inj_fecf_payload_len = 1024 - 2"

definition inj_primary_header_len :: nat where
  "inj_primary_header_len = 6"

definition data_field_max :: nat where
  "data_field_max = inj_fecf_payload_len - inj_primary_header_len"

definition inj_scid :: u8 where
  "inj_scid = 42"

definition vc_hk :: u8 where "vc_hk = 0"
definition vc_event :: u8 where "vc_event = 1"
definition vc_rover :: u8 where "vc_rover = 3"

lemmas injector_consts =
  inj_fecf_payload_len_def inj_primary_header_len_def data_field_max_def

section \<open>State\<close>

record injector_state =
  ij_tick :: u32
  ij_seq :: u16
  ij_frame_ctr :: u8

definition injector_default :: injector_state where
  "injector_default = \<lparr>ij_tick = 0, ij_seq = 0, ij_frame_ctr = 0\<rparr>"

definition next_seq :: "injector_state \<Rightarrow> u16 \<times> injector_state" where
  "next_seq s = (ij_seq s, s\<lparr>ij_seq := (ij_seq s + 1) AND 0x3FFF\<rparr>)"

definition next_frame_ctr :: "injector_state \<Rightarrow> u8 \<times> injector_state" where
  "next_frame_ctr s = (ij_frame_ctr s, s\<lparr>ij_frame_ctr := ij_frame_ctr s + 1\<rparr>)"

text \<open>\<open>since\<close> is the time since the Unix epoch in seconds, or \<open>None\<close> for a clock before it.\<close>

definition tai_now :: "u64 option \<Rightarrow> u32" where
  "tai_now since =
     (let unix_s = (case since of None \<Rightarrow> 0 | Some t \<Rightarrow> t) in
      ucast (if unix_s > - 1 - 37 then - 1 else unix_s + 37))"

section \<open>Frames\<close>

text \<open>\<open>dst[off..off + src.len()].copy_from_slice(src)\<close>\<close>

definition copy_into :: "'a list \<Rightarrow> nat \<Rightarrow> 'a list \<Rightarrow> 'a list" where
  "copy_into dst off src = take off dst @ src @ drop (off + length src) dst"

definition build_aos_frame :: "(bytes \<Rightarrow> u16) \<Rightarrow> bytes \<Rightarrow> u8 \<Rightarrow> u8 \<Rightarrow> bytes" where
  "build_aos_frame crc16 pkt vc_id frame_ctr =
     (let fr = replicate 1024 0;
          fr = fr[0 := push_bit 6 0b01 OR drop_bit 2 inj_scid];
          fr = fr[1 := push_bit 6 (inj_scid AND 0x03) OR (vc_id AND 0x3F)];
          fr = fr[2 := 0];
          fr = fr[3 := frame_ctr];
          fr = fr[4 := frame_ctr];
          fr = fr[5 := 0];
          copy_len = min (length pkt) data_field_max;
          fr = copy_into fr inj_primary_header_len (take copy_len pkt);
          fecf = crc16 (take inj_fecf_payload_len fr);
          fr = fr[1024 - 2 := be16 fecf ! 0]
      in fr[1024 - 1 := be16 fecf ! 1])"

datatype inject_error = InjectCcsds ccsds_error | InjectIo

definition injector_send ::
  "(bytes \<Rightarrow> u16) \<Rightarrow> ('k \<Rightarrow> bytes \<Rightarrow> 'k option) \<Rightarrow> u32 \<Rightarrow> u16 \<times> u8 \<times> bytes \<Rightarrow> injector_state \<times> 'k
     \<Rightarrow> inject_error + injector_state \<times> 'k" where
  "injector_send crc16 send_to tai req st =
     (let (a, vc_id, user_data) = req; (s, sock) = st; (seq, s) = next_seq s in
      and_then (map_err InjectCcsds
        (and_then (apid_new a) (\<lambda>ap.
         and_then (sc_new seq) (\<lambda>sc.
         and_then (fc_new 0x0002) (\<lambda>fc.
         and_then (iid_new 1) (\<lambda>inst.
           builder_build (with_user_data user_data (with_instance_id inst (with_func_code fc
             (with_cuc \<lparr>coarse = tai, fine = 0\<rparr> (with_sequence_count sc (builder_tm ap))))))))))))
        (\<lambda>pkt.
          let (ctr, s) = next_frame_ctr s in
          case send_to sock (build_aos_frame crc16 pkt vc_id ctr) of
            None \<Rightarrow> Inl InjectIo
          | Some sock' \<Rightarrow> Inr (s, sock')))"

section \<open>Payloads of the orbiter\<close>

record ('f, 'd) float_ops =
  f_lit :: "rat \<Rightarrow> 'f"
  f_of_u32 :: "u32 \<Rightarrow> 'f"
  f_add :: "'f \<Rightarrow> 'f \<Rightarrow> 'f"
  f_sub :: "'f \<Rightarrow> 'f \<Rightarrow> 'f"
  f_mul :: "'f \<Rightarrow> 'f \<Rightarrow> 'f"
  f_div :: "'f \<Rightarrow> 'f \<Rightarrow> 'f"
  f_rem :: "'f \<Rightarrow> 'f \<Rightarrow> 'f"
  f_max :: "'f \<Rightarrow> 'f \<Rightarrow> 'f"
  f_abs :: "'f \<Rightarrow> 'f"
  f_sin :: "'f \<Rightarrow> 'f"
  f_cos :: "'f \<Rightarrow> 'f"
  f_bits :: "'f \<Rightarrow> u32"
  f_as_u8 :: "'f \<Rightarrow> u8"
  f_as_u16 :: "'f \<Rightarrow> u16"
  f_as_i16 :: "'f \<Rightarrow> u16"
  f_as_u32 :: "'f \<Rightarrow> u32"
  d_lit :: "rat \<Rightarrow> 'd"
  d_of_u32 :: "u32 \<Rightarrow> 'd"
  d_add :: "'d \<Rightarrow> 'd \<Rightarrow> 'd"
  d_bits :: "'d \<Rightarrow> u64"

definition u32le :: "u32 \<Rightarrow> bytes" where "u32le v = le32 v"
definition u32be :: "u32 \<Rightarrow> bytes" where "u32be v = be32 v"
definition u16le :: "u16 \<Rightarrow> bytes" where "u16le v = rev (be16 v)"
definition f32le :: "('f, 'd) float_ops \<Rightarrow> 'f \<Rightarrow> bytes" where "f32le fo v = le32 (f_bits fo v)"

definition cdh_hk :: "u32 \<Rightarrow> bytes" where
  "cdh_hk tick = [0x01, 0x00, ucast (tick AND 0xFF), 0x00, 0x00, 0x00] @ u32le tick"

definition adcs_hk :: "('f, 'd) float_ops \<Rightarrow> u32 \<Rightarrow> bytes" where
  "adcs_hk fo tick =
     (let theta = f_mul fo (f_of_u32 fo tick) (f_lit fo 0.02);
          w = f_cos fo (f_div fo theta (f_lit fo 2));
          z = f_sin fo (f_div fo theta (f_lit fo 2))
      in f32le fo w @ f32le fo (f_lit fo 0) @ f32le fo (f_lit fo 0) @ f32le fo z
         @ f32le fo (f_mul fo (f_sin fo theta) (f_lit fo 0.01))
         @ f32le fo (f_mul fo (f_cos fo theta) (f_lit fo 0.005))
         @ f32le fo (f_lit fo 0.001) @ [0, 0, 0, 0])"

definition comm_hk :: "u32 \<Rightarrow> bytes" where
  "comm_hk tick = [0x01, 0x00, 0x64, 0x00, ucast (tick AND 0xFF), 0x00, 0x00, 0x00]"

definition ros2_bridge_hk :: "u32 \<Rightarrow> bytes" where
  "ros2_bridge_hk tick =
     u32le (tick * 3) @ u32le 2 @ u32le tick @ u32le tick @ u32le (tick * 3 + 2) @ u32le 0"

text \<open>\<open>wave c t k a\<close> is \<open>c + (tick as f32 * k).sin() * a\<close>.\<close>

definition wave :: "('f, 'd) float_ops \<Rightarrow> rat \<Rightarrow> u32 \<Rightarrow> rat \<Rightarrow> rat \<Rightarrow> 'f" where
  "wave fo c tick k a =
     f_add fo (f_lit fo c)
       (f_mul fo (f_sin fo (f_mul fo (f_of_u32 fo tick) (f_lit fo k))) (f_lit fo a))"

definition prx1_hk :: "('f, 'd) float_ops \<Rightarrow> u32 \<Rightarrow> bytes" where
  "prx1_hk fo tick =
     (let strength = f_as_u8 fo (wave fo 180 tick 0.1 60);
          contact_s = be64 (d_bits fo (d_add fo (d_lit fo 1700000000) (d_of_u32 fo tick)))
      in [1, strength] @ contact_s)"

definition power_hk :: "('f, 'd) float_ops \<Rightarrow> u32 \<Rightarrow> bytes" where
  "power_hk fo tick =
     (let voltage_mv = f_as_u16 fo (wave fo 28000 tick 0.05 1400);
          battery_pct = ucast (if tick div 120 > 90 then 0 else 90 - tick div 120);
          solar_ma = 2110
      in u16le voltage_mv @ u16le battery_pct @ u16le solar_ma @ u16le 0)"

definition payload_hk :: "u32 \<Rightarrow> bytes" where
  "payload_hk tick =
     (let frame_count = ucast (tick AND 0xFFFF) in
      [0x01, 0x00] @ u16le 1000 @ u16le frame_count
        @ [ucast (tick AND 0xFF), ucast (drop_bit 8 tick AND 0xFF)])"

definition fleet_hk :: "('f, 'd) float_ops \<Rightarrow> u32 \<Rightarrow> bytes" where
  "fleet_hk fo tick =
     (let land_age = f_as_u32 fo (wave fo 800 tick 0.15 100);
          uav_age = f_as_u32 fo (wave fo 900 tick 0.12 150);
          cryo_age = f_as_u32 fo (wave fo 950 tick 0.08 200)
      in [0x07] @ u32be land_age @ u32be uav_age @ u32be cryo_age)"

section \<open>Payloads of the rovers\<close>

definition rover_land_hk :: "('f, 'd) float_ops \<Rightarrow> u32 \<Rightarrow> bytes" where
  "rover_land_hk fo tick =
     (let x = f_mul fo (f_of_u32 fo tick) (f_lit fo 0.05);
          y = f_mul fo (f_sin fo (f_mul fo (f_of_u32 fo tick) (f_lit fo 0.03))) (f_lit fo 10);
          heading = f_rem fo (f_mul fo (f_of_u32 fo tick) (f_lit fo 2)) (f_lit fo 360)
      in f32le fo x @ f32le fo y @ f32le fo heading @ [0x14, 0x00])"

definition rover_uav_hk :: "('f, 'd) float_ops \<Rightarrow> u32 \<Rightarrow> bytes" where
  "rover_uav_hk fo tick =
     (let alt = wave fo 50 tick 0.05 10;
          x = f_mul fo (f_cos fo (f_mul fo (f_of_u32 fo tick) (f_lit fo 0.03))) (f_lit fo 30);
          y = f_mul fo (f_sin fo (f_mul fo (f_of_u32 fo tick) (f_lit fo 0.03))) (f_lit fo 30);
          batt = f_max fo (f_sub fo (f_lit fo 85) (f_mul fo (f_of_u32 fo tick) (f_lit fo 0.01))) (f_lit fo 0)
      in f32le fo alt @ f32le fo x @ f32le fo y @ f32le fo batt)"

definition rover_cryo_hk :: "('f, 'd) float_ops \<Rightarrow> u32 \<Rightarrow> bytes" where
  "rover_cryo_hk fo tick =
     (let depth = f_mul fo (f_of_u32 fo tick) (f_lit fo 0.002);
          rpm = wave fo 450 tick 0.1 50;
          temp_raw = f_mul fo (wave fo (- 180) tick 0.02 5) (f_lit fo 10)
      in f32le fo depth @ f32le fo rpm @ u16le (f_as_i16 fo temp_raw))"

definition rover_land_hk_n :: "('f, 'd) float_ops \<Rightarrow> u32 \<Rightarrow> 'f \<Rightarrow> 'f \<Rightarrow> 'f \<Rightarrow> bytes" where
  "rover_land_hk_n fo tick base_x base_z phase =
     (let t = f_of_u32 fo tick;
          x = f_add fo base_x (f_mul fo (f_sin fo (f_add fo (f_mul fo t (f_lit fo 0.05)) phase)) (f_lit fo 2));
          z = f_add fo base_z (f_mul fo
                (f_cos fo (f_add fo (f_add fo (f_mul fo t (f_lit fo 0.04)) phase) (f_lit fo 1))) (f_lit fo 2));
          heading = f_rem fo (f_add fo (f_mul fo t (f_lit fo 2)) (f_mul fo phase (f_lit fo 57.3))) (f_lit fo 360);
          speed_cm_s = f_as_u16 fo (f_add fo (f_lit fo 10) (f_mul fo
                (f_abs fo (f_sin fo (f_add fo (f_mul fo t (f_lit fo 0.3)) phase))) (f_lit fo 20)))
      in f32le fo x @ f32le fo z @ f32le fo heading @ u16le speed_cm_s)"

definition rover_uav_hk_n ::
  "('f, 'd) float_ops \<Rightarrow> u32 \<Rightarrow> 'f \<Rightarrow> 'f \<Rightarrow> 'f \<Rightarrow> 'f \<Rightarrow> 'f \<Rightarrow> bytes" where
  "rover_uav_hk_n fo tick base_x base_z base_y hover_phase orbit_speed =
     (let t = f_of_u32 fo tick;
          hover_speed = f_add fo (f_lit fo 0.9) (f_mul fo hover_phase (f_lit fo 0.15));
          alt = f_add fo base_y (f_mul fo
                  (f_sin fo (f_add fo (f_mul fo t hover_speed) hover_phase)) (f_lit fo 0.4));
          x = f_add fo base_x (f_mul fo
                (f_sin fo (f_add fo (f_mul fo t orbit_speed) hover_phase)) (f_lit fo 1.5));
          z = f_add fo base_z (f_mul fo
                (f_cos fo (f_add fo (f_add fo (f_mul fo t orbit_speed) hover_phase) (f_lit fo 1.5)))
                (f_lit fo 1.5));
          batt = f_add fo (f_lit fo 80) (f_mul fo
                (f_sin fo (f_add fo (f_mul fo t (f_lit fo 0.007)) hover_phase)) (f_lit fo 10))
      in f32le fo alt @ f32le fo x @ f32le fo z @ f32le fo batt)"

section \<open>Payloads of the Titan vehicles\<close>

definition titan_rover_hk :: "('f, 'd) float_ops \<Rightarrow> u32 \<Rightarrow> 'f \<Rightarrow> 'f \<Rightarrow> 'f \<Rightarrow> bytes" where
  "titan_rover_hk fo tick base_x base_z phase =
     (let t = f_of_u32 fo tick;
          x = f_add fo base_x (f_mul fo (f_sin fo (f_add fo (f_mul fo t (f_lit fo 0.04)) phase)) (f_lit fo 1.5));
          z = f_add fo base_z (f_mul fo
                (f_cos fo (f_add fo (f_add fo (f_mul fo t (f_lit fo 0.03)) phase) (f_lit fo 1))) (f_lit fo 1.5));
          heading = f_rem fo (f_add fo (f_mul fo t (f_lit fo 1.8)) (f_mul fo phase (f_lit fo 57.3))) (f_lit fo 360);
          battery = f_as_u16 fo (f_add fo (f_lit fo 75) (f_mul fo
                (f_sin fo (f_add fo (f_mul fo t (f_lit fo 0.008)) phase)) (f_lit fo 10)))
      in f32le fo x @ f32le fo z @ f32le fo heading @ u16le battery)"

definition titan_uav_hk ::
  "('f, 'd) float_ops \<Rightarrow> u32 \<Rightarrow> 'f \<Rightarrow> 'f \<Rightarrow> 'f \<Rightarrow> 'f \<Rightarrow> 'f \<Rightarrow> bytes" where
  "titan_uav_hk fo tick base_x base_z base_y hover_phase orbit_speed =
     (let t = f_of_u32 fo tick;
          hover_speed = f_add fo (f_lit fo 1) (f_mul fo hover_phase (f_lit fo 0.12));
          alt = f_add fo base_y (f_mul fo
                  (f_sin fo (f_add fo (f_mul fo t hover_speed) hover_phase)) (f_lit fo 0.4));
          x = f_add fo base_x (f_mul fo
                (f_sin fo (f_add fo (f_mul fo t orbit_speed) hover_phase)) (f_lit fo 1.2));
          z = f_add fo base_z (f_mul fo
                (f_cos fo (f_add fo (f_add fo (f_mul fo t orbit_speed) hover_phase) (f_lit fo 1.5)))
                (f_lit fo 1.2));
          batt = f_add fo (f_lit fo 75) (f_mul fo
                (f_sin fo (f_add fo (f_mul fo t (f_lit fo 0.006)) hover_phase)) (f_lit fo 12))
      in f32le fo alt @ f32le fo x @ f32le fo z @ f32le fo batt)"

definition titan_cryo_hk :: "('f, 'd) float_ops \<Rightarrow> u32 \<Rightarrow> 'f \<Rightarrow> 'f \<Rightarrow> bytes" where
  "titan_cryo_hk fo tick base_depth rpm_phase =
     (let t = f_of_u32 fo tick;
          depth = f_add fo base_depth (f_mul fo t (f_lit fo 0.003));
          rpm = f_add fo (f_lit fo 400) (f_mul fo
                  (f_sin fo (f_add fo (f_mul fo t (f_lit fo 0.09)) rpm_phase)) (f_lit fo 80));
          temp_raw = f_as_i16 fo (f_add fo (f_lit fo (- 1790)) (f_mul fo
                  (f_sin fo (f_add fo (f_mul fo t (f_lit fo 0.015)) rpm_phase)) (f_lit fo 30)))
      in f32le fo depth @ f32le fo rpm @ u16le temp_raw)"

section \<open>Events\<close>

definition inj_events :: "(u16 \<times> u8 \<times> string) list" where
  "inj_events =
     [(0x101, 1, ''CDH: Scheduler cycle nominal. Mode=NOMINAL uptime OK''),
      (0x110, 1, ''ADCS: Attitude estimate converged. Max deviation 0.003 deg''),
      (0x120, 2, ''COMM: VC0 rate set 100 kbps. Frame sync OK''),
      (0x128, 1, ''ROS2_BRIDGE: Packets routed milestone reached''),
      (0x130, 1, ''POWER: Battery SOC nominal. Solar panel charging active''),
      (0x140, 1, ''PAYLOAD: Science frame captured. Buffer utilisation 42%''),
      (0x300, 1, ''ROVER_LAND: Waypoint reached. Next target 30s''),
      (0x3C0, 2, ''UAV: Altitude hold engaged at 52m AGL''),
      (0x400, 1, ''CRYOBOT: Drill nominal. Depth milestone reached''),
      (0x110, 3, ''ADCS: WARN angular rate above threshold 0.015 rad/s'')]"

definition event_template :: "u32 \<Rightarrow> u16 \<times> u8 \<times> string" where
  "event_template tick = inj_events ! (unat tick mod length inj_events)"

definition event_payload :: "u8 \<Rightarrow> string \<Rightarrow> bytes" where
  "event_payload severity message = [severity] @ map char_byte message @ [0]"

section \<open>One tick\<close>

definition orbiter_requests :: "('f, 'd) float_ops \<Rightarrow> u32 \<Rightarrow> (u16 \<times> u8 \<times> bytes) list" where
  "orbiter_requests fo t =
     [(0x101, vc_hk, cdh_hk t), (0x110, vc_hk, adcs_hk fo t), (0x120, vc_hk, comm_hk t),
      (0x128, vc_hk, ros2_bridge_hk t), (0x129, vc_hk, prx1_hk fo t), (0x130, vc_hk, power_hk fo t),
      (0x140, vc_hk, payload_hk t), (0x160, vc_hk, fleet_hk fo t)]"

definition rover_requests :: "('f, 'd) float_ops \<Rightarrow> u32 \<Rightarrow> (u16 \<times> u8 \<times> bytes) list" where
  "rover_requests fo t =
     (let l = f_lit fo in
      [(0x300, vc_rover, rover_land_hk fo t),
       (0x301, vc_rover, rover_land_hk_n fo t (l (- 8)) (l 5) (l 2)),
       (0x302, vc_rover, rover_land_hk_n fo t (l 3) (l (- 6)) (l 4)),
       (0x3C0, vc_rover, rover_uav_hk fo t),
       (0x3C1, vc_rover, rover_uav_hk_n fo t (l (- 6)) (l 4) (l 6) (l 1.2) (l 0.13)),
       (0x3C2, vc_rover, rover_uav_hk_n fo t (l 8) (l (- 3)) (l 4) (l 2.4) (l 0.21)),
       (0x3C3, vc_rover, rover_uav_hk_n fo t (l (- 3)) (l (- 7)) (l 7) (l 0.7) (l 0.15)),
       (0x3C4, vc_rover, rover_uav_hk_n fo t (l 5) (l 7) (l 5) (l 3.1) (l 0.19)),
       (0x400, vc_rover, rover_cryo_hk fo t)])"

definition titan_requests :: "('f, 'd) float_ops \<Rightarrow> u32 \<Rightarrow> (u16 \<times> u8 \<times> bytes) list" where
  "titan_requests fo t =
     (let l = f_lit fo in
      [(0x410, vc_rover, titan_rover_hk fo t (l 12) (l 8) (l 0)),
       (0x411, vc_rover, titan_rover_hk fo t (l (- 11)) (l 6) (l 1.5)),
       (0x412, vc_rover, titan_rover_hk fo t (l 8) (l (- 10)) (l 3)),
       (0x420, vc_rover, titan_uav_hk fo t (l 0) (l 0) (l 12) (l 0) (l 0.17)),
       (0x421, vc_rover, titan_uav_hk fo t (l (- 7)) (l 5) (l 14) (l 1.2) (l 0.13)),
       (0x422, vc_rover, titan_uav_hk fo t (l 9) (l (- 4)) (l 11) (l 2.4) (l 0.21)),
       (0x423, vc_rover, titan_uav_hk fo t (l (- 3)) (l (- 8)) (l 13) (l 0.7) (l 0.15)),
       (0x424, vc_rover, titan_uav_hk fo t (l 6) (l 6) (l 15) (l 3.1) (l 0.19)),
       (0x430, vc_rover, titan_cryo_hk fo t (l 0) (l 0)),
       (0x431, vc_rover, titan_cryo_hk fo t (l 2) (l 1.2)),
       (0x432, vc_rover, titan_cryo_hk fo t (l 5) (l 2.4)),
       (0x433, vc_rover, titan_cryo_hk fo t (l 8) (l 0.9))])"

definition event_request :: "u32 \<Rightarrow> u16 \<times> u8 \<times> bytes" where
  "event_request t =
     (let (ev_apid, ev_sev, ev_msg) = event_template t in (ev_apid, vc_event, event_payload ev_sev ev_msg))"

text \<open>The chain of \<open>send(..)?\<close> calls stops at the first error.\<close>

fun send_all ::
  "(bytes \<Rightarrow> u16) \<Rightarrow> ('k \<Rightarrow> bytes \<Rightarrow> 'k option) \<Rightarrow> u32 \<Rightarrow> (u16 \<times> u8 \<times> bytes) list \<Rightarrow> injector_state \<times> 'k
     \<Rightarrow> inject_error + injector_state \<times> 'k" where
  "send_all crc16 send_to tai [] st = Inr st"
| "send_all crc16 send_to tai (req # reqs) st =
     and_then (injector_send crc16 send_to tai req st) (send_all crc16 send_to tai reqs)"

definition inject_tick ::
  "('f, 'd) float_ops \<Rightarrow> (bytes \<Rightarrow> u16) \<Rightarrow> ('k \<Rightarrow> bytes \<Rightarrow> 'k option) \<Rightarrow> u32 \<Rightarrow> injector_state \<times> 'k
     \<Rightarrow> inject_error + injector_state \<times> 'k" where
  "inject_tick fo crc16 send_to tai st =
     (let t = ij_tick (fst st) in
      send_all crc16 send_to tai
        (orbiter_requests fo t @ rover_requests fo t @ titan_requests fo t @ [event_request t]) st)"

text \<open>The loop of \<open>main\<close> over the clock readings of its first iterations.\<close>

fun inject_loop ::
  "('f, 'd) float_ops \<Rightarrow> (bytes \<Rightarrow> u16) \<Rightarrow> ('k \<Rightarrow> bytes \<Rightarrow> 'k option) \<Rightarrow> u64 option list \<Rightarrow> injector_state \<times> 'k
     \<Rightarrow> inject_error + injector_state \<times> 'k" where
  "inject_loop fo crc16 send_to [] st = Inr st"
| "inject_loop fo crc16 send_to (now # clock) st =
     and_then (inject_tick fo crc16 send_to (tai_now now) st)
       (\<lambda>(s, sock). inject_loop fo crc16 send_to clock (s\<lparr>ij_tick := ij_tick s + 1\<rparr>, sock))"

section \<open>Shape of the frames\<close>

lemma length_u [simp]:
  "length (u32le v) = 4" "length (u32be v) = 4" "length (u16le w) = 2" "length (f32le fo x) = 4"
  by (simp_all add: u32le_def u32be_def u16le_def f32le_def)

text \<open>The primary header, and a frame before its check field.\<close>

definition aos_header :: "u8 \<Rightarrow> u8 \<Rightarrow> bytes" where
  "aos_header vc ctr = [0x4A, 0x80 OR (vc AND 0x3F), 0, ctr, ctr, 0]"

definition frame_head :: "bytes \<Rightarrow> u8 \<Rightarrow> u8 \<Rightarrow> bytes" where
  "frame_head pkt vc ctr = aos_header vc ctr @ pkt @ replicate (1016 - length pkt) 0"

lemma length_aos_header [simp]: "length (aos_header vc ctr) = 6"
  by (simp add: aos_header_def)

lemma length_frame_head [simp]: "length pkt \<le> 1016 \<Longrightarrow> length (frame_head pkt vc ctr) = 1022"
  by (simp add: frame_head_def)

lemma empty_frame:
  "(replicate 1024 0)[0 := push_bit 6 0b01 OR drop_bit 2 inj_scid,
     1 := push_bit 6 (inj_scid AND 0x03) OR (vc AND 0x3F), 2 := 0, 3 := ctr, 4 := ctr, 5 := 0]
   = aos_header vc ctr @ replicate 1018 0"
proof -
  have "(replicate 1024 0 :: bytes) = [0, 0, 0, 0, 0, 0] @ replicate 1018 0"
    using replicate_add [of 6 1018 "0 :: u8"] by (simp add: numeral_eq_Suc)
  then show ?thesis by (simp add: inj_scid_def aos_header_def)
qed

lemma copy_packet:
  assumes "length pkt \<le> 1016"
  shows "copy_into (aos_header vc ctr @ replicate 1018 0) 6 pkt = frame_head pkt vc ctr @ [0, 0]"
proof -
  have "1018 - length pkt = (1016 - length pkt) + 2" using assms by simp
  then have "replicate (1018 - length pkt) (0 :: u8) = replicate (1016 - length pkt) 0 @ [0, 0]"
    by (simp only: replicate_add) (simp add: numeral_eq_Suc)
  then show ?thesis by (simp add: copy_into_def frame_head_def)
qed

lemma build_aos_frame_eq:
  assumes "length pkt \<le> 1016"
  shows "build_aos_frame crc16 pkt vc ctr = frame_head pkt vc ctr @ be16 (crc16 (frame_head pkt vc ctr))"
proof -
  obtain h l where hl: "be16 (crc16 (frame_head pkt vc ctr)) = [h, l]" by (rule be16_cases)
  show ?thesis
    unfolding build_aos_frame_def Let_def empty_frame
    using assms hl by (simp add: injector_consts copy_packet list_update_append)
qed

section \<open>The receiver's view of a frame\<close>

lemma checked_frame_forwarded:
  assumes "length head = 1022" "head ! 5 = 0"
  shows "forwarded (fst (process_frame crc16 f now (head @ be16 (crc16 head)))) =
    [\<lparr>af_vc_id = head ! 1 AND 0x3F, af_ocf = None, af_data = drop 6 head\<rparr>]"
proof -
  let ?buf = "head @ be16 (crc16 head)"
  have len: "length ?buf = 1024" by (simp add: assms)
  have "frame_valid crc16 ?buf" by (simp add: frame_valid_iff [OF len] assms(1))
  moreover have "frame_of ?buf = \<lparr>af_vc_id = head ! 1 AND 0x3F, af_ocf = None, af_data = drop 6 head\<rparr>"
    using assms by (simp add: frame_of_def nth_append)
  ultimately show ?thesis by (simp add: process_frame_outs [OF len])
qed

lemma framer_accepts:
  assumes "length pkt \<le> 1016"
  shows "forwarded (fst (process_frame crc16 f now (build_aos_frame crc16 pkt vc ctr))) =
    [\<lparr>af_vc_id = vc AND 0x3F, af_ocf = None, af_data = pkt @ replicate (1016 - length pkt) 0\<rparr>]"
proof -
  have "frame_head pkt vc ctr ! 5 = 0" "frame_head pkt vc ctr ! 1 = 0x80 OR (vc AND 0x3F)"
    "drop 6 (frame_head pkt vc ctr) = pkt @ replicate (1016 - length pkt) 0"
    by (simp_all add: frame_head_def aos_header_def)
  moreover have "(0x80 OR (vc AND 0x3F)) AND 0x3F = vc AND (0x3F :: u8)"
    by (simp add: bit.conj_disj_distrib2 and.assoc)
  ultimately show ?thesis
    using checked_frame_forwarded [of "frame_head pkt vc ctr" crc16 f now] assms
    by (simp add: build_aos_frame_eq)
qed

definition seq_ok :: "injector_state \<Rightarrow> bool" where
  "seq_ok s \<longleftrightarrow> sc_ok (SequenceCount (ij_seq s))"

definition sent_state :: "injector_state \<Rightarrow> injector_state" where
  "sent_state s = s\<lparr>ij_seq := (ij_seq s + 1) AND 0x3FFF, ij_frame_ctr := ij_frame_ctr s + 1\<rparr>"

lemma seq_ok_sent: "seq_ok (sent_state s)"
  by (simp add: seq_ok_def sent_state_def sc_ok_iff_mask and.assoc)

definition inj_builder :: "u32 \<Rightarrow> u16 \<Rightarrow> u16 \<Rightarrow> bytes \<Rightarrow> packet_builder" where
  "inj_builder tai seq a d = with_user_data d (with_instance_id (InstanceId 1) (with_func_code (FuncCode 2)
     (with_cuc \<lparr>coarse = tai, fine = 0\<rparr> (with_sequence_count (SequenceCount seq) (builder_tm (Apid a))))))"

lemmas inj_builder_simps =
  inj_builder_def with_user_data_def with_instance_id_def with_func_code_def with_cuc_def
  with_sequence_count_def builder_tm_def builder_new_def

lemma injector_send_eq:
  assumes "seq_ok s" "apid_ok (Apid a)"
  shows "injector_send crc16 send_to tai (a, vc, d) (s, sock) =
    and_then (map_err InjectCcsds (builder_build (inj_builder tai (ij_seq s) a d)))
      (\<lambda>pkt. case send_to sock (build_aos_frame crc16 pkt vc (ij_frame_ctr s)) of
         None \<Rightarrow> Inl InjectIo | Some sock' \<Rightarrow> Inr (sent_state s, sock'))"
proof -
  have "apid_new a = Inr (Apid a)" "sc_new (ij_seq s) = Inr (SequenceCount (ij_seq s))"
    "fc_new 2 = Inr (FuncCode 2)" "iid_new 1 = Inr (InstanceId 1)"
    using assms by (simp_all add: apid_new_iff sc_new_iff fc_new_iff iid_new_iff seq_ok_def fc_ok_def iid_ok_def)
  then show ?thesis
    by (simp add: injector_send_def next_seq_def next_frame_ctr_def inj_builder_def sent_state_def Let_def
        cong: option.case_cong)
qed

lemma inj_builder_packet:
  assumes "sc_ok (SequenceCount seq)" "apid_ok (Apid a)" "length d \<le> 1000"
  shows "\<exists>pkt k. builder_build (inj_builder tai seq a d) = Inr pkt \<and> sp_parse pkt = Inr k
    \<and> length pkt = 16 + length d \<and> apid_get (ph_apid (sp_primary k)) = a
    \<and> ph_seq (sp_primary k) = SequenceCount seq
    \<and> sh_time (sp_secondary k) = \<lparr>coarse = tai, fine = 0\<rparr> \<and> sp_user_data k = d"
proof -
  let ?b = "inj_builder tai seq a d"
  let ?k = "builder_packet ?b (FuncCode 2) (InstanceId 1)"
  have "builder_ok ?b"
    using assms by (simp add: builder_ok_def inj_builder_simps fc_ok_def iid_ok_def)
  moreover have b: "builder_build ?b = Inr (packet_image ?k)"
    using assms(3) by (simp add: builder_build_eq inj_builder_simps)
  ultimately have "sp_parse (packet_image ?k) = Inr ?k"
    using builder_parse [of ?b] by (auto simp: inj_builder_simps)
  then show ?thesis
    using b by (intro exI [of _ "packet_image ?k"] exI [of _ ?k])
      (simp add: builder_packet_def inj_builder_simps primary_new_def secondary_new_def)
qed

section \<open>Every request of a tick\<close>

text \<open>The sink that the APID and virtual channel of a request aim at.\<close>

definition aimed_at :: "u16 \<times> u8 \<times> bytes \<Rightarrow> route" where
  "aimed_at req = (let (a, vc, d) = req in
     if vc = vc_event then EventLog else if vc = vc_rover then RoverForward else Hk)"

definition request_ok :: "u16 \<times> u8 \<times> bytes \<Rightarrow> bool" where
  "request_ok req \<longleftrightarrow> (let (a, vc, d) = req in
     length d \<le> 100
     \<and> (vc = 0 \<and> unat a \<in> {0x100..0x17F} \<or> vc = 3 \<and> unat a \<in> {0x300..0x45F}
        \<or> vc = 1 \<and> unat a \<in> {0x101..0x400}))"

lemma request_ok_apid: "request_ok (a, vc, d) \<Longrightarrow> apid_ok (Apid a)"
  by (auto simp: request_ok_def apid_ok_le_idle less_eq_apid_def apid_idle_def apid_max_def word_le_nat_alt)

lemma request_ok_routed:
  "request_ok (a, vc, d) \<Longrightarrow> apid_get (ph_apid (sp_primary k)) = a \<Longrightarrow>
    fst (route_packet r vc k) = aimed_at (a, vc, d)"
  by (auto simp: request_ok_def route_decision pkt_apid_def aimed_at_def vc_event_def vc_rover_def)

definition tick_requests :: "('f, 'd) float_ops \<Rightarrow> u32 \<Rightarrow> (u16 \<times> u8 \<times> bytes) list" where
  "tick_requests fo t = orbiter_requests fo t @ rover_requests fo t @ titan_requests fo t @ [event_request t]"

lemmas payload_defs =
  cdh_hk_def adcs_hk_def comm_hk_def ros2_bridge_hk_def prx1_hk_def power_hk_def payload_hk_def
  fleet_hk_def rover_land_hk_def rover_uav_hk_def rover_cryo_hk_def rover_land_hk_n_def
  rover_uav_hk_n_def titan_rover_hk_def titan_uav_hk_def titan_cryo_hk_def

lemma payload_lengths:
  "length (cdh_hk t) = 10" "length (adcs_hk fo t) = 32" "length (comm_hk t) = 8"
  "length (ros2_bridge_hk t) = 24" "length (prx1_hk fo t) = 10" "length (power_hk fo t) = 8"
  "length (payload_hk t) = 8" "length (fleet_hk fo t) = 13"
  "length (rover_land_hk fo t) = 14" "length (rover_uav_hk fo t) = 16" "length (rover_cryo_hk fo t) = 10"
  "length (rover_land_hk_n fo t x z p) = 14" "length (rover_uav_hk_n fo t x z y p o') = 16"
  "length (titan_rover_hk fo t x z p) = 14" "length (titan_uav_hk fo t x z y p o') = 16"
  "length (titan_cryo_hk fo t x p) = 10"
  by (simp_all add: payload_defs Let_def)

lemma orbiter_requests_ok: "list_all request_ok (orbiter_requests fo t)"
  by (simp add: orbiter_requests_def request_ok_def vc_hk_def payload_lengths)

lemma rover_requests_ok: "list_all request_ok (rover_requests fo t)"
  by (simp add: rover_requests_def request_ok_def vc_rover_def payload_lengths Let_def)

lemma titan_requests_ok: "list_all request_ok (titan_requests fo t)"
  by (simp add: titan_requests_def request_ok_def vc_rover_def payload_lengths Let_def)

lemma events_ok: "list_all (\<lambda>(a, sev, msg). unat a \<in> {0x101..0x400} \<and> length msg \<le> 98) inj_events"
  by (simp add: inj_events_def)

lemma event_request_ok: "request_ok (event_request t)"
proof -
  have "event_template t \<in> set inj_events"
    unfolding event_template_def by (rule nth_mem) (simp add: inj_events_def)
  then have "(\<lambda>(a, sev, msg). unat a \<in> {0x101..0x400} \<and> length msg \<le> 98) (event_template t)"
    using events_ok by (simp only: list_all_iff)
  then show ?thesis
    by (auto simp: event_request_def request_ok_def vc_event_def event_payload_def split_beta)
qed

lemma tick_requests_ok: "list_all request_ok (tick_requests fo t)"
  by (simp add: tick_requests_def orbiter_requests_ok rover_requests_ok titan_requests_ok event_request_ok)

lemma length_tick_requests: "length (tick_requests fo t) = 30"
  by (simp add: tick_requests_def orbiter_requests_def rover_requests_def titan_requests_def Let_def)

section \<open>The datagrams of a tick\<close>

text \<open>A socket that accepts every datagram, as the list of what was sent.\<close>

definition push_datagram :: "bytes list \<Rightarrow> bytes \<Rightarrow> bytes list option" where
  "push_datagram sent fr = Some (sent @ [fr])"

text \<open>
  What the datagram of a request is to the ground station: a valid AOS frame on the channel of the
  request, whose data field is a packet that carries the request and that the router would hand to
  the aimed sink, followed by fill.
\<close>

definition delivers :: "(bytes \<Rightarrow> u16) \<Rightarrow> u32 \<Rightarrow> u16 \<Rightarrow> u16 \<times> u8 \<times> bytes \<Rightarrow> bytes \<Rightarrow> bool" where
  "delivers crc16 tai seq req datagram \<longleftrightarrow> (let (a, vc, d) = req in
     \<exists>pkt k. length datagram = 1024
       \<and> (\<forall>f now. forwarded (fst (process_frame crc16 f now datagram)) =
            [\<lparr>af_vc_id = vc, af_ocf = None, af_data = pkt @ replicate (1000 - length d) 0\<rparr>])
       \<and> sp_parse pkt = Inr k \<and> apid_get (ph_apid (sp_primary k)) = a
       \<and> ph_seq (sp_primary k) = SequenceCount seq
       \<and> sh_time (sp_secondary k) = \<lparr>coarse = tai, fine = 0\<rparr> \<and> sp_user_data k = d
       \<and> (\<forall>r. fst (route_packet r vc k) = aimed_at req))"

lemma send_delivers:
  assumes "seq_ok s" "request_ok req"
  shows "\<exists>datagram. injector_send crc16 push_datagram tai req (s, sent) =
      Inr (sent_state s, sent @ [datagram]) \<and> delivers crc16 tai (ij_seq s) req datagram"
proof -
  obtain a vc d where req: "req = (a, vc, d)" by (cases req)
  have ok: "apid_ok (Apid a)" "length d \<le> 1000" "vc AND 0x3F = vc"
    using assms(2) by (auto simp: req request_ok_apid request_ok_def)
  obtain pkt k where p: "builder_build (inj_builder tai (ij_seq s) a d) = Inr pkt" "sp_parse pkt = Inr k"
      "length pkt = 16 + length d" "apid_get (ph_apid (sp_primary k)) = a"
      "ph_seq (sp_primary k) = SequenceCount (ij_seq s)"
      "sh_time (sp_secondary k) = \<lparr>coarse = tai, fine = 0\<rparr>" "sp_user_data k = d"
    using inj_builder_packet [of "ij_seq s" a d tai] assms(1) ok by (auto simp: seq_ok_def)
  let ?datagram = "build_aos_frame crc16 pkt vc (ij_frame_ctr s)"
  have "length pkt \<le> 1016" using p(3) ok(2) by simp
  then have "length ?datagram = 1024"
    "\<forall>f now. forwarded (fst (process_frame crc16 f now ?datagram)) =
      [\<lparr>af_vc_id = vc, af_ocf = None, af_data = pkt @ replicate (1000 - length d) 0\<rparr>]"
    using framer_accepts [of pkt crc16] p(3) ok(3) by (simp_all add: build_aos_frame_eq)
  then have "delivers crc16 tai (ij_seq s) req ?datagram"
    using p request_ok_routed [of a vc d k] assms(2) by (auto simp: delivers_def req)
  moreover have "injector_send crc16 push_datagram tai req (s, sent) = Inr (sent_state s, sent @ [?datagram])"
    by (simp add: req injector_send_eq [OF assms(1) ok(1)] p(1) push_datagram_def map_err_def)
  ultimately show ?thesis by blast
qed

definition seq_after :: "injector_state \<Rightarrow> nat \<Rightarrow> u16" where
  "seq_after s i = (ij_seq s + of_nat i) AND 0x3FFF"

lemma unat_and_14: "unat (x AND 0x3FFF :: u16) = unat x mod 0x4000"
proof -
  have "x AND 0x3FFF = take_bit 14 x"
    by (simp only: take_bit_eq_mask) (simp add: mask_eq_exp_minus_1)
  then have "unat (x AND 0x3FFF) = take_bit 14 (unat x)"
    by (simp only: unsigned_take_bit_eq)
  then show ?thesis by (simp add: take_bit_eq_mod)
qed

lemma and_14_add: "(x AND 0x3FFF) + y AND 0x3FFF = x + y AND (0x3FFF :: u16)"
proof -
  have "(unat x mod 0x4000 + unat y) mod 0x10000 mod 0x4000 = (unat x + unat y) mod 0x10000 mod 0x4000"
    by (simp add: mod_mod_cancel mod_simps)
  then have "unat ((x AND 0x3FFF) + y AND 0x3FFF) = unat (x + y AND 0x3FFF)"
    by (simp only: unat_and_14 unat_word_ariths) (simp add: unat_and_14)
  then show ?thesis by (simp only: word_unat_eq_iff)
qed

lemma seq_after_sent: "seq_after (sent_state s) i = seq_after s (Suc i)"
proof -
  have "seq_after (sent_state s) i = ((ij_seq s + 1) AND 0x3FFF) + of_nat i AND 0x3FFF"
    by (simp only: seq_after_def sent_state_def) simp
  also have "\<dots> = (ij_seq s + 1) + of_nat i AND 0x3FFF" by (rule and_14_add)
  also have "\<dots> = seq_after s (Suc i)" by (simp only: seq_after_def of_nat_Suc add.assoc)
  finally show ?thesis .
qed

lemma seq_after_0: "seq_ok s \<Longrightarrow> seq_after s 0 = ij_seq s"
  by (simp add: seq_after_def seq_ok_def sc_ok_iff_mask)

lemma send_all_delivers:
  assumes "seq_ok s" "list_all request_ok reqs"
  shows "\<exists>s' datagrams. send_all crc16 push_datagram tai reqs (s, sent) = Inr (s', sent @ datagrams)
    \<and> ij_tick s' = ij_tick s \<and> ij_seq s' = seq_after s (length reqs) \<and> length datagrams = length reqs
    \<and> (\<forall>i < length reqs. delivers crc16 tai (seq_after s i) (reqs ! i) (datagrams ! i))"
  using assms
proof (induction reqs arbitrary: s sent)
  case Nil
  then show ?case by (simp add: seq_after_0)
next
  case (Cons req reqs)
  obtain dg where dg: "injector_send crc16 push_datagram tai req (s, sent) = Inr (sent_state s, sent @ [dg])"
      "delivers crc16 tai (ij_seq s) req dg"
    using send_delivers [OF Cons.prems(1), of req crc16 tai sent] Cons.prems(2) by auto
  obtain s' dgs where rest: "send_all crc16 push_datagram tai reqs (sent_state s, sent @ [dg]) =
        Inr (s', (sent @ [dg]) @ dgs)" "ij_tick s' = ij_tick (sent_state s)"
      "ij_seq s' = seq_after (sent_state s) (length reqs)" "length dgs = length reqs"
      "\<forall>i < length reqs. delivers crc16 tai (seq_after (sent_state s) i) (reqs ! i) (dgs ! i)"
    using Cons.IH [OF seq_ok_sent [of s], of "sent @ [dg]"] Cons.prems(2) by auto
  have "\<forall>i < length (req # reqs). delivers crc16 tai (seq_after s i) ((req # reqs) ! i) ((dg # dgs) ! i)"
    using rest(5) dg(2) by (auto simp: seq_after_0 [OF Cons.prems(1)] seq_after_sent less_Suc_eq_0_disj)
  then show ?case
    using rest dg(1) by (intro exI [of _ s'] exI [of _ "dg # dgs"])
      (simp add: seq_after_sent del: of_nat_Suc, simp add: sent_state_def)
qed

section \<open>Property\<close>

lemma delivers_lost:
  assumes "delivers crc16 tai seq req datagram" "request_ok req"
  shows "\<exists>fr. forwarded (fst (process_frame crc16 f now datagram)) = [fr] \<and> af_vc_id fr = fst (snd req)
    \<and> snd (snd (decoder_process try_send d tx now fr)) = tx
    \<and> sd_decode_fail (fst (snd (decoder_process try_send d tx now fr))) = sd_decode_fail d + 1"
proof -
  obtain a vc data where req: "req = (a, vc, data)" by (cases req)
  obtain pkt k where p: "sp_parse pkt = Inr k"
    "forwarded (fst (process_frame crc16 f now datagram)) =
      [\<lparr>af_vc_id = vc, af_ocf = None, af_data = pkt @ replicate (1000 - length data) 0\<rparr>]"
    using assms(1) by (auto simp: delivers_def req)
  have "replicate (1000 - length data) (0 :: u8) \<noteq> []"
    using assms(2) by (simp add: request_ok_def req)
  from padded_packet_discarded [OF p(1) _ this, of "\<lparr>af_vc_id = vc, af_ocf = None,
      af_data = pkt @ replicate (1000 - length data) 0\<rparr>" try_send d tx now]
  show ?thesis using p(2) by (simp add: req)
qed

text \<open>
  C40: A tick of the injector against the ground station.  From a state whose sequence count is in
  range, and with a socket that accepts, a tick sends one datagram for each of its thirty requests
  and leaves the sequence count thirty further, modulo \<open>2 ^ 14\<close>.  Each datagram is a frame that the
  receiver forwards on the channel of the request; its packet carries the APID, the next sequence
  count, the time and the payload, and the router would hand it to the aimed sink.  But the
  decoder takes the fill for part of the packet, so none of the thirty packets gets through.
\<close>

theorem injector_tick_sent_and_lost:
  assumes "unat (ij_seq s) < 0x4000"
  shows "\<exists>s' datagrams. inject_tick fo crc16 push_datagram tai (s, sent) = Inr (s', sent @ datagrams)
    \<and> length datagrams = 30 \<and> unat (ij_seq s') = (unat (ij_seq s) + 30) mod 0x4000
    \<and> (\<forall>i < 30. delivers crc16 tai (seq_after s i) (tick_requests fo (ij_tick s) ! i) (datagrams ! i)
        \<and> (\<forall>f now. \<exists>fr. forwarded (fst (process_frame crc16 f now (datagrams ! i))) = [fr]
            \<and> snd (snd (decoder_process bq_try_send d tx now fr)) = tx))"
proof -
  have ok: "seq_ok s"
    using assms by (simp add: seq_ok_def sc_ok_def sc_max_def word_le_nat_alt)
  obtain s' dgs where run: "inject_tick fo crc16 push_datagram tai (s, sent) = Inr (s', sent @ dgs)"
      "ij_seq s' = seq_after s 30" "length dgs = 30"
    and each: "\<forall>i < 30. delivers crc16 tai (seq_after s i) (tick_requests fo (ij_tick s) ! i) (dgs ! i)"
    using send_all_delivers [OF ok tick_requests_ok, of crc16 tai fo "ij_tick s" sent]
    by (auto simp: inject_tick_def tick_requests_def [symmetric] length_tick_requests Let_def)
  have ok_i: "request_ok (tick_requests fo (ij_tick s) ! i)" if "i < 30" for i
    using tick_requests_ok [of fo "ij_tick s"] that by (simp add: list_all_length length_tick_requests)
  have lost: "\<exists>fr. forwarded (fst (process_frame crc16 f now (dgs ! i))) = [fr]
      \<and> snd (snd (decoder_process bq_try_send d tx now fr)) = tx" if "i < 30" for i f now
    using delivers_lost [OF each [rule_format, OF that] ok_i [OF that],
        where f = f and now = now and try_send = bq_try_send and d = d and tx = tx] by auto
  have seq: "unat (ij_seq s') = (unat (ij_seq s) + 30) mod 0x4000"
    by (simp add: run(2) seq_after_def unat_and_14 unat_word_ariths mod_mod_cancel)
  show ?thesis
  proof (intro exI [of _ s'] exI [of _ dgs] conjI allI impI)
    show "inject_tick fo crc16 push_datagram tai (s, sent) = Inr (s', sent @ dgs)" by (rule run(1))
    show "length dgs = 30" by (rule run(3))
    show "unat (ij_seq s') = (unat (ij_seq s) + 30) mod 0x4000" by (rule seq)
  next
    fix i :: nat assume "i < 30"
    with each show "delivers crc16 tai (seq_after s i) (tick_requests fo (ij_tick s) ! i) (dgs ! i)" by blast
  next
    fix i :: nat and f now assume "i < 30"
    then show "\<exists>fr. forwarded (fst (process_frame crc16 f now (dgs ! i))) = [fr]
      \<and> snd (snd (decoder_process bq_try_send d tx now fr)) = tx" by (rule lost)
  qed
qed

definition example_floats :: "(rat, rat) float_ops" where
  "example_floats =
     \<lparr>f_lit = id, f_of_u32 = of_nat \<circ> unat, f_add = (+), f_sub = (-), f_mul = (*), f_div = (/),
      f_rem = (\<lambda>x y. x), f_max = max, f_abs = abs, f_sin = (\<lambda>_. 0), f_cos = (\<lambda>_. 1), f_bits = (\<lambda>_. 0),
      f_as_u8 = (\<lambda>_. 0), f_as_u16 = (\<lambda>_. 0), f_as_i16 = (\<lambda>_. 0), f_as_u32 = (\<lambda>_. 0), d_lit = id,
      d_of_u32 = of_nat \<circ> unat, d_add = (+), d_bits = (\<lambda>_. 0)\<rparr>"

theorem injector_tick_sent_and_lost_witness:
  "\<exists>s' datagrams. inject_tick example_floats (\<lambda>_. 0x1234) push_datagram 5 (injector_default, []) =
      Inr (s', datagrams) \<and> length datagrams = 30 \<and> unat (ij_seq s') = 30"
  using injector_tick_sent_and_lost [where s = injector_default and fo = example_floats and tai = 5
      and ?crc16.0 = "\<lambda>_. 0x1234" and sent = "[]" and d = "decoder_new 0" and tx = "\<lparr>bq_cap = 1, bq_items = []\<rparr>"]
  by (auto simp: injector_default_def)

end
