(* ===== verification/Demo_Pipeline.thy ===== *)
theory Demo_Pipeline
  imports Injector Ingest_Demux "HOL-Library.AList" "HOL-Library.Multiset"
begin

text \<open>
  The end-to-end demonstration \<open>rust/ground_station/examples/pipeline_demo.rs\<close>: a catalogue of
  nine packets, each padded to fill its frame exactly, sent through the receiver.  A failed
  \<open>expect\<close>, a failed assertion and a \<open>copy_from_slice\<close> of the wrong length are panics.  The CRC
  engine is the argument \<open>crc16\<close>.
\<close>

definition demo_scid :: u8 where
  "demo_scid = 42"

definition demo_data_field_len :: nat where
  "demo_data_field_len = aos_frame_len - 6 - 2"

definition demo_user_data_len :: nat where
  "demo_user_data_len = demo_data_field_len - 16"

lemmas demo_consts = demo_data_field_len_def demo_user_data_len_def aos_frame_len_def

record tx_packet =
  tp_label :: string
  tp_apid :: u16
  tp_vc_id :: u8
  tp_payload_head :: bytes
  tp_func_code :: u16

definition spacecraft_catalog :: "tx_packet list" where
  "spacecraft_catalog =
     [\<lparr>tp_label = ''orbiter_cdh HK'', tp_apid = 0x101, tp_vc_id = 0,
       tp_payload_head = [0xC2, 0x1A, 0x00, 0x7F], tp_func_code = 1\<rparr>,
      \<lparr>tp_label = ''orbiter_adcs ATTITUDE'', tp_apid = 0x110, tp_vc_id = 0,
       tp_payload_head = [0x3F, 0x80, 0, 0, 0, 0, 0, 0, 0, 0, 0, 0, 0, 0, 0, 0], tp_func_code = 2\<rparr>,
      \<lparr>tp_label = ''orbiter_comm LINK STATUS'', tp_apid = 0x120, tp_vc_id = 0,
       tp_payload_head = [0x01, 0x5A, 0x00, 0x00], tp_func_code = 3\<rparr>,
      \<lparr>tp_label = ''orbiter_power POWER HK'', tp_apid = 0x130, tp_vc_id = 0,
       tp_payload_head = [0x10, 0xF4, 0x0C, 0x80], tp_func_code = 4\<rparr>,
      \<lparr>tp_label = ''orbiter_payload PAYLOAD HK'', tp_apid = 0x140, tp_vc_id = 0,
       tp_payload_head = [0x00, 0x12, 0x34, 0x56], tp_func_code = 5\<rparr>,
      \<lparr>tp_label = ''orbiter_cdh EVENT (VC1)'', tp_apid = 0x102, tp_vc_id = 1,
       tp_payload_head = [0x00, 0x01, 0x00, 0x2A] @ map char_byte ''CDH READY'' @ [0], tp_func_code = 6\<rparr>,
      \<lparr>tp_label = ''rover_land HK (VC3)'', tp_apid = 0x300, tp_vc_id = 3,
       tp_payload_head = [0, 0, 0, 1, 0x3F, 0, 0, 0], tp_func_code = 7\<rparr>,
      \<lparr>tp_label = ''FAULT INJECT (Q-F2 FORBIDDEN)'', tp_apid = 0x540, tp_vc_id = 0,
       tp_payload_head = [0xDE, 0xAD, 0xBE, 0xEF], tp_func_code = 8\<rparr>,
      \<lparr>tp_label = ''IDLE FILL (0x7FF)'', tp_apid = 0x7FF, tp_vc_id = 63,
       tp_payload_head = [0, 0, 0, 0], tp_func_code = 9\<rparr>]"

definition demo_packet :: "u16 \<Rightarrow> u16 \<Rightarrow> u16 \<Rightarrow> bytes \<Rightarrow> bytes exec" where
  "demo_packet a seq func_code user_data =
     exec_bind (unwrap (apid_new a)) (\<lambda>ap.
     exec_bind (unwrap (sc_new seq)) (\<lambda>sc.
     exec_bind (unwrap (fc_new func_code)) (\<lambda>fc.
     exec_bind (unwrap (iid_new 1)) (\<lambda>inst.
       unwrap (builder_build (with_user_data user_data (with_instance_id inst (with_func_code fc
         (with_cuc \<lparr>coarse = 1000000 + ucast seq * 100, fine = 0\<rparr>
           (with_sequence_count sc (builder_tm ap)))))))))))"

definition demo_aos_frame ::
  "(bytes \<Rightarrow> u16) \<Rightarrow> u16 \<Rightarrow> u8 \<Rightarrow> u16 \<Rightarrow> u16 \<Rightarrow> bytes \<Rightarrow> bytes exec" where
  "demo_aos_frame crc16 a vc_id seq func_code payload_head =
     (let copy_len = min (length payload_head) demo_user_data_len;
          user_data = copy_into (replicate demo_user_data_len 0) 0 (take copy_len payload_head) in
      exec_bind (demo_packet a seq func_code user_data) (\<lambda>pkt_bytes.
      if length pkt_bytes \<noteq> demo_data_field_len then Panicked
      else
        let fr = replicate aos_frame_len 0;
            fr = fr[0 := push_bit 6 0b01 OR drop_bit 2 demo_scid];
            fr = fr[1 := push_bit 6 (demo_scid AND 0x03) OR (vc_id AND 0x3F)];
            fr = fr[4 := ucast (seq AND 0xFF)];
            fr = fr[5 := 0];
            fr = copy_into fr 6 pkt_bytes;
            fecf = crc16 (take (aos_frame_len - 2) fr);
            fr = fr[aos_frame_len - 2 := be16 fecf ! 0]
        in Returned (fr[aos_frame_len - 1 := be16 fecf ! 1])))"

text \<open>The frames of the spacecraft task, numbered from \<open>seq\<close>.\<close>

fun demo_downlink :: "(bytes \<Rightarrow> u16) \<Rightarrow> nat \<Rightarrow> tx_packet list \<Rightarrow> bytes list exec" where
  "demo_downlink crc16 seq [] = Returned []"
| "demo_downlink crc16 seq (p # ps) =
     exec_bind (demo_aos_frame crc16 (tp_apid p) (tp_vc_id p) (of_nat seq) (tp_func_code p) (tp_payload_head p))
       (\<lambda>fr. exec_bind (demo_downlink crc16 (Suc seq) ps) (\<lambda>frs. Returned (fr # frs)))"

definition arrow :: string where
  "arrow = [CHR 0xE2, CHR 0x86, CHR 0x92]"

fun route_label :: "route \<Rightarrow> string" where
  "route_label Hk = arrow @ '' HK sink (telemetry ring buffer)''"
| "route_label EventLog = arrow @ '' EventLog sink (persistent EVS log)''"
| "route_label CfdpPdu = arrow @ '' CFDP sink (Class 1 receiver)''"
| "route_label RoverForward = arrow @ '' RoverForward archive''"
| "route_label IdleFill = arrow @ '' idle fill (silently discarded)''"
| "route_label (Rejected ForbiddenFaultInjectApid) =
     arrow @ '' REJECTED (Q-F2: fault-inject APID forbidden on RF)''"
| "route_label (Rejected ForbiddenSimApid) =
     arrow @ '' REJECTED (Q-F2: sim-injection APID forbidden on RF)''"
| "route_label (Rejected ForbiddenGroundInternal) = arrow @ '' REJECTED: ground-internal APID on RF''"
| "route_label (Rejected UnknownBlock) = arrow @ '' REJECTED: unknown APID block''"

text \<open>\<open>str::contains\<close>, and the router loop with its counts per label.\<close>

fun contains :: "string \<Rightarrow> string \<Rightarrow> bool" where
  "contains pat s \<longleftrightarrow> take (length pat) s = pat \<or> (case s of [] \<Rightarrow> False | _ # s' \<Rightarrow> contains pat s')"

declare contains.simps [simp del]

record demo_session =
  ds_router :: apid_router
  ds_counts :: "(string \<times> nat) list"

definition demo_session_new :: demo_session where
  "demo_session_new = \<lparr>ds_router = router_new, ds_counts = []\<rparr>"

text \<open>\<open>*counts.entry(label).or_insert(0) += 1\<close>\<close>

definition bump_count :: "string \<Rightarrow> (string \<times> nat) list \<Rightarrow> (string \<times> nat) list" where
  "bump_count l al = AList.update l ((case map_of al l of None \<Rightarrow> 0 | Some n \<Rightarrow> n) + 1) al"

definition demo_route :: "u8 \<times> bytes \<Rightarrow> demo_session \<Rightarrow> demo_session" where
  "demo_route tagged s =
     (case sp_parse (snd tagged) of
        Inl _ \<Rightarrow> s
      | Inr pkt \<Rightarrow>
          (let (r, router) = route_packet (ds_router s) (fst tagged) pkt; label = route_label r in
           s\<lparr>ds_router := router,
             ds_counts := bump_count label (ds_counts s)\<rparr>))"

definition label_total :: "demo_session \<Rightarrow> string \<Rightarrow> nat" where
  "label_total s pat = sum_list (map snd (filter (\<lambda>(l, n). contains pat l) (ds_counts s)))"

section \<open>A frame that its packet fills exactly\<close>

definition padded :: "bytes \<Rightarrow> bytes" where
  "padded head = head @ replicate (1000 - length head) 0"

definition demo_builder :: "u16 \<Rightarrow> u16 \<Rightarrow> u16 \<Rightarrow> bytes \<Rightarrow> packet_builder" where
  "demo_builder a seq fc d = with_user_data d (with_instance_id (InstanceId 1) (with_func_code (FuncCode fc)
     (with_cuc \<lparr>coarse = 1000000 + ucast seq * 100, fine = 0\<rparr>
       (with_sequence_count (SequenceCount seq) (builder_tm (Apid a))))))"

lemmas demo_builder_simps =
  demo_builder_def with_user_data_def with_instance_id_def with_func_code_def with_cuc_def
  with_sequence_count_def builder_tm_def builder_new_def

definition tx_ok :: "tx_packet \<Rightarrow> bool" where
  "tx_ok p \<longleftrightarrow> apid_ok (Apid (tp_apid p)) \<and> tp_func_code p \<noteq> 0 \<and> length (tp_payload_head p) \<le> 1000
     \<and> tp_vc_id p AND 0x3F = tp_vc_id p"

lemma catalog_ok: "list_all tx_ok spacecraft_catalog"
  by (simp add: spacecraft_catalog_def tx_ok_def apid_ok_def apid_max_def)

lemma demo_packet_ok:
  assumes "apid_ok (Apid a)" "sc_ok (SequenceCount seq)" "fc \<noteq> 0" "length d \<le> 1000"
  shows "\<exists>pkt k. demo_packet a seq fc d = Returned pkt \<and> sp_parse pkt = Inr k \<and> length pkt = 16 + length d
    \<and> apid_get (ph_apid (sp_primary k)) = a \<and> ph_seq (sp_primary k) = SequenceCount seq
    \<and> sp_user_data k = d"
proof -
  let ?b = "demo_builder a seq fc d"
  let ?k = "builder_packet ?b (FuncCode fc) (InstanceId 1)"
  have "apid_new a = Inr (Apid a)" "sc_new seq = Inr (SequenceCount seq)" "fc_new fc = Inr (FuncCode fc)"
    "iid_new 1 = Inr (InstanceId 1)"
    using assms(1-3) by (simp_all add: apid_new_iff sc_new_iff fc_new_iff iid_new_iff fc_ok_def iid_ok_def)
  then have "demo_packet a seq fc d = unwrap (builder_build ?b)"
    by (simp add: demo_packet_def demo_builder_def)
  moreover have b: "builder_build ?b = Inr (packet_image ?k)"
    using assms(4) by (simp add: builder_build_eq demo_builder_simps)
  moreover have "builder_ok ?b"
    using assms(1-3) by (simp add: builder_ok_def demo_builder_simps fc_ok_def iid_ok_def)
  then have "sp_parse (packet_image ?k) = Inr ?k"
    using builder_parse [of ?b] b by (auto simp: demo_builder_simps)
  ultimately show ?thesis
    by (intro exI [of _ "packet_image ?k"] exI [of _ ?k])
      (simp add: builder_packet_def demo_builder_simps primary_new_def)
qed

definition demo_header :: "u8 \<Rightarrow> u8 \<Rightarrow> bytes" where
  "demo_header vc ctr = [0x4A, 0x80 OR (vc AND 0x3F), 0, 0, ctr, 0]"

lemma demo_empty_frame:
  "(replicate aos_frame_len 0)[0 := push_bit 6 0b01 OR drop_bit 2 demo_scid,
     1 := push_bit 6 (demo_scid AND 0x03) OR (vc AND 0x3F), 4 := ctr, 5 := 0]
   = demo_header vc ctr @ replicate 1018 0"
proof -
  have "(replicate 1024 0 :: bytes) = [0, 0, 0, 0, 0, 0] @ replicate 1018 0"
    using replicate_add [of 6 1018 "0 :: u8"] by (simp add: numeral_eq_Suc)
  then show ?thesis by (simp add: aos_frame_len_def demo_scid_def demo_header_def)
qed

lemma demo_aos_frame_ok:
  assumes "apid_ok (Apid a)" "sc_ok (SequenceCount seq)" "fc \<noteq> 0" "length h \<le> 1000"
  shows "\<exists>pkt k. demo_aos_frame crc16 a vc seq fc h = Returned ((demo_header vc (ucast (seq AND 0xFF)) @ pkt)
      @ be16 (crc16 (demo_header vc (ucast (seq AND 0xFF)) @ pkt)))
    \<and> sp_parse pkt = Inr k \<and> length pkt = 1016 \<and> apid_get (ph_apid (sp_primary k)) = a
    \<and> ph_seq (sp_primary k) = SequenceCount seq \<and> sp_user_data k = padded h"
proof -
  let ?hd = "demo_header vc (ucast (seq AND 0xFF))"
  have data: "copy_into (replicate demo_user_data_len 0) 0 (take (min (length h) demo_user_data_len) h) = padded h"
    using assms(4) by (simp add: copy_into_def padded_def demo_consts)
  have len: "length (padded h) = 1000" using assms(4) by (simp add: padded_def)
  obtain pkt k where p: "demo_packet a seq fc (padded h) = Returned pkt" "sp_parse pkt = Inr k"
      "length pkt = 1016" "apid_get (ph_apid (sp_primary k)) = a"
      "ph_seq (sp_primary k) = SequenceCount seq" "sp_user_data k = padded h"
    using demo_packet_ok [OF assms(1-3), of "padded h"] len by auto
  have hdr: "length ?hd = 6" by (simp add: demo_header_def)
  have two: "(replicate 2 0 :: bytes) = [0, 0]" by (simp add: numeral_eq_Suc)
  have copied: "copy_into (?hd @ replicate 1018 0) 6 pkt = (?hd @ pkt) @ [0, 0]"
    by (simp add: copy_into_def hdr p(3) two)
  obtain x y where xy: "be16 (crc16 (?hd @ pkt)) = [x, y]" by (rule be16_cases)
  have "demo_aos_frame crc16 a vc seq fc h = Returned ((?hd @ pkt) @ be16 (crc16 (?hd @ pkt)))"
    unfolding demo_aos_frame_def Let_def data demo_empty_frame
    using p(1,3) xy hdr by (simp add: demo_consts copied list_update_append del: append_assoc)
  then show ?thesis using p by blast
qed

section \<open>What the receiver gets\<close>

definition data_of :: "bytes \<Rightarrow> bytes" where
  "data_of frame = take 1016 (drop 6 frame)"

text \<open>
  The frame of a catalogue entry: the framer forwards it on the channel of the entry, and its data
  field is the entry's packet.
\<close>

definition demo_carries :: "(bytes \<Rightarrow> u16) \<Rightarrow> tx_packet \<Rightarrow> bytes \<Rightarrow> bool" where
  "demo_carries crc16 p frame \<longleftrightarrow> length frame = 1024
     \<and> (\<forall>f now. forwarded (fst (process_frame crc16 f now frame)) =
          [\<lparr>af_vc_id = tp_vc_id p, af_ocf = None, af_data = data_of frame\<rparr>])
     \<and> (\<exists>k. sp_parse (data_of frame) = Inr k \<and> pkt_apid k = unat (tp_apid p)
          \<and> sp_user_data k = padded (tp_payload_head p))"

lemma demo_frame_carries:
  assumes "tx_ok p" "sc_ok (SequenceCount seq)"
  shows "\<exists>frame. demo_aos_frame crc16 (tp_apid p) (tp_vc_id p) seq (tp_func_code p) (tp_payload_head p) =
      Returned frame \<and> demo_carries crc16 p frame"
proof -
  let ?hd = "demo_header (tp_vc_id p) (ucast (seq AND 0xFF))"
  obtain pkt k where p: "demo_aos_frame crc16 (tp_apid p) (tp_vc_id p) seq (tp_func_code p) (tp_payload_head p) =
      Returned ((?hd @ pkt) @ be16 (crc16 (?hd @ pkt)))" "sp_parse pkt = Inr k" "length pkt = 1016"
      "apid_get (ph_apid (sp_primary k)) = tp_apid p" "sp_user_data k = padded (tp_payload_head p)"
    using demo_aos_frame_ok [of "tp_apid p" seq "tp_func_code p" "tp_payload_head p" crc16 "tp_vc_id p"]
      assms by (auto simp: tx_ok_def)
  let ?frame = "(?hd @ pkt) @ be16 (crc16 (?hd @ pkt))"
  have hd: "length (?hd @ pkt) = 1022" "(?hd @ pkt) ! 5 = 0" "(?hd @ pkt) ! 1 = 0x80 OR (tp_vc_id p AND 0x3F)"
    "drop 6 (?hd @ pkt) = pkt"
    using p(3) by (simp_all add: demo_header_def)
  have "(0x80 OR (tp_vc_id p AND 0x3F)) AND 0x3F = tp_vc_id p AND (0x3F :: u8)"
    by (simp add: bit.conj_disj_distrib2 and.assoc)
  moreover have d: "data_of ?frame = pkt" using hd(1,4) p(3) by (simp add: data_of_def demo_header_def)
  ultimately have "\<forall>f now. forwarded (fst (process_frame crc16 f now ?frame)) =
      [\<lparr>af_vc_id = tp_vc_id p, af_ocf = None, af_data = data_of ?frame\<rparr>]"
    using checked_frame_forwarded [OF hd(1,2), of crc16] hd(3,4) assms(1) by (simp only: tx_ok_def) simp
  moreover have "length ?frame = 1024" using hd(1) by simp
  ultimately have "demo_carries crc16 p ?frame"
    using p(2,4,5) d by (auto simp: demo_carries_def pkt_apid_def)
  then show ?thesis using p(1) by blast
qed

lemma demo_downlink_carries:
  assumes "list_all tx_ok ps" "n + length ps \<le> 0x4000"
  shows "\<exists>frames. demo_downlink crc16 n ps = Returned frames \<and> list_all2 (demo_carries crc16) ps frames"
  using assms
proof (induction ps arbitrary: n)
  case (Cons p ps)
  have "unat (of_nat n :: u16) = n" using Cons.prems(2) by (simp add: unat_of_nat)
  then have "sc_ok (SequenceCount (of_nat n))"
    using Cons.prems(2) by (simp add: sc_ok_def sc_max_def word_le_nat_alt)
  then obtain frame where f: "demo_aos_frame crc16 (tp_apid p) (tp_vc_id p) (of_nat n) (tp_func_code p)
      (tp_payload_head p) = Returned frame" "demo_carries crc16 p frame"
    using demo_frame_carries [of p "of_nat n" crc16] Cons.prems(1) by auto
  obtain frames where "demo_downlink crc16 (Suc n) ps = Returned frames" "list_all2 (demo_carries crc16) ps frames"
    using Cons.IH [of "Suc n"] Cons.prems by auto
  then show ?case using f by simp
qed simp

section \<open>Counting the labels\<close>

definition label_of :: "u8 \<times> bytes \<Rightarrow> string option" where
  "label_of tagged = (case sp_parse (snd tagged) of Inl _ \<Rightarrow> None
     | Inr k \<Rightarrow> Some (route_label (fst (route_packet router_new (fst tagged) k))))"

lemma route_state_free: "fst (route_packet r vc k) = fst (route_packet r' vc k)"
  by (simp only: route_decision)

lemma demo_route_counts:
  "ds_counts (demo_route tagged s) = (case label_of tagged of None \<Rightarrow> ds_counts s
     | Some l \<Rightarrow> bump_count l (ds_counts s))"
  using route_state_free [of "ds_router s" "fst tagged" _ router_new]
  by (auto simp: demo_route_def label_of_def Let_def split_beta split: sum.split)

lemma total_update:
  "distinct (map fst al) \<Longrightarrow>
    sum_list (map snd (filter (\<lambda>(l, n). contains pat l) (bump_count k al))) =
    sum_list (map snd (filter (\<lambda>(l, n). contains pat l) al)) + (if contains pat k then 1 else 0 :: nat)"
  by (induction al) (auto simp: bump_count_def map_of_eq_None_iff)

lemma label_total_route:
  "distinct (map fst (ds_counts s)) \<Longrightarrow> label_total (demo_route tagged s) pat =
     label_total s pat + (if pred_option (contains pat) (label_of tagged) \<and> label_of tagged \<noteq> None then 1 else 0)"
  by (simp add: label_total_def demo_route_counts total_update split: option.split)

lemma counts_distinct:
  "distinct (map fst (ds_counts s)) \<Longrightarrow> distinct (map fst (ds_counts (demo_route tagged s)))"
  by (simp add: demo_route_counts bump_count_def distinct_update split: option.split)

definition labelled :: "string \<Rightarrow> (u8 \<times> bytes) list \<Rightarrow> nat" where
  "labelled pat ts = length (filter (contains pat) (List.map_filter label_of ts))"

lemma label_total_run:
  "distinct (map fst (ds_counts s)) \<Longrightarrow>
    label_total (fold demo_route ts s) pat = label_total s pat + labelled pat ts"
proof (induction ts arbitrary: s)
  case (Cons t ts)
  then show ?case
    using counts_distinct [OF Cons.prems, of t] label_total_route [OF Cons.prems, of t pat]
    by (auto simp: labelled_def map_filter_simps split: option.splits)
qed (simp add: labelled_def map_filter_simps)

section \<open>The session\<close>

text \<open>The packets that reach the router: those of the channels 0 to 3.\<close>

definition demo_tagged :: "bytes list \<Rightarrow> (u8 \<times> bytes) list" where
  "demo_tagged frames = map (\<lambda>(p, fr). (tp_vc_id p, data_of fr))
     (filter (\<lambda>(p, fr). tp_vc_id p \<in> {0, 1, 2, 3}) (zip spacecraft_catalog frames))"

definition catalog_routes :: "route list" where
  "catalog_routes = [Hk, Hk, Hk, Hk, Hk, EventLog, RoverForward, Rejected ForbiddenFaultInjectApid]"

definition routes_to :: "tx_packet \<Rightarrow> route \<Rightarrow> bool" where
  "routes_to p r \<longleftrightarrow> (\<forall>k. pkt_apid k = unat (tp_apid p) \<longrightarrow> fst (route_packet router_new (tp_vc_id p) k) = r)"

lemma catalog_routes_to: "list_all2 routes_to (take 8 spacecraft_catalog) catalog_routes"
  by (simp add: spacecraft_catalog_def catalog_routes_def routes_to_def route_decision)

lemma carried_labels:
  "list_all2 (demo_carries crc16) ps frames \<Longrightarrow> list_all2 routes_to ps rs \<Longrightarrow>
    map label_of (map2 (\<lambda>p fr. (tp_vc_id p, data_of fr)) ps frames) = map (Some \<circ> route_label) rs"
proof (induction ps arbitrary: frames rs)
  case (Cons p ps)
  then show ?case
    by (auto simp: list_all2_Cons1 demo_carries_def routes_to_def label_of_def)
qed simp

lemma catalog_split:
  "spacecraft_catalog = take 8 spacecraft_catalog @ [spacecraft_catalog ! 8]"
  "tp_vc_id (spacecraft_catalog ! 8) = 63" "length (take 8 spacecraft_catalog) = 8"
  "length spacecraft_catalog = 9" "list_all (\<lambda>p. tp_vc_id p \<in> {0, 1, 2, 3}) (take 8 spacecraft_catalog)"
  by (simp_all add: spacecraft_catalog_def)

lemma tagged_prefix:
  assumes "length frames = 9"
  shows "demo_tagged frames = map2 (\<lambda>p fr. (tp_vc_id p, data_of fr)) (take 8 spacecraft_catalog) (take 8 frames)"
proof -
  let ?cs = "take 8 spacecraft_catalog" and ?fs = "take 8 frames"
  obtain fr where fr: "drop 8 frames = [fr]"
    using assms by (cases "drop 8 frames") (auto dest!: arg_cong [of _ _ length])
  have "frames = ?fs @ [fr]" using append_take_drop_id [of 8 frames] fr by simp
  then have "zip spacecraft_catalog frames = zip ?cs ?fs @ [(spacecraft_catalog ! 8, fr)]"
    using zip_append [of ?cs ?fs "[spacecraft_catalog ! 8]" "[fr]"] catalog_split(1,3) assms by simp
  moreover have "filter (\<lambda>(p, fr). tp_vc_id p \<in> {0, 1, 2, 3}) (zip ?cs ?fs) = zip ?cs ?fs"
    using catalog_split(5) by (intro filter_True) (auto simp: list_all_iff dest!: set_zip_leftD)
  ultimately show ?thesis by (simp add: demo_tagged_def catalog_split(2))
qed

lemma tagged_labels:
  assumes "list_all2 (demo_carries crc16) spacecraft_catalog frames"
  shows "map label_of (demo_tagged frames) = map (Some \<circ> route_label) catalog_routes"
proof -
  have "length frames = 9" using list_all2_lengthD [OF assms] catalog_split(4) by simp
  moreover have "list_all2 (demo_carries crc16) (take 8 spacecraft_catalog) (take 8 frames)"
    using assms by (rule list_all2_takeI)
  ultimately show ?thesis by (simp only: tagged_prefix carried_labels [OF _ catalog_routes_to])
qed

lemma labelled_perm:
  assumes "mset ts = mset ts'"
  shows "labelled pat ts = labelled pat ts'"
proof -
  have "labelled pat ts = size (filter_mset (\<lambda>t. label_of t \<noteq> None \<and> contains pat (the (label_of t))) (mset ts))" for ts
    by (induction ts) (auto simp: labelled_def map_filter_simps split: option.split)
  then show ?thesis using assms by simp
qed

lemma label_matches:
  "map (contains ''HK sink'' \<circ> route_label) catalog_routes = [True, True, True, True, True, False, False, False]"
  "map (contains ''EventLog'' \<circ> route_label) catalog_routes = [False, False, False, False, False, True, False, False]"
  "map (contains ''Rover'' \<circ> route_label) catalog_routes = [False, False, False, False, False, False, True, False]"
  "map (contains ''REJECTED'' \<circ> route_label) catalog_routes = [False, False, False, False, False, False, False, True]"
  by code_simp+

lemma labelled_map:
  "map label_of ts = map (Some \<circ> f) rs \<Longrightarrow> labelled pat ts = length (filter id (map (contains pat \<circ> f) rs))"
  unfolding labelled_def
proof (induction ts arbitrary: rs)
  case (Cons t ts)
  then show ?case by (cases rs) (auto simp: map_filter_simps)
qed (simp add: map_filter_simps)

definition router_saw :: "u16 \<Rightarrow> u8 \<times> bytes \<Rightarrow> bool" where
  "router_saw a tagged \<longleftrightarrow> (case sp_parse (snd tagged) of Inl _ \<Rightarrow> False | Inr k \<Rightarrow> pkt_apid k = unat a)"

lemma forbidden_run:
  assumes "unat a \<in> forbidden_apids"
  shows "forbidden_apid_seen_total (ds_router (fold demo_route ts s)) a =
    forbidden_apid_seen_total (ds_router s) a + of_nat (length (filter (router_saw a) ts))"
proof (induction ts arbitrary: s)
  case (Cons t ts)
  have "forbidden_apid_seen_total (ds_router (demo_route t s)) a =
      forbidden_apid_seen_total (ds_router s) a + (if router_saw a t then 1 else 0)"
    using assms route_counts [of "ds_router s" "fst t"]
    by (auto simp: demo_route_def router_saw_def Let_def split_beta split: sum.split)
  then show ?case by (simp add: Cons.IH)
qed simp

lemma carried_saw:
  "list_all2 (demo_carries crc16) ps frames \<Longrightarrow>
    map (router_saw a) (map2 (\<lambda>p fr. (tp_vc_id p, data_of fr)) ps frames) = map (\<lambda>p. tp_apid p = a) ps"
proof (induction ps arbitrary: frames)
  case (Cons p ps)
  then show ?case
    by (auto simp: list_all2_Cons1 demo_carries_def router_saw_def word_unat_eq_iff)
qed simp

lemma tagged_saw:
  assumes "list_all2 (demo_carries crc16) spacecraft_catalog frames"
  shows "length (filter (router_saw 0x540) (demo_tagged frames)) = 1"
proof -
  have "length frames = 9" using list_all2_lengthD [OF assms] catalog_split(4) by simp
  moreover have "list_all2 (demo_carries crc16) (take 8 spacecraft_catalog) (take 8 frames)"
    using assms by (rule list_all2_takeI)
  ultimately have "map (router_saw 0x540) (demo_tagged frames) = map (\<lambda>p. tp_apid p = 0x540) (take 8 spacecraft_catalog)"
    by (simp only: tagged_prefix carried_saw)
  also have "\<dots> = [False, False, False, False, False, False, False, True]"
    by (simp add: spacecraft_catalog_def)
  finally have "filter id (map (router_saw 0x540) (demo_tagged frames)) = [True]" by simp
  then have "length (filter id (map (router_saw 0x540) (demo_tagged frames))) = 1" by simp
  then show ?thesis by (simp add: filter_map comp_def)
qed

lemma filter_perm: "mset ts = mset ts' \<Longrightarrow> length (filter P ts) = length (filter P ts')"
  by (metis mset_filter size_mset)

text \<open>
  C39: The demonstration shows what it says.  The spacecraft task builds all nine frames without a
  panic, and the receiver forwards each with its packet as the data field, so that a packet that
  fills its frame does get through.  Whatever the order in which the relay tasks deliver the
  packets of channels 0 to 3, the session summary counts five housekeeping packets, one event, one
  rover packet and one rejected packet, and the forbidden APID 0x540 was seen once.
\<close>

theorem demo_session_summary:
  "\<exists>frames. demo_downlink crc16 0 spacecraft_catalog = Returned frames
    \<and> list_all2 (demo_carries crc16) spacecraft_catalog frames
    \<and> (\<forall>tagged. mset tagged = mset (demo_tagged frames) \<longrightarrow>
        (let s = fold demo_route tagged demo_session_new in
         label_total s ''HK sink'' = 5 \<and> label_total s ''EventLog'' = 1 \<and> label_total s ''Rover'' = 1
         \<and> label_total s ''REJECTED'' = 1 \<and> forbidden_apid_seen_total (ds_router s) 0x540 = 1))"
proof -
  obtain frames where frames: "demo_downlink crc16 0 spacecraft_catalog = Returned frames"
      "list_all2 (demo_carries crc16) spacecraft_catalog frames"
    using demo_downlink_carries [OF catalog_ok, of 0 crc16] catalog_split(4) by auto
  have run: "label_total (fold demo_route tagged demo_session_new) pat =
      length (filter id (map (contains pat \<circ> route_label) catalog_routes))"
    if "mset tagged = mset (demo_tagged frames)" for tagged pat
    using label_total_run [of demo_session_new tagged pat] labelled_perm [OF that]
      labelled_map [OF tagged_labels [OF frames(2)]]
    by (simp add: demo_session_new_def label_total_def)
  have seen: "forbidden_apid_seen_total (ds_router (fold demo_route tagged demo_session_new)) 0x540 = 1"
    if "mset tagged = mset (demo_tagged frames)" for tagged
    using forbidden_run [of "0x540" tagged demo_session_new] filter_perm [OF that] tagged_saw [OF frames(2)]
    by (simp add: forbidden_apids_def demo_session_new_def router_new_def forbidden_apid_seen_total_def)
  show ?thesis
    using frames by (intro exI [of _ frames]) (simp add: Let_def run seen label_matches)
qed

theorem demo_session_summary_witness:
  "\<exists>frames. demo_downlink (\<lambda>_. 0x1234) 0 spacecraft_catalog = Returned frames
     \<and> label_total (fold demo_route (rev (demo_tagged frames)) demo_session_new) ''HK sink'' = 5"
proof -
  obtain frames where "demo_downlink (\<lambda>_. 0x1234) 0 spacecraft_catalog = Returned frames"
    "\<forall>tagged. mset tagged = mset (demo_tagged frames) \<longrightarrow>
        label_total (fold demo_route tagged demo_session_new) ''HK sink'' = 5"
    using demo_session_summary [of "\<lambda>_. 0x1234"] by (auto simp: Let_def)
  then show ?thesis by (intro exI [of _ frames]) simp
qed

end
