(* ===== verification/Demo_Bridge.thy ===== *)
theory Demo_Bridge
  imports Ingest_Router Ccsds_Packet
begin

text \<open>
  The message-boundary demonstration \<open>rust/ground_station/examples/cfs_bridge.rs\<close>: message
  identifiers and packets on both sides of the cFE Software Bus.  The scenarios return what they
  print; a failed \<open>unwrap\<close>, \<open>expect\<close> or assertion is a panic.
\<close>

section \<open>Message identifiers\<close>

definition demo_mid_from_apid :: "u16 \<Rightarrow> bool \<Rightarrow> u16" where
  "demo_mid_from_apid a is_cmd = (if is_cmd then 0x1800 OR (a AND 0x07FF) else 0x0800 OR (a AND 0x07FF))"

definition apid_from_mid :: "u16 \<Rightarrow> u16" where
  "apid_from_mid mid = mid AND 0x07FF"

definition mid_is_cmd :: "u16 \<Rightarrow> bool" where
  "mid_is_cmd mid \<longleftrightarrow> mid AND 0x1000 \<noteq> 0"

text \<open>
  The identifier of a valid APID reads back to the APID and the direction, and the identifiers of
  the two directions are told apart.
\<close>

lemma and_mask_self: "apid_ok (Apid a) \<Longrightarrow> a AND 0x07FF = a"
  by (simp add: apid_ok_iff_mask)

lemma mid_roundtrip:
  assumes "apid_ok (Apid a)"
  shows "apid_from_mid (demo_mid_from_apid a c) = a \<and> mid_is_cmd (demo_mid_from_apid a c) = c"
proof -
  have a: "a AND 0x07FF = a" by (rule and_mask_self [OF assms])
  have "(0x1800 OR a) AND 0x07FF = a" "(0x0800 OR a) AND 0x07FF = a"
    using a by (simp_all add: bit.conj_disj_distrib2)
  moreover have "a AND 0x1000 = (a AND 0x07FF) AND 0x1000" using a by simp
  then have "a AND 0x1000 = 0" by (simp add: and.assoc)
  then have "(0x1800 OR a) AND 0x1000 = 0x1000" "(0x0800 OR a) AND 0x1000 = 0"
    by (simp_all add: bit.conj_disj_distrib2)
  ultimately show ?thesis
    by (simp add: demo_mid_from_apid_def apid_from_mid_def mid_is_cmd_def a)
qed

section \<open>Packets\<close>

definition bridge_cuc :: cuc where
  "bridge_cuc = \<lparr>coarse = 1800000, fine = 0\<rparr>"

definition bridge_bytes :: "(apid \<Rightarrow> packet_builder) \<Rightarrow> u16 \<Rightarrow> u16 \<Rightarrow> u16 \<Rightarrow> bytes \<Rightarrow> bytes exec" where
  "bridge_bytes start a seq func payload =
     exec_bind (unwrap (apid_new a)) (\<lambda>ap.
     exec_bind (unwrap (sc_new seq)) (\<lambda>sc.
     exec_bind (unwrap (fc_new func)) (\<lambda>fc.
     exec_bind (unwrap (iid_new 1)) (\<lambda>inst.
       unwrap (builder_build (with_user_data payload (with_cuc bridge_cuc (with_instance_id inst
         (with_func_code fc (with_sequence_count sc (start ap)))))))))))"

definition tm_bytes :: "u16 \<Rightarrow> u16 \<Rightarrow> bytes \<Rightarrow> bytes exec" where
  "tm_bytes a seq payload = bridge_bytes builder_tm a seq 0x0001 payload"

definition tc_bytes :: "u16 \<Rightarrow> u16 \<Rightarrow> u16 \<Rightarrow> bytes \<Rightarrow> bytes exec" where
  "tc_bytes a seq func payload = bridge_bytes builder_tc a seq func payload"

section \<open>The scenarios\<close>

definition assert_that :: "bool \<Rightarrow> unit exec" where
  "assert_that b = (if b then Returned () else Panicked)"

definition mid_table :: "(string \<times> u16 \<times> bool) list" where
  "mid_table =
     [(''sample_app TM'', 0x100, False), (''orbiter_cdh TM'', 0x101, False),
      (''orbiter_adcs TM'', 0x110, False), (''orbiter_comm TM'', 0x120, False),
      (''orbiter_power TM'', 0x130, False), (''orbiter_payload TM'', 0x140, False),
      (''orbiter_cdh TC'', 0x181, True), (''orbiter_adcs TC'', 0x182, True),
      (''orbiter_power TC'', 0x184, True)]"

fun check_mids :: "(string \<times> u16 \<times> bool) list \<Rightarrow> u16 list exec" where
  "check_mids [] = Returned []"
| "check_mids ((label, a, is_cmd) # rest) =
     (let mid = demo_mid_from_apid a is_cmd in
      exec_bind (assert_that (apid_from_mid mid = a)) (\<lambda>_.
      exec_bind (assert_that (mid_is_cmd mid = is_cmd)) (\<lambda>_.
      exec_bind (check_mids rest) (\<lambda>mids. Returned (mid # mids)))))"

definition tm_msgs :: "(string \<times> u16 \<times> bytes) list" where
  "tm_msgs =
     [(''orbiter_cdh'', 0x101, [0xC2, 0x1A, 0x00, 0x7F]),
      (''orbiter_adcs'', 0x110, [0x3F, 0x80, 0x00, 0x00, 0x00, 0x00, 0x00, 0x00]),
      (''orbiter_comm'', 0x120, [0x01, 0x5A]),
      (''orbiter_power'', 0x130, [0x10, 0xF4, 0x0C, 0x80]),
      (''orbiter_payload'', 0x140, [0x00, 0x12, 0x34, 0x56])]"

text \<open>Each telemetry line: identifier, sequence count, length of the user data, routing decision.\<close>

fun tm_inbound ::
  "apid_router \<Rightarrow> nat \<Rightarrow> (string \<times> u16 \<times> bytes) list \<Rightarrow> ((u16 \<times> u16 \<times> nat \<times> route) list \<times> apid_router) exec" where
  "tm_inbound r seq [] = Returned ([], r)"
| "tm_inbound r seq ((app, a, payload) # rest) =
     exec_bind (tm_bytes a (of_nat seq) payload) (\<lambda>raw.
     exec_bind (unwrap (sp_parse raw)) (\<lambda>pkt.
       let (route, r) = route_packet r 0 pkt;
           mid = demo_mid_from_apid (apid_get (ph_apid (sp_primary pkt))) False in
       exec_bind (tm_inbound r (Suc seq) rest) (\<lambda>(lines, r).
       Returned ((mid, sc_get (ph_seq (sp_primary pkt)), length (sp_user_data pkt), route) # lines, r))))"

definition tc_cmds :: "(string \<times> u16 \<times> u16 \<times> bytes) list" where
  "tc_cmds =
     [(''OrbiterSetMode'', 0x181, 0x0100, [0x02, 0x01]),
      (''OrbiterAdcsTargetQ'', 0x182, 0x0100, [0x40, 0x00, 0x00, 0x00]),
      (''OrbiterPowerArm'', 0x184, 0x8000, [0x03, 0xA5, 0xA5]),
      (''CryobotSetDrillRpm'', 0x440, 0x8200, [0x00, 0x78, 0x01, 0xF4, 0x5A, 0x5A])]"

text \<open>Each telecommand line: identifier, function code, length of the packet.\<close>

fun tc_outbound :: "nat \<Rightarrow> (string \<times> u16 \<times> u16 \<times> bytes) list \<Rightarrow> (u16 \<times> u16 \<times> nat) list exec" where
  "tc_outbound seq [] = Returned []"
| "tc_outbound seq ((label, a, func, payload) # rest) =
     exec_bind (tc_bytes a (of_nat seq) func payload) (\<lambda>raw.
     exec_bind (unwrap (sp_parse raw)) (\<lambda>pkt.
     let mid = demo_mid_from_apid (apid_get (ph_apid (sp_primary pkt))) True in
     exec_bind (assert_that (ph_type (sp_primary pkt) = Tc)) (\<lambda>_.
     exec_bind (tc_outbound (Suc seq) rest) (\<lambda>lines.
     Returned ((mid, fc_get (sh_func (sp_secondary pkt)), length raw) # lines)))))"

definition reencode :: "bytes \<Rightarrow> bytes exec" where
  "reencode original =
     exec_bind (unwrap (sp_parse original)) (\<lambda>pkt.
       unwrap (builder_build (with_user_data (sp_user_data pkt) (with_cuc (sh_time (sp_secondary pkt))
         (with_instance_id (sh_inst (sp_secondary pkt)) (with_func_code (sh_func (sp_secondary pkt))
           (with_sequence_count (ph_seq (sp_primary pkt)) (builder_tm (ph_apid (sp_primary pkt))))))))))"

text \<open>The error paths: the three errors, the decision on a fault-injection packet and its counter.\<close>

definition error_paths :: "apid_router \<Rightarrow> (ccsds_error list \<times> route \<times> u64) exec" where
  "error_paths r =
     exec_bind (unwrap_err (sp_parse (replicate 10 0))) (\<lambda>e1.
     exec_bind (tm_bytes 0x101 0 []) (\<lambda>bad_ver.
     exec_bind (unwrap_err (sp_parse (bad_ver[0 := bad_ver ! 0 OR 0b00100000]))) (\<lambda>e2.
     exec_bind (tm_bytes 0x101 0 [0x01, 0x02]) (\<lambda>bad_len.
     exec_bind (unwrap_err (sp_parse (butlast bad_len))) (\<lambda>e3.
     exec_bind (tm_bytes 0x540 0 []) (\<lambda>fault_raw.
     exec_bind (unwrap (sp_parse fault_raw)) (\<lambda>fault_pkt.
       let (fault_route, r) = route_packet r 0 fault_pkt in
       exec_bind (assert_that (is_BufferTooShort e1)) (\<lambda>_.
       Returned ([e1, e2, e3], fault_route, forbidden_apid_seen_total r 0x540)))))))))"

section \<open>What the demonstration shows\<close>

text \<open>Decoding and encoding again is the identity on every telemetry packet, not only the example.\<close>

theorem reencode_identity:
  assumes "sp_parse bs = Inr k" "ph_type (sp_primary k) = Tm"
  shows "reencode bs = Returned bs"
proof -
  have k: "packet_ok k" "bs = packet_image k"
    using assms(1) by (simp_all add: sp_parse_iff)
  have "with_user_data (sp_user_data k) (with_cuc (sh_time (sp_secondary k))
      (with_instance_id (sh_inst (sp_secondary k)) (with_func_code (sh_func (sp_secondary k))
        (with_sequence_count (ph_seq (sp_primary k)) (builder_tm (ph_apid (sp_primary k)))))))
    = packet_fields_builder k"
    using assms(2) by (simp add: packet_fields_builder_def example_builder_simps with_cuc_def
        with_sequence_count_def builder_tm_def)
  then show ?thesis
    using rebuild_packet [OF k(1)] k(2) assms(1) by (simp add: reencode_def)
qed

text \<open>Every table of valid APIDs passes the assertions of the first scenario.\<close>

lemma check_mids_ok:
  "list_all (\<lambda>(label, a, c). apid_ok (Apid a)) table \<Longrightarrow>
    check_mids table = Returned (map (\<lambda>(label, a, c). demo_mid_from_apid a c) table)"
  by (induction table) (auto simp: assert_that_def mid_roundtrip)

lemma check_mids_table:
  "check_mids mid_table =
     Returned [0x0900, 0x0901, 0x0910, 0x0920, 0x0930, 0x0940, 0x1981, 0x1982, 0x1984]"
proof -
  have "list_all (\<lambda>(label, a, c). apid_ok (Apid a)) mid_table"
    by (simp add: mid_table_def apid_ok_def apid_max_def)
  from check_mids_ok [OF this] show ?thesis
    by (simp only:) (simp add: mid_table_def demo_mid_from_apid_def)
qed

text \<open>The packet of a call with fields in range.\<close>

definition bridge_packet :: "packet_type \<Rightarrow> u16 \<Rightarrow> u16 \<Rightarrow> u16 \<Rightarrow> bytes \<Rightarrow> space_packet" where
  "bridge_packet t a seq func d =
     builder_packet (with_user_data d (with_cuc bridge_cuc (with_instance_id (InstanceId 1)
       (with_func_code (FuncCode func) (with_sequence_count (SequenceCount seq) (builder_new (Apid a) t))))))
       (FuncCode func) (InstanceId 1)"

lemmas bridge_builder_simps =
  example_builder_simps builder_tm_def with_cuc_def with_sequence_count_def

lemma bridge_packet_fields [simp]:
  "ph_apid (sp_primary (bridge_packet t a seq func d)) = Apid a"
  "ph_type (sp_primary (bridge_packet t a seq func d)) = t"
  "ph_seq (sp_primary (bridge_packet t a seq func d)) = SequenceCount seq"
  "sh_func (sp_secondary (bridge_packet t a seq func d)) = FuncCode func"
  "sp_user_data (bridge_packet t a seq func d) = d"
  by (simp_all add: bridge_packet_def builder_packet_def bridge_builder_simps primary_new_def secondary_new_def)

lemma bridge_bytes_ok:
  assumes "apid_ok (Apid a)" "sc_ok (SequenceCount seq)" "func \<noteq> 0" "length d \<le> 1000"
    "\<And>ap. start ap = builder_new ap t"
  shows "bridge_bytes start a seq func d = Returned (packet_image (bridge_packet t a seq func d))"
    and "sp_parse (packet_image (bridge_packet t a seq func d)) = Inr (bridge_packet t a seq func d)"
proof -
  let ?b = "with_user_data d (with_cuc bridge_cuc (with_instance_id (InstanceId 1)
       (with_func_code (FuncCode func) (with_sequence_count (SequenceCount seq) (builder_new (Apid a) t)))))"
  have "apid_new a = Inr (Apid a)" "sc_new seq = Inr (SequenceCount seq)" "fc_new func = Inr (FuncCode func)"
    "iid_new 1 = Inr (InstanceId 1)"
    using assms(1-3) by (simp_all add: apid_new_iff sc_new_iff fc_new_iff iid_new_iff fc_ok_def iid_ok_def)
  then have "bridge_bytes start a seq func d = unwrap (builder_build ?b)"
    by (simp add: bridge_bytes_def assms(5))
  moreover have built: "builder_build ?b = Inr (packet_image (bridge_packet t a seq func d))"
    using assms(4) by (simp add: builder_build_eq bridge_packet_def bridge_builder_simps)
  ultimately show "bridge_bytes start a seq func d = Returned (packet_image (bridge_packet t a seq func d))"
    by simp
  have "builder_ok ?b"
    using assms(1-3) by (simp add: builder_ok_def bridge_builder_simps fc_ok_def iid_ok_def)
  then show "sp_parse (packet_image (bridge_packet t a seq func d)) = Inr (bridge_packet t a seq func d)"
    using builder_parse [OF _ built] by (auto simp: bridge_packet_def bridge_builder_simps)
qed

lemmas tm_bytes_ok = bridge_bytes_ok [where start = builder_tm and t = Tm, OF _ _ _ _ builder_tm_def,
    of _ _ 1, folded tm_bytes_def, simplified]

lemmas tc_bytes_ok = bridge_bytes_ok [where start = builder_tc and t = Tc, OF _ _ _ _ builder_tc_def,
    folded tc_bytes_def]

text \<open>
  Every message with an APID of a housekeeping block comes in on channel 0 as it was sent and is
  routed to the housekeeping sink; the audit counters do not move.
\<close>

lemma seq_in_range: "n < 0x4000 \<Longrightarrow> sc_ok (SequenceCount (of_nat n))"
proof -
  assume "n < 0x4000"
  then have "unat (of_nat n :: u16) = n" by (simp add: unat_of_nat)
  with \<open>n < 0x4000\<close> show ?thesis by (simp add: sc_ok_def sc_max_def word_le_nat_alt)
qed

definition hk_message :: "string \<times> u16 \<times> bytes \<Rightarrow> bool" where
  "hk_message m \<longleftrightarrow> (case m of (app, a, d) \<Rightarrow>
     unat a \<in> {0x100..0x17F} \<union> {0x200..0x2FF} \<and> length d \<le> 1000)"

lemma hk_routed:
  assumes "apid_get (ph_apid (sp_primary k)) = a" "unat a \<in> {0x100..0x17F} \<union> {0x200..0x2FF}"
  shows "route_packet r 0 k = (Hk, r)"
proof -
  have "a = 0x7FF \<longleftrightarrow> unat a = 0x7FF" by (simp add: word_unat_eq_iff)
  then show ?thesis
    using assms by (auto simp: route_packet_def Let_def in_range_unat router_consts)
qed

theorem tm_inbound_lines:
  assumes "list_all hk_message msgs" "n + length msgs \<le> 0x4000"
  shows "tm_inbound r n msgs = Returned (map (\<lambda>(i, app, a, d).
    (demo_mid_from_apid a False, of_nat i, length d, Hk)) (zip [n..<n + length msgs] msgs), r)"
  using assms
proof (induction msgs arbitrary: n)
  case (Cons m msgs)
  obtain app a d where m: "m = (app, a, d)" by (cases m)
  have a: "unat a \<in> {0x100..0x17F} \<union> {0x200..0x2FF}" "length d \<le> 1000"
    using Cons.prems(1) by (simp_all add: hk_message_def m)
  then have "apid_ok (Apid a)" by (auto simp: apid_ok_def apid_max_def word_le_nat_alt)
  note ok = tm_bytes_ok [OF this seq_in_range [of n] a(2)]
  have "tm_inbound r (Suc n) msgs = Returned (map (\<lambda>(i, app, a, d).
      (demo_mid_from_apid a False, of_nat i, length d, Hk)) (zip [Suc n..<Suc n + length msgs] msgs), r)"
    using Cons.IH [of "Suc n"] Cons.prems by simp
  moreover have "[n..<n + length (m # msgs)] = n # [Suc n..<Suc n + length msgs]"
    using upt_conv_Cons [of n "n + length (m # msgs)"] by simp
  moreover have "route_packet r 0 (bridge_packet Tm a (of_nat n) 1 d) = (Hk, r)"
    using a(1) by (intro hk_routed) simp_all
  ultimately show ?case using ok Cons.prems(2) by (simp add: m)
qed simp

text \<open>Every telecommand goes out as a telecommand with its function code.\<close>

definition tc_entry :: "string \<times> u16 \<times> u16 \<times> bytes \<Rightarrow> bool" where
  "tc_entry c \<longleftrightarrow> (case c of (label, a, func, d) \<Rightarrow> apid_ok (Apid a) \<and> func \<noteq> 0 \<and> length d \<le> 1000)"

theorem tc_outbound_lines:
  assumes "list_all tc_entry cmds" "n + length cmds \<le> 0x4000"
  shows "tc_outbound n cmds = Returned (map (\<lambda>(label, a, func, d).
    (demo_mid_from_apid a True, func, 16 + length d)) cmds)"
  using assms
proof (induction cmds arbitrary: n)
  case (Cons c cmds)
  obtain label a func d where c: "c = (label, a, func, d)" by (cases c)
  have c_ok: "apid_ok (Apid a)" "func \<noteq> 0" "length d \<le> 1000"
    using Cons.prems(1) by (simp_all add: tc_entry_def c)
  note ok = tc_bytes_ok [OF c_ok(1) seq_in_range [of n] c_ok(2,3)]
  show ?case
    using ok Cons.IH [of "Suc n"] Cons.prems by (simp add: c assert_that_def)
qed simp

lemma demo_scenarios:
  "list_all hk_message tm_msgs" "list_all tc_entry tc_cmds"
  by (simp_all add: tm_msgs_def tc_cmds_def hk_message_def tc_entry_def apid_ok_def apid_max_def)

text \<open>The three error paths, and the fault-injection packet.\<close>

lemmas wire_eval =
  tm_bytes_def bridge_bytes_def builder_build_def bridge_builder_simps apid_new_def apid_max_def
  sc_new_def sc_max_def fc_new_def iid_new_def ok_or_def primary_encode_def secondary_encode_def
  be16_def be32_def primary_new_def secondary_new_def pdl_new_def bridge_cuc_def cuc_encode_be_def
  p_field_def secondary_len_def

lemma error_bytes:
  "tm_bytes 0x101 0 [] = Returned [0x09, 0x01, 0xC0, 0, 0, 9, 0x2F, 0, 0x1B, 0x77, 0x40, 0, 0, 0, 1, 1]"
  "tm_bytes 0x101 0 [1, 2] =
     Returned [0x09, 0x01, 0xC0, 0, 0, 11, 0x2F, 0, 0x1B, 0x77, 0x40, 0, 0, 0, 1, 1, 1, 2]"
  "tm_bytes 0x540 0 [] = Returned [0x0D, 0x40, 0xC0, 0, 0, 9, 0x2F, 0, 0x1B, 0x77, 0x40, 0, 0, 0, 1, 1]"
  by (simp_all add: wire_eval Let_def)

lemma error_parses:
  "sp_parse (replicate 10 0) = Inl (BufferTooShort 16 10)"
  "sp_parse [0x29, 0x01, 0xC0, 0, 0, 9, 0x2F, 0, 0x1B, 0x77, 0x40, 0, 0, 0, 1, 1] = Inl (InvalidVersion 3)"
  "sp_parse [0x09, 0x01, 0xC0, 0, 0, 11, 0x2F, 0, 0x1B, 0x77, 0x40, 0, 0, 0, 1, 1, 1] =
     Inl (LengthMismatch 18 17)"
  by code_simp+

lemma fault_packet:
  obtains k where "sp_parse [0x0D, 0x40, 0xC0, 0, 0, 9, 0x2F, 0, 0x1B, 0x77, 0x40, 0, 0, 0, 1, 1] = Inr k"
    "apid_get (ph_apid (sp_primary k)) = 0x540"
proof -
  have "sc_ok (SequenceCount 0)" "apid_ok (Apid 0x540)"
    by (simp_all add: sc_ok_def apid_ok_def apid_max_def)
  from tm_bytes_ok [OF this(2,1), of "[]"] error_bytes(3) that show thesis by simp
qed

theorem error_paths_lines:
  "error_paths router_new =
     Returned ([BufferTooShort 16 10, InvalidVersion 3, LengthMismatch 18 17],
       Rejected ForbiddenFaultInjectApid, 1)"
proof -
  obtain k where k: "sp_parse [0x0D, 0x40, 0xC0, 0, 0, 9, 0x2F, 0, 0x1B, 0x77, 0x40, 0, 0, 0, 1, 1] = Inr k"
      "apid_get (ph_apid (sp_primary k)) = 0x540"
    by (rule fault_packet)
  then have "route_packet router_new 0 k = (Rejected ForbiddenFaultInjectApid, count_forbidden router_new 0x540)"
    by (simp add: route_packet_def Let_def in_range_unat router_consts)
  then show ?thesis
    by (simp add: error_paths_def unwrap_err_def assert_that_def error_bytes error_parses k
        forbidden_apid_seen_total_def router_new_def count_forbidden_def)
qed

end
