(* ===== verification/Demo_Uplink.thy ===== *)
theory Demo_Uplink
  imports Uplink_Builder Uplink_Framer
begin

text \<open>
  The uplink demonstration \<open>rust/ground_station/examples/uplink_session.rs\<close>: builder, FOP-1 engine
  and frame encoder put together.  The session is modelled over its catalogue and the N(R) of its
  last telemetry word, which \<open>main\<close> fixes; the clock readings are arguments and so is the CRC
  engine.  What is printed is not modelled; a failed \<open>unwrap\<close> is a panic.
\<close>

section \<open>Definitions\<close>

definition make_clcw :: "bool \<Rightarrow> bool \<Rightarrow> u8 \<Rightarrow> bytes" where
  "make_clcw lockout retransmit nr =
     (let clcw = [0, 0, 0, 0];
          clcw = (if lockout then clcw[2 := clcw ! 2 OR 0x80] else clcw);
          clcw = (if retransmit then clcw[2 := clcw ! 2 OR 0x20] else clcw)
      in clcw[3 := nr])"

fun fop1_state_label :: "fop1_state \<Rightarrow> string" where
  "fop1_state_label Initial = ''Initial''"
| "fop1_state_label Initializing = ''Initializing''"
| "fop1_state_label Active = ''Active''"
| "fop1_state_label RetransmitWithoutWait = ''RetransmitWithoutWait''"
| "fop1_state_label RetransmitWithWait = ''RetransmitWithWait''"

definition uplink_catalog :: "(string \<times> tc_intent) list" where
  "uplink_catalog =
     [(''PKT-TC-0181-0100  OrbiterSetMode '' @ [CHR 0xE2, CHR 0x86, CHR 0x92] @ '' SAFE'',
       OrbiterSetMode 0x02 0x01),
      (''PKT-TC-0181-0200  OrbiterEventFilter (CDH app, warn+above)'', OrbiterEventFilter 42 0x02 0xFF),
      (''PKT-TC-0182-0100  OrbiterAdcsTargetQ (nadir-pointing)'',
       OrbiterAdcsTargetQ (0x40000000, 0, 0, 0) 0x01),
      (''PKT-TC-0184-8000  OrbiterPowerArm switch #3'', OrbiterPowerArm 3 0xA5A5),
      (''PKT-TC-0184-8100  OrbiterPowerSwitch #3 '' @ [CHR 0xE2, CHR 0x86, CHR 0x92] @ '' ON'',
       OrbiterPowerSwitch 3 True 0xA5A5),
      (''PKT-TC-0440-8200  CryobotSetDrillRpm 120 RPM, 5 A limit'', CryobotSetDrillRpm 120 500 0x5A5A)]"

fun build_spps :: "nat \<Rightarrow> cuc \<Rightarrow> (string \<times> tc_intent) list \<Rightarrow> bytes list exec" where
  "build_spps n now [] = Returned []"
| "build_spps n now ((label, intent) # rest) =
     exec_bind (unwrap (sc_new (of_nat n))) (\<lambda>seq.
     exec_bind (unwrap (tc_build intent seq now)) (\<lambda>spp.
     exec_bind (build_spps (Suc n) now rest) (\<lambda>spps. Returned (spp # spps))))"

text \<open>Refused submissions are only reported; each submission reads the clock.\<close>

fun submit_all :: "cop1 \<Rightarrow> (instant \<times> bytes) list \<Rightarrow> tc_frame list \<times> cop1" where
  "submit_all e [] = ([], e)"
| "submit_all e ((now, spp) # rest) =
     (let (r, e) = cop1_submit e now spp; (frames, e) = submit_all e rest in
      ((case r of Inl _ \<Rightarrow> [] | Inr fs \<Rightarrow> fs) @ frames, e))"

fun encode_all :: "(bytes \<Rightarrow> u16) \<Rightarrow> tc_framer \<Rightarrow> tc_frame list \<Rightarrow> bytes list exec" where
  "encode_all crc16 fr [] = Returned []"
| "encode_all crc16 fr (f # fs) =
     exec_bind (unwrap (tc_encode_frame crc16 fr f)) (\<lambda>sdlp.
     exec_bind (encode_all crc16 fr fs) (\<lambda>sdlps. Returned (sdlp # sdlps)))"

record uplink_clock =
  uc_first_tick :: instant
  uc_submits :: "instant list"
  uc_second_tick :: instant

definition uplink_session ::
  "(bytes \<Rightarrow> u16) \<Rightarrow> duration \<Rightarrow> cuc \<Rightarrow> uplink_clock \<Rightarrow> (string \<times> tc_intent) list \<Rightarrow> u8
     \<Rightarrow> (bytes \<times> bytes list \<times> cop1) exec" where
  "uplink_session crc16 t1 now clock catalog nr =
     exec_bind (unwrap (sc_new 0)) (\<lambda>seq0.
     exec_bind (unwrap_err (tc_build (CryobotSetDrillRpm 500 1001 0x5A5A) seq0 now)) (\<lambda>_.
     exec_bind (build_spps 0 now catalog) (\<lambda>spps.
       let framer = tc_framer_new 42;
           (bc_frame, e) = cop1_initialize (cop1_new t1);
           (_, _, e) = cop1_tick e (uc_first_tick clock) True (Some (make_clcw False False 0));
           (ad_frames, e) = submit_all e (zip (uc_submits clock) spps);
           (_, _, e) = cop1_tick e (uc_second_tick clock) True (Some (make_clcw False False nr)) in
       exec_bind (unwrap (tc_encode_frame crc16 framer bc_frame)) (\<lambda>bc_sdlp.
       exec_bind (encode_all crc16 framer ad_frames) (\<lambda>sdlps.
       Returned (bc_sdlp, sdlps, e))))))"

definition uplink_demo :: "(bytes \<Rightarrow> u16) \<Rightarrow> uplink_clock \<Rightarrow> (bytes \<times> bytes list \<times> cop1) exec" where
  "uplink_demo crc16 clock =
     uplink_session crc16 (from_secs 30) \<lparr>coarse = 1800000, fine = 0\<rparr> clock uplink_catalog 6"

section \<open>Building and submitting\<close>

text \<open>The intents that the builder does not refuse.\<close>

definition allowed :: "tc_intent \<Rightarrow> bool" where
  "allowed intent \<longleftrightarrow> (case intent of CryobotSetDrillRpm _ current _ \<Rightarrow> unat current \<le> 1000 | _ \<Rightarrow> True)"

lemma allowed_decompose: "allowed intent \<Longrightarrow> \<exists>d. decompose intent = Inr d"
  by (cases intent rule: decompose.cases)
    (auto simp: allowed_def cryobot_drill_max_current_def word_less_nat_alt)

lemma seq_count_ok: "n < 0x4000 \<Longrightarrow> sc_ok (SequenceCount (of_nat n))"
proof -
  assume "n < 0x4000"
  then have "unat (of_nat n :: u16) = n" by (simp add: unat_of_nat)
  with \<open>n < 0x4000\<close> show ?thesis by (simp add: sc_ok_def sc_max_def word_le_nat_alt)
qed

lemma tc_build_small:
  assumes "allowed intent" "sc_ok seq"
  shows "\<exists>spp. tc_build intent seq now = Inr spp \<and> length spp \<le> 34"
proof -
  obtain a f i ud where d: "decompose intent = Inr (a, f, i, ud)"
    using allowed_decompose [OF assms(1)] by (metis prod_cases4)
  obtain bs k where bs: "tc_build intent seq now = Inr bs" "sp_parse bs = Inr k"
    "k = builder_packet (tc_packet a f ud seq now) (FuncCode f) (InstanceId 1)"
    using tc_packet_builds [OF d assms(2)] by blast
  have "length bs = 16 + length ud"
    using bs(2,3) by (simp add: sp_parse_iff builder_packet_def tc_packet_def)
  then show ?thesis using bs(1) decompose_catalogue(3) [OF d] by auto
qed

lemma build_spps_ok:
  assumes "list_all (allowed \<circ> snd) catalog" "n + length catalog \<le> 0x4000"
  shows "\<exists>spps. build_spps n now catalog = Returned spps \<and> length spps = length catalog
    \<and> (\<forall>i < length catalog. tc_build (snd (catalog ! i)) (SequenceCount (of_nat (n + i))) now = Inr (spps ! i)
        \<and> length (spps ! i) \<le> 34)"
  using assms
proof (induction catalog arbitrary: n)
  case (Cons c catalog)
  obtain label intent where c: "c = (label, intent)" by fastforce
  have seq: "sc_ok (SequenceCount (of_nat n))" using seq_count_ok Cons.prems(2) by simp
  obtain spp where spp: "tc_build intent (SequenceCount (of_nat n)) now = Inr spp" "length spp \<le> 34"
    using tc_build_small [OF _ seq] Cons.prems(1) by (auto simp: c)
  obtain spps where spps: "build_spps (Suc n) now catalog = Returned spps" "length spps = length catalog"
    "\<forall>i < length catalog. tc_build (snd (catalog ! i)) (SequenceCount (of_nat (Suc n + i))) now = Inr (spps ! i)
        \<and> length (spps ! i) \<le> 34"
    using Cons.IH [of "Suc n"] Cons.prems by auto
  have "sc_new (of_nat n) = Inr (SequenceCount (of_nat n))" using seq by (simp add: sc_new_iff)
  then have "build_spps n now (c # catalog) = Returned (spp # spps)"
    using spp(1) spps(1) by (simp add: c)
  moreover have "\<forall>i < length (c # catalog). tc_build (snd ((c # catalog) ! i)) (SequenceCount (of_nat (n + i))) now
      = Inr ((spp # spps) ! i) \<and> length ((spp # spps) ! i) \<le> 34"
    using spp spps(3) by (auto simp: c less_Suc_eq_0_disj simp del: of_nat_add)
  ultimately show ?case using spps(2) by (intro exI [of _ "spp # spps"]) simp
qed simp

definition ad_frame :: "u8 \<Rightarrow> bytes \<Rightarrow> tc_frame" where
  "ad_frame seq spp = \<lparr>tf_vc_id = 0, tf_type = TypeAd, tf_seq = seq, tf_payload = spp\<rparr>"

definition seqs_from :: "u8 \<Rightarrow> nat \<Rightarrow> u8 list" where
  "seqs_from vs n = map (\<lambda>i. vs + of_nat i) [0..<n]"

lemma seqs_from_Suc: "seqs_from vs (Suc n) = vs # seqs_from (vs + 1) n"
  by (simp add: seqs_from_def upt_conv_Cons map_Suc_upt [symmetric] comp_def add.assoc del: upt_Suc)

lemma length_seqs_from [simp]: "length (seqs_from vs n) = n"
  by (simp add: seqs_from_def)

lemma submit_all_ok:
  assumes "c_state e = Active" "length (c_window e) + length xs \<le> 15"
  shows "\<exists>e'. submit_all e xs = (map2 ad_frame (seqs_from (c_vs e) (length xs)) (map snd xs), e')
    \<and> c_window e' = c_window e @ zip (seqs_from (c_vs e) (length xs)) (map snd xs)
    \<and> c_state e' = Active \<and> c_retx e' = c_retx e \<and> c_t1 e' = c_t1 e
    \<and> (xs = [] \<longrightarrow> e' = e)"
  using assms
proof (induction xs arbitrary: e)
  case Nil
  then show ?case by (simp add: seqs_from_def)
next
  case (Cons x xs)
  obtain now spp where x: "x = (now, spp)" by fastforce
  obtain e1 where sub: "cop1_submit e now spp = (Inr [ad_frame (c_vs e) spp], e1)"
    "c_window e1 = c_window e @ [(c_vs e, spp)]" "c_vs e1 = c_vs e + 1" "c_state e1 = Active"
    "c_retx e1 = c_retx e" "c_t1 e1 = c_t1 e"
    using Cons.prems by (simp add: cop1_submit_def cop1_window_size_def Let_def ad_frame_def)
  obtain e' where rest: "submit_all e1 xs = (map2 ad_frame (seqs_from (c_vs e1) (length xs)) (map snd xs), e')"
    "c_window e' = c_window e1 @ zip (seqs_from (c_vs e1) (length xs)) (map snd xs)"
    "c_state e' = Active" "c_retx e' = c_retx e1" "c_t1 e' = c_t1 e1"
    using Cons.IH [of e1] Cons.prems sub(2,4) by auto
  show ?case
    using rest sub by (simp add: x seqs_from_Suc)
qed

section \<open>Telemetry words\<close>

lemma make_clcw_clear: "make_clcw False False nr = [0, 0, 0, nr]"
  by (simp add: make_clcw_def)

lemma ack_all:
  "\<forall>(seq, p) \<in> set w. seq_before seq nr \<Longrightarrow>
    ack_window nr w n t1 = ([], (if w = [] then n else 0), (if w = [] then t1 else None))"
  by (induction nr w n t1 rule: ack_window.induct) auto

lemma seq_before_of_nat:
  assumes "i < n" "n \<le> 15"
  shows "seq_before (of_nat i) (of_nat n)"
proof -
  have "unat (of_nat n - of_nat i :: u8) = unat (of_nat (n - i) :: u8)"
    using assms by (simp add: of_nat_diff)
  also have "\<dots> = n - i" using assms by (simp only: unat_of_nat) simp
  finally have "unat (of_nat n - of_nat i :: u8) = n - i" .
  then show ?thesis
    using assms by (simp add: seq_before_def Let_def word_le_nat_alt word_unat_eq_iff)
qed

text \<open>A clear telemetry word that acknowledges everything leaves an active session with nothing outstanding.\<close>

lemma clear_tick:
  assumes "\<forall>(seq, p) \<in> set (c_window e). seq_before seq nr" "0 < c_t1 e"
    and "c_state e = Initializing \<or> c_state e = Active"
    and "c_window e = [] \<longrightarrow> c_retx e = 0 \<and> c_t1_deadline e = None"
  shows "\<exists>e'. cop1_tick e now True (Some (make_clcw False False nr)) = ([], [], e')
    \<and> c_state e' = Active \<and> c_window e' = [] \<and> c_retx e' = 0 \<and> c_vs e' = c_vs e \<and> c_t1 e' = c_t1 e
    \<and> c_t1_deadline e' = None"
proof -
  define e1 where "e1 = e\<lparr>c_last_clcw := Some now, c_window := [], c_retx := 0, c_t1_deadline := None,
    c_state := Active\<rparr>"
  have "tick_clcw e now [0, 0, 0, nr] = Inr e1"
    using assms(3,4) by (auto simp: tick_clcw_def ack_all [OF assms(1)] e1_def Let_def)
  moreover have "tick_timer e1 now = Inr e1" by (simp add: tick_timer_def e1_def)
  moreover have "tick_stale e1 now = ([], e1)"
    using assms(2) by (simp add: tick_stale_def e1_def duration_since_def cop1_consts)
  ultimately have "cop1_tick e now True (Some (make_clcw False False nr)) = ([], [], e1)"
    by (simp add: make_clcw_clear cop1_tick_def tick_ingest_def)
  then show ?thesis by (simp add: e1_def)
qed

section \<open>The session\<close>

lemma encode_all_ok:
  assumes "\<forall>f \<in> set fs. length (tf_payload f) \<le> 505"
  shows "\<exists>sdlps. encode_all crc16 fr fs = Returned sdlps
    \<and> list_all2 (\<lambda>bs f. tc_view_of bs = frame_view crc16 fr f bs) sdlps fs"
  using assms
proof (induction fs)
  case (Cons f fs)
  obtain bs where bs: "tc_encode_frame crc16 fr f = Inr bs" "tc_view_of bs = frame_view crc16 fr f bs"
    using tc_encode_frame_view [of f crc16 fr] Cons.prems by auto
  obtain sdlps where "encode_all crc16 fr fs = Returned sdlps"
    "list_all2 (\<lambda>bs f. tc_view_of bs = frame_view crc16 fr f bs) sdlps fs"
    using Cons by auto
  with bs show ?case by (intro exI [of _ "bs # sdlps"]) simp
qed simp

lemma drill_guard_refuses:
  "\<exists>e. tc_build (CryobotSetDrillRpm 500 1001 0x5A5A) seq now = Inl e"
  by (simp add: tc_build_def cryobot_drill_max_current_def)

text \<open>One exchange with a receiver that acknowledges everything: activation, submission, acknowledgement.\<close>

lemma fop1_exchange:
  assumes init: "cop1_initialize (cop1_new t1) = (bcf, e0)" and t1: "0 < t1"
    and small: "length spps \<le> 15" and clock: "length ts = length spps"
  obtains e1 e2 e3 where
    "cop1_tick e0 now1 True (Some (make_clcw False False 0)) = ([], [], e1)"
    "submit_all e1 (zip ts spps) = (map2 ad_frame (seqs_from 0 (length spps)) spps, e2)"
    "cop1_tick e2 now2 True (Some (make_clcw False False (of_nat (length spps)))) = ([], [], e3)"
    "c_state e3 = Active" "c_window e3 = []" "c_retx e3 = 0"
proof -
  let ?n = "length spps" and ?xs = "zip ts spps"
  have e0: "c_state e0 = Initializing" "c_vs e0 = 0" "c_window e0 = []" "c_retx e0 = 0"
      "c_t1_deadline e0 = None" "c_t1 e0 = t1"
    using init by (auto simp: cop1_initialize_def cop1_new_def)
  from clear_tick [of e0 0 now1] e0 t1
  obtain e1 where e1: "cop1_tick e0 now1 True (Some (make_clcw False False 0)) = ([], [], e1)"
    "c_state e1 = Active" "c_window e1 = []" "c_retx e1 = 0" "c_vs e1 = 0" "c_t1 e1 = t1"
    "c_t1_deadline e1 = None"
    by auto
  have xs: "length ?xs = ?n" "map snd ?xs = spps" using clock by simp_all
  obtain e2 where e2: "submit_all e1 ?xs = (map2 ad_frame (seqs_from 0 ?n) spps, e2)"
    "c_window e2 = zip (seqs_from 0 ?n) spps"
    "c_state e2 = Active" "c_retx e2 = 0" "c_t1 e2 = t1" "?xs = [] \<longrightarrow> e2 = e1"
    using submit_all_ok [of e1 ?xs] e1 small unfolding xs by auto
  have "\<forall>(seq, p) \<in> set (c_window e2). seq_before seq (of_nat ?n)"
    using seq_before_of_nat [OF _ small] by (auto simp: e2(2) seqs_from_def dest!: set_zip_leftD)
  moreover have "c_window e2 = [] \<longrightarrow> c_retx e2 = 0 \<and> c_t1_deadline e2 = None"
    using e2(2,4,6) e1(7) by (cases spps) (auto simp: seqs_from_def upt_conv_Cons simp del: upt_Suc)
  ultimately obtain e3 where "cop1_tick e2 now2 True (Some (make_clcw False False (of_nat ?n))) = ([], [], e3)"
    "c_state e3 = Active" "c_window e3 = []" "c_retx e3 = 0"
    using clear_tick [of e2 "of_nat ?n" now2] e2(3,5) t1 by auto
  with e1(1) e2(1) show thesis by (rule that)
qed

text \<open>
  C31: The uplink session delivers its catalogue: for at most fifteen commands that the builder
  does not refuse, whatever the clock reads, the session runs through without a failed
  \<open>unwrap\<close>; the first frame is the control command that initialises the receiver; the \<open>i\<close>-th
  data frame, read back by its layout, is a sequence-controlled frame with number \<open>i\<close> for
  spacecraft 42 that carries exactly the packet built from the \<open>i\<close>-th intent; and the engine ends
  active, with nothing outstanding and no retransmission.
\<close>

theorem uplink_session_delivers:
  assumes small: "length catalog \<le> 15" and allowed: "list_all (allowed \<circ> snd) catalog"
    and clock: "length (uc_submits clock) = length catalog" and t1: "0 < t1"
  shows "\<exists>bc sdlps e. uplink_session crc16 t1 now clock catalog (of_nat (length catalog)) = Returned (bc, sdlps, e)
    \<and> tv_bypass (tc_view_of bc) \<and> tv_command (tc_view_of bc) \<and> tv_payload (tc_view_of bc) = [0]
    \<and> length sdlps = length catalog
    \<and> (\<forall>i < length catalog. \<exists>spp. tc_build (snd (catalog ! i)) (SequenceCount (of_nat i)) now = Inr spp
        \<and> tc_view_of (sdlps ! i) = \<lparr>tv_bypass = False, tv_command = False, tv_scid = 42, tv_vc = 0,
             tv_length = length (sdlps ! i), tv_seq = of_nat i, tv_payload = spp,
             tv_fecf = be16 (crc16 (take (length (sdlps ! i) - 2) (sdlps ! i)))\<rparr>)
    \<and> c_state e = Active \<and> c_window e = [] \<and> c_retx e = 0"
proof -
  let ?n = "length catalog" and ?fr = "tc_framer_new 42"
  obtain spps where spps: "build_spps 0 now catalog = Returned spps" "length spps = ?n"
    "\<forall>i < ?n. tc_build (snd (catalog ! i)) (SequenceCount (of_nat i)) now = Inr (spps ! i)
       \<and> length (spps ! i) \<le> 34"
    using build_spps_ok [OF allowed, of 0 now] small by auto
  obtain bcf e0 where init: "cop1_initialize (cop1_new t1) = (bcf, e0)" by fastforce
  then have bcf: "tf_payload bcf = [0]" "tf_type bcf = TypeBc"
    by (auto simp: cop1_initialize_def)
  define fs where "fs = map2 ad_frame (seqs_from 0 ?n) spps"
  obtain e1 e2 e3 where tick1: "cop1_tick e0 (uc_first_tick clock) True (Some (make_clcw False False 0)) = ([], [], e1)"
    and submitted: "submit_all e1 (zip (uc_submits clock) spps) = (fs, e2)"
    and tick2: "cop1_tick e2 (uc_second_tick clock) True (Some (make_clcw False False (of_nat ?n))) = ([], [], e3)"
    and e3: "c_state e3 = Active" "c_window e3 = []" "c_retx e3 = 0"
    unfolding fs_def by (rule fop1_exchange [OF init t1 small [folded spps(2)] clock [folded spps(2)],
          of "uc_first_tick clock" "uc_second_tick clock", unfolded spps(2)])
  obtain bc where bc: "tc_encode_frame crc16 ?fr bcf = Inr bc" "tc_view_of bc = frame_view crc16 ?fr bcf bc"
    using tc_encode_frame_view [of bcf crc16 ?fr] bcf by auto
  have fs: "length fs = ?n" "\<forall>i < ?n. fs ! i = ad_frame (of_nat i) (spps ! i)"
    using spps(2) by (simp_all add: fs_def seqs_from_def)
  then have "\<forall>f \<in> set fs. length (tf_payload f) \<le> 505"
    using spps(3) by (fastforce simp: in_set_conv_nth ad_frame_def)
  then obtain sdlps where sdlps: "encode_all crc16 ?fr fs = Returned sdlps"
    "list_all2 (\<lambda>bs f. tc_view_of bs = frame_view crc16 ?fr f bs) sdlps fs"
    using encode_all_ok by blast
  have "\<forall>i < ?n. tc_view_of (sdlps ! i) = frame_view crc16 ?fr (ad_frame (of_nat i) (spps ! i)) (sdlps ! i)"
    using list_all2_nthD2 [OF sdlps(2)] fs by auto
  moreover have "uplink_session crc16 t1 now clock catalog (of_nat ?n) = Returned (bc, sdlps, e3)"
    using drill_guard_refuses [of "SequenceCount 0" now]
    by (auto simp: uplink_session_def sc_new_0 unwrap_err_def spps(1) init tick1 submitted
        tick2 bc(1) sdlps(1))
  ultimately show ?thesis
    using e3 bc(2) bcf spps(3) list_all2_lengthD [OF sdlps(2)] fs(1)
    by (auto simp: frame_view_def ad_frame_def tc_framer_new_def)
qed

lemma uplink_catalog_allowed: "length uplink_catalog = 6" "list_all (allowed \<circ> snd) uplink_catalog"
  by (simp_all add: uplink_catalog_def allowed_def)

definition example_clock :: uplink_clock where
  "example_clock = \<lparr>uc_first_tick = 1, uc_submits = [2, 3, 4, 5, 6, 7], uc_second_tick = 8\<rparr>"

theorem uplink_session_delivers_witness:
  "\<exists>bc sdlps e. uplink_demo (\<lambda>_. 0) example_clock = Returned (bc, sdlps, e)
      \<and> tv_payload (tc_view_of bc) = [0] \<and> length sdlps = 6 \<and> tv_seq (tc_view_of (sdlps ! 5)) = 5
      \<and> c_state e = Active \<and> c_window e = []"
proof -
  have small_catalog: "length uplink_catalog \<le> 15" by (simp add: uplink_catalog_allowed)
  have nr: "(of_nat (length uplink_catalog) :: u8) = 6" by (simp add: uplink_catalog_allowed)
  have "length (uc_submits example_clock) = length uplink_catalog" "0 < from_secs 30"
    by (simp_all add: example_clock_def uplink_catalog_allowed from_secs_def)
  from uplink_session_delivers [OF small_catalog uplink_catalog_allowed(2) this, of "\<lambda>_. 0" "\<lparr>coarse = 1800000, fine = 0\<rparr>"]
  obtain bc sdlps e where run: "uplink_demo (\<lambda>_. 0) example_clock = Returned (bc, sdlps, e)"
    "tv_payload (tc_view_of bc) = [0]" "length sdlps = 6" "c_state e = Active" "c_window e = []"
    and views: "\<forall>i < 6. \<exists>spp.
        tc_build (snd (uplink_catalog ! i)) (SequenceCount (of_nat i)) \<lparr>coarse = 1800000, fine = 0\<rparr> = Inr spp
      \<and> tc_view_of (sdlps ! i) = \<lparr>tv_bypass = False, tv_command = False, tv_scid = 42, tv_vc = 0,
           tv_length = length (sdlps ! i), tv_seq = of_nat i, tv_payload = spp,
           tv_fecf = be16 0\<rparr>"
    unfolding nr uplink_catalog_allowed(1) by (elim exE conjE, intro that) (simp_all add: uplink_demo_def)
  have "tv_seq (tc_view_of (sdlps ! 5)) = 5"
    using views by (elim allE [of _ 5]) auto
  with run show ?thesis by blast
qed

end
