(* ===== verification/Demo_Mfile.thy ===== *)
theory Demo_Mfile
  imports Mfile
begin

text \<open>
  The reassembly demonstration \<open>rust/ground_station/examples/mfile_reassembly.rs\<close>: the sending
  side of the chunk protocol (\<open>build_chunk\<close>, \<open>make_chunks\<close>) and the five scenarios of \<open>main\<close>.
  The output directory is an argument (\<open>std::env::temp_dir\<close> chooses it), as are the CRC engine and
  the allocator.  What is printed, and creating and removing the directory, is not modelled.  A
  failed \<open>expect\<close>, an index out of range and an overflowing subtraction are panics.
\<close>

section \<open>The sending side\<close>

record chunk_desc =
  cd_tx_id :: u32
  cd_total_size :: u64
  cd_total_chunks :: u32
  cd_file_crc32 :: u32
  cd_chunk_index :: u32
  cd_last_chunk_index :: u32
  cd_payload :: bytes

definition build_chunk :: "(bytes \<Rightarrow> u32) \<Rightarrow> chunk_desc \<Rightarrow> bytes" where
  "build_chunk crc32 d =
     (let chunk_crc = crc32 (cd_payload d);
          chunk_len = (of_nat (length (cd_payload d)) :: u16)
      in be32 (cd_tx_id d) @ be64 (cd_total_size d) @ be32 (cd_total_chunks d)
         @ be32 (cd_file_crc32 d) @ be32 (cd_chunk_index d) @ be16 chunk_len
         @ be32 (cd_last_chunk_index d) @ be32 chunk_crc @ cd_payload d)"

text \<open>\<open>slice::chunks\<close> for a size that is not zero: pieces of that size, the last one shorter.\<close>

function slice_chunks :: "nat \<Rightarrow> 'a list \<Rightarrow> 'a list list" where
  "slice_chunks n xs = (if n = 0 \<or> xs = [] then [] else take n xs # slice_chunks n (drop n xs))"
  by pat_completeness auto
termination by (relation "measure (\<lambda>(n, xs). length xs)") auto

declare slice_chunks.simps [simp del]

definition make_chunks :: "(bytes \<Rightarrow> u32) \<Rightarrow> u32 \<Rightarrow> bytes \<Rightarrow> nat \<Rightarrow> bytes list exec" where
  "make_chunks crc32 tx_id data chunk_size =
     (if chunk_size = 0 then Panicked
      else
        let file_crc32 = crc32 data;
            raw_chunks = slice_chunks chunk_size data;
            total_chunks = (of_nat (length raw_chunks) :: u32)
        in if total_chunks < 1 then Panicked
           else
             let last_chunk_index = total_chunks - 1 in
             Returned (map (\<lambda>(i, chunk).
               build_chunk crc32
                 \<lparr>cd_tx_id = tx_id, cd_total_size = of_nat (length data), cd_total_chunks = total_chunks,
                  cd_file_crc32 = file_crc32, cd_chunk_index = of_nat i,
                  cd_last_chunk_index = last_chunk_index, cd_payload = chunk\<rparr>)
               (enumerate 0 raw_chunks)))"

section \<open>The scenarios\<close>

type_synonym demo_world = "assembler \<times> fs"

text \<open>The delivery loop of the first two scenarios keeps the last outcome it was given.\<close>

fun deliver ::
  "(bytes \<Rightarrow> u32) \<Rightarrow> (nat \<Rightarrow> bool) \<Rightarrow> demo_world \<Rightarrow> bytes list \<Rightarrow> assembly_outcome option
     \<Rightarrow> (assembly_outcome option \<times> demo_world) exec" where
  "deliver crc32 alloc w [] outcome = Returned (outcome, w)"
| "deliver crc32 alloc w (chunk # rest) outcome =
     exec_bind (on_chunk crc32 alloc (fst w) (snd w) chunk) (\<lambda>(r, m, s).
     exec_bind (unwrap r) (\<lambda>result.
     deliver crc32 alloc (m, s) rest (if result \<noteq> None then result else outcome)))"

text \<open>What a scenario reports of a completed file: transaction, byte count, and whether the file reads back.\<close>

definition report_file :: "assembly_outcome option \<Rightarrow> fs \<Rightarrow> bytes \<Rightarrow> (u32 \<times> nat \<times> bool) option exec" where
  "report_file outcome s file =
     (case outcome of
        Some (Complete transaction_id path n) \<Rightarrow>
          exec_bind (unwrap (fs_read s path)) (\<lambda>on_disk.
          Returned (Some (transaction_id, n, on_disk = file)))
      | _ \<Rightarrow> Returned None)"

definition file1 :: bytes where
  "file1 = map (\<lambda>k. of_nat (k mod 256)) [0..<600]"

definition scenario1 ::
  "(bytes \<Rightarrow> u32) \<Rightarrow> (nat \<Rightarrow> bool) \<Rightarrow> demo_world \<Rightarrow> ((u32 \<times> nat \<times> bool) option \<times> demo_world) exec" where
  "scenario1 crc32 alloc w =
     exec_bind (make_chunks crc32 1001 file1 256) (\<lambda>chunks.
     exec_bind (deliver crc32 alloc w chunks None) (\<lambda>(outcome, w).
     exec_bind (report_file outcome (snd w) file1) (\<lambda>report. Returned (report, w))))"

definition batch_line :: bytes where
  "batch_line = map char_byte ''SAKURA-II surface telemetry batch export v2'' @ [0x0A]"

definition file2 :: bytes where
  "file2 = map (\<lambda>k. batch_line ! (k mod length batch_line)) [0..<512]"

text \<open>\<open>[T]::swap\<close>.\<close>

definition vec_swap :: "nat \<Rightarrow> nat \<Rightarrow> 'a list \<Rightarrow> 'a list exec" where
  "vec_swap i j xs =
     (if i < length xs \<and> j < length xs then Returned (xs[i := xs ! j, j := xs ! i]) else Panicked)"

definition scenario2 ::
  "(bytes \<Rightarrow> u32) \<Rightarrow> (nat \<Rightarrow> bool) \<Rightarrow> demo_world \<Rightarrow> ((u32 \<times> nat \<times> bool) option \<times> demo_world) exec" where
  "scenario2 crc32 alloc w =
     exec_bind (make_chunks crc32 1002 file2 200) (\<lambda>chunks.
     exec_bind (vec_swap 0 2 chunks) (\<lambda>chunks.
     exec_bind (deliver crc32 alloc w chunks None) (\<lambda>(outcome, w).
     exec_bind (report_file outcome (snd w) file2) (\<lambda>report. Returned (report, w)))))"

text \<open>\<open>asm.on_chunk(\<dots>).expect(\<dots>)\<close> where the outcome is not used.\<close>

fun feed :: "(bytes \<Rightarrow> u32) \<Rightarrow> (nat \<Rightarrow> bool) \<Rightarrow> demo_world \<Rightarrow> bytes list \<Rightarrow> demo_world exec" where
  "feed crc32 alloc w [] = Returned w"
| "feed crc32 alloc w (chunk # rest) =
     exec_bind (on_chunk crc32 alloc (fst w) (snd w) chunk) (\<lambda>(r, m, s).
     exec_bind (unwrap r) (\<lambda>_. feed crc32 alloc (m, s) rest))"

definition index_exec :: "'a list \<Rightarrow> nat \<Rightarrow> 'a exec" where
  "index_exec xs i = (case get_at xs i of None \<Rightarrow> Panicked | Some x \<Rightarrow> Returned x)"

definition file3 :: bytes where
  "file3 = map char_byte ''duplicate test payload'' @ [0x0A]"

definition scenario3 :: "(bytes \<Rightarrow> u32) \<Rightarrow> (nat \<Rightarrow> bool) \<Rightarrow> demo_world \<Rightarrow> demo_world exec" where
  "scenario3 crc32 alloc w =
     exec_bind (make_chunks crc32 1003 file3 16) (\<lambda>chunks.
     exec_bind (index_exec chunks 0) (\<lambda>c0.
     exec_bind (feed crc32 alloc w [c0, c0]) (\<lambda>w. feed crc32 alloc w (drop 1 chunks))))"

definition file4_a :: bytes where "file4_a = map char_byte ''correct telemetry chunk-A data!!''"
definition file4_b :: bytes where "file4_b = map char_byte ''correct telemetry chunk-B data!!''"
definition file4_bad :: bytes where "file4_bad = map char_byte ''CORRUPTED!!!corrupted!!!CORRUPTED''"

definition chunk4 :: "(bytes \<Rightarrow> u32) \<Rightarrow> u32 \<Rightarrow> bytes \<Rightarrow> bytes" where
  "chunk4 crc32 idx payload =
     (let full = file4_a @ file4_b in
      build_chunk crc32
        \<lparr>cd_tx_id = 1004, cd_total_size = of_nat (length full), cd_total_chunks = 2,
         cd_file_crc32 = crc32 full, cd_chunk_index = idx, cd_last_chunk_index = 1,
         cd_payload = payload\<rparr>)"

definition scenario4 :: "(bytes \<Rightarrow> u32) \<Rightarrow> (nat \<Rightarrow> bool) \<Rightarrow> demo_world \<Rightarrow> demo_world exec" where
  "scenario4 crc32 alloc w =
     feed crc32 alloc w
       [chunk4 crc32 0 file4_a, chunk4 crc32 0 file4_bad, chunk4 crc32 1 file4_b]"

definition file5 :: bytes where "file5 = map char_byte ''science image header block''"

definition scenario5 ::
  "(bytes \<Rightarrow> u32) \<Rightarrow> (nat \<Rightarrow> bool) \<Rightarrow> demo_world \<Rightarrow> (nat \<times> assembly_outcome list \<times> demo_world) exec" where
  "scenario5 crc32 alloc w =
     exec_bind (make_chunks crc32 2001 file5 10) (\<lambda>chunks.
     exec_bind (index_exec chunks 0) (\<lambda>c0.
     exec_bind (feed crc32 alloc w [c0]) (\<lambda>(m, s).
     exec_bind (mfile_poll m s \<lparr>coarse = 25, fine = 0\<rparr>) (\<lambda>(evictions, w).
     Returned (mfile_active_count m, evictions, w)))))"

record mfile_summary =
  ms_report1 :: "(u32 \<times> nat \<times> bool) option"
  ms_report2 :: "(u32 \<times> nat \<times> bool) option"
  ms_active_before :: nat
  ms_evictions :: "assembly_outcome list"
  ms_active_after :: nat
  ms_dup_ok :: u64
  ms_dup_mismatch :: u64

definition mfile_demo :: "(bytes \<Rightarrow> u32) \<Rightarrow> (nat \<Rightarrow> bool) \<Rightarrow> string \<Rightarrow> fs \<Rightarrow> mfile_summary exec" where
  "mfile_demo crc32 alloc dir s =
     exec_bind (scenario1 crc32 alloc (assembler_new (from_secs 2) dir 1, s)) (\<lambda>(report1, w).
     exec_bind (scenario2 crc32 alloc w) (\<lambda>(report2, w).
     exec_bind (scenario3 crc32 alloc w) (\<lambda>w.
     exec_bind (scenario4 crc32 alloc w) (\<lambda>w.
     exec_bind (scenario5 crc32 alloc w) (\<lambda>(before, evictions, m, s).
     Returned \<lparr>ms_report1 = report1, ms_report2 = report2, ms_active_before = before,
       ms_evictions = evictions, ms_active_after = mfile_active_count m,
       ms_dup_ok = mfile_dup_ok_total m, ms_dup_mismatch = mfile_dup_mismatch_total m\<rparr>)))))"

section \<open>The wire format\<close>

definition frame_of :: "chunk_desc \<Rightarrow> chunk_frame" where
  "frame_of d =
     \<lparr>cf_transaction_id = cd_tx_id d, cf_total_size_bytes = cd_total_size d,
      cf_total_chunks = cd_total_chunks d, cf_crc32_full_file = cd_file_crc32 d,
      cf_chunk_index = cd_chunk_index d, cf_payload = cd_payload d\<rparr>"

text \<open>A built chunk parses to what it was built from, up to the size limit.\<close>

lemma build_chunk_parses:
  assumes "length (cd_payload d) < 65536"
  shows "parse_chunk crc32 (build_chunk crc32 d) =
    (if length (cd_payload d) \<le> 1024 then Inr (frame_of d)
     else Inl (ChunkLenExceeded (of_nat (length (cd_payload d)))))"
proof -
  have len: "unat (of_nat (length (cd_payload d)) :: u16) = length (cd_payload d)"
    using assms by (simp add: unat_of_nat)
  show ?thesis
    by (simp add: parse_chunk_def build_chunk_def Let_def mfile_header_len_def read_u32_be_def
        read_u64_be_def read_u16_be_def get_range_def ok_or_def and_then_def len frame_of_def
        mfile_chunk_max_bytes_def)
qed

section \<open>Any order of delivery\<close>

lemma slice_chunks_concat: "0 < n \<Longrightarrow> concat (slice_chunks n xs) = xs"
  by (induction n xs rule: slice_chunks.induct) (subst slice_chunks.simps, simp)

lemma slice_chunks_sizes: "c \<in> set (slice_chunks n xs) \<Longrightarrow> c \<noteq> [] \<and> length c \<le> n"
  by (induction n xs rule: slice_chunks.induct) (subst (asm) (2) slice_chunks.simps, auto split: if_splits)

lemma slice_chunks_count: "0 < n \<Longrightarrow> length (slice_chunks n xs) = (length xs + n - 1) div n"
proof (induction n xs rule: slice_chunks.induct)
  case (1 n xs)
  show ?case
  proof (cases "xs = []")
    case False
    have "length (slice_chunks n xs) = Suc ((length xs - n + n - 1) div n)"
      using 1 False by (subst slice_chunks.simps) simp
    also have "\<dots> = (length xs + n - 1) div n"
    proof (cases "length xs \<le> n")
      case True
      then have "(n - 1) div n = 0" "(length xs + n - 1) div n = Suc 0"
        using 1(2) False by (cases xs; auto intro!: div_nat_eqI)+
      with True show ?thesis by simp
    next
      case False
      then have "length xs + n - 1 = (length xs - n + n - 1) + n" by simp
      then show ?thesis using 1(2) by (metis div_add_self2 Suc_eq_plus1 less_irrefl)
    qed
    finally show ?thesis .
  qed (use 1(2) in \<open>subst slice_chunks.simps, simp\<close>)
qed

definition sent_chunk :: "(bytes \<Rightarrow> u32) \<Rightarrow> u32 \<Rightarrow> bytes \<Rightarrow> nat \<Rightarrow> nat \<Rightarrow> chunk_desc" where
  "sent_chunk crc32 i data sz k =
     (let raw = slice_chunks sz data; n = (of_nat (length raw) :: u32) in
      \<lparr>cd_tx_id = i, cd_total_size = of_nat (length data), cd_total_chunks = n,
       cd_file_crc32 = crc32 data, cd_chunk_index = of_nat k, cd_last_chunk_index = n - 1,
       cd_payload = raw ! k\<rparr>)"

lemma make_chunks_sent:
  assumes "make_chunks crc32 i data sz = Returned sent"
  shows "sent = map (\<lambda>k. build_chunk crc32 (sent_chunk crc32 i data sz k)) [0..<length (slice_chunks sz data)]"
    and "0 < sz" "length sent = length (slice_chunks sz data)"
  using assms
  by (auto simp: make_chunks_def Let_def sent_chunk_def enumerate_eq_zip zip_map2 comp_def
      split: if_splits intro!: nth_equalityI)

lemma deliver_run:
  "mfile_run crc32 alloc m s raws = Returned (map Inr rs, m', s') \<Longrightarrow>
   deliver crc32 alloc (m, s) raws outcome =
     Returned (fold (\<lambda>r outcome. if r \<noteq> None then r else outcome) rs outcome, m', s')"
proof (induction raws arbitrary: m s rs outcome)
  case (Cons raw raws)
  from Cons.prems obtain r m1 s1 rs1 where one: "on_chunk crc32 alloc m s raw = Returned (Inr r, m1, s1)"
    "mfile_run crc32 alloc m1 s1 raws = Returned (map Inr rs1, m', s')" "rs = r # rs1"
    by (auto simp: exec_bind_Returned_iff Cons_eq_map_conv)
  then show ?case using Cons.IH [OF one(2)] by simp
qed simp

text \<open>The frames that the chunks of one file parse to.\<close>

lemma sent_chunk_parses:
  assumes "sz \<le> 1024" "k < length (slice_chunks sz data)"
  shows "parse_chunk crc32 (build_chunk crc32 (sent_chunk crc32 i data sz k)) =
    Inr (frame_of (sent_chunk crc32 i data sz k))"
proof -
  have "length (slice_chunks sz data ! k) \<le> sz"
    using slice_chunks_sizes [OF nth_mem [OF assms(2)]] by simp
  then show ?thesis
    using assms(1) by (simp add: build_chunk_parses sent_chunk_def Let_def)
qed

lemma u32_index_inj: "j < 2 ^ 32 \<Longrightarrow> k < 2 ^ 32 \<Longrightarrow> (of_nat j :: u32) = of_nat k \<longleftrightarrow> j = k"
  by (simp add: word_of_nat_eq_iff take_bit_nat_eq_self)

text \<open>A delivery order is a list of positions in the list of sent chunks.\<close>

lemma delivery_order:
  assumes "set (raws @ [x]) = build ` {..<n}" "x \<notin> set raws" "inj_on build {..<n}"
  obtains ks k where "raws = map build ks" "x = build k" "k < n" "k \<notin> set ks" "set (ks @ [k]) = {..<n}"
proof -
  have "raws @ [x] \<in> lists (build ` {..<n})" using assms(1) by auto
  then obtain js where js: "raws @ [x] = map build js" "set js \<subseteq> {..<n}"
    unfolding lists_image by auto
  then obtain ks k where ks: "js = ks @ [k]" "raws = map build ks" "x = build k"
    by (auto simp: append_eq_map_conv)
  have "build ` set js = build ` {..<n}" using assms(1) js(1) by (metis list.set_map)
  then have "set js = {..<n}" using js(2) assms(3) by (metis inj_on_image_eq_iff order_refl)
  then have "k < n" "set (ks @ [k]) = {..<n}" using ks(1) by auto
  moreover have "k \<notin> set ks" using assms(2) ks(2,3) by auto
  ultimately show thesis using that ks(2,3) by blast
qed

lemma slice_chunks_cover: "0 < n \<Longrightarrow> length xs \<le> n * length (slice_chunks n xs)"
  by (induction n xs rule: slice_chunks.induct) (subst slice_chunks.simps, auto)

abbreviation sent_frame :: "(bytes \<Rightarrow> u32) \<Rightarrow> u32 \<Rightarrow> bytes \<Rightarrow> nat \<Rightarrow> nat \<Rightarrow> chunk_frame" where
  "sent_frame crc32 i data sz k \<equiv> frame_of (sent_chunk crc32 i data sz k)"

lemma sent_frame_fields:
  "cf_chunk_index (sent_frame crc32 i data sz k) = of_nat k"
  "cf_payload (sent_frame crc32 i data sz k) = slice_chunks sz data ! k"
  "cf_transaction_id (sent_frame crc32 i data sz k) = i"
  "cf_total_chunks (sent_frame crc32 i data sz k) = of_nat (length (slice_chunks sz data))"
  "cf_total_size_bytes (sent_frame crc32 i data sz k) = of_nat (length data)"
  "cf_crc32_full_file (sent_frame crc32 i data sz k) = crc32 data"
  by (simp_all add: frame_of_def sent_chunk_def Let_def)

lemma sent_indices: "indices (map (sent_frame crc32 i data sz) ks) = of_nat ` set ks"
  by (simp add: indices_def image_image sent_frame_fields)

lemma small_index: "set ks \<subseteq> {..<n} \<Longrightarrow> n < 2 ^ 32 \<Longrightarrow> l \<in> set ks \<Longrightarrow> l < (2 ^ 32 :: nat)"
  by (meson lessThan_iff less_trans subsetD)

lemma card_sent_indices:
  assumes "set ks \<subseteq> {..<n}" "n < 2 ^ 32"
  shows "card (indices (map (sent_frame crc32 i data sz) ks)) = card (set ks)"
proof -
  have "inj_on (of_nat :: nat \<Rightarrow> u32) (set ks)"
    using small_index [OF assms] by (intro inj_onI) (simp add: u32_index_inj)
  then show ?thesis unfolding sent_indices by (rule card_image)
qed

lemma sent_first_payload:
  assumes "set ks \<subseteq> {..<n}" "n < 2 ^ 32" "j \<in> set ks"
  shows "first_payload (map (sent_frame crc32 i data sz) ks) (of_nat j) = slice_chunks sz data ! j"
proof -
  have "(of_nat l :: u32) = of_nat j \<longleftrightarrow> l = j" if "l \<in> set ks" for l
    using small_index [OF assms(1,2)] assms(3) that by (intro u32_index_inj) simp_all
  then have same: "filter (\<lambda>f. cf_chunk_index f = of_nat j) (map (sent_frame crc32 i data sz) ks)
      = map (sent_frame crc32 i data sz) (filter (\<lambda>l. l = j) ks)"
    unfolding filter_map comp_def sent_frame_fields(1)
    by (intro arg_cong [of _ _ "map _"] filter_cong) simp_all
  have some: "filter (\<lambda>l. l = j) ks \<noteq> []" using assms(3) by (auto simp: filter_empty_conv)
  then have "hd (filter (\<lambda>l. l = j) ks) = j" using hd_in_set [OF some] by simp
  then show ?thesis
    using some by (simp add: first_payload_def same hd_map sent_frame_fields(2))
qed

lemma sent_payloads:
  assumes "set ks = {..<length (slice_chunks sz data)}" "length (slice_chunks sz data) < 2 ^ 32" "0 < sz"
  shows "concat (map (\<lambda>j. first_payload (map (sent_frame crc32 i data sz) ks) (of_nat j))
      [0..<length (slice_chunks sz data)]) = data"
proof -
  let ?raw = "slice_chunks sz data"
  have "map (\<lambda>j. first_payload (map (sent_frame crc32 i data sz) ks) (of_nat j)) [0..<length ?raw] = ?raw"
    using sent_first_payload [OF equalityD1 [OF assms(1)] assms(2)] assms(1) by (intro nth_equalityI) simp_all
  then show ?thesis using slice_chunks_concat [OF assms(3)] by simp
qed

lemma build_sent_inj:
  assumes "sz \<le> 1024" "length (slice_chunks sz data) < 2 ^ 32"
  shows "inj_on (\<lambda>k. build_chunk crc32 (sent_chunk crc32 i data sz k)) {..<length (slice_chunks sz data)}"
proof (rule inj_onI)
  fix j k
  assume jk: "j \<in> {..<length (slice_chunks sz data)}" "k \<in> {..<length (slice_chunks sz data)}"
    "build_chunk crc32 (sent_chunk crc32 i data sz j) = build_chunk crc32 (sent_chunk crc32 i data sz k)"
  have "sent_frame crc32 i data sz j = sent_frame crc32 i data sz k"
    using sent_chunk_parses [OF assms(1), of j data crc32 i] sent_chunk_parses [OF assms(1), of k data crc32 i] jk by simp
  then have "(of_nat j :: u32) = of_nat k" by (metis sent_frame_fields(1))
  then show "j = k" using jk(1,2) assms(2) u32_index_inj [of j k] by simp
qed

text \<open>What a complete delivery holds: the fields of every frame, and all the pieces of the file.\<close>

lemma sent_delivery:
  assumes n: "length (slice_chunks sz data) = n" "n < 2 ^ 32" and sz: "0 < sz" "sz \<le> 1024"
    and ks: "k \<notin> set ks" "set (ks @ [k]) = {..<n}"
    and fs: "fs = map (sent_frame crc32 i data sz) ks" "f = sent_frame crc32 i data sz k" "h = hd (fs @ [f])"
  shows "length data \<le> isize_max" "cf_transaction_id h = i" "unat (cf_total_chunks h) = n"
    and "unat (cf_total_size_bytes h) = length data" "cf_crc32_full_file h = crc32 data"
    and "\<forall>g \<in> set (fs @ [f]). cf_transaction_id g = i \<and> cf_chunk_index g < cf_total_chunks h"
    and "card (indices fs) < n" "card (indices (fs @ [f])) = n"
    and "data = concat (map (\<lambda>j. first_payload (fs @ [f]) (of_nat j)) [0..<n])"
proof -
  have nat_n: "unat (of_nat n :: u32) = n" using n(2) by (simp add: unat_of_nat)
  have "length data \<le> sz * n" using slice_chunks_cover [OF sz(1), of data] n(1) by simp
  also have "\<dots> \<le> 1024 * 2 ^ 32" using n(2) sz(2) by (intro mult_le_mono) simp_all
  finally have bytes: "length data < 2 ^ 63" by simp
  then show "length data \<le> isize_max" by (simp add: isize_max_def)
  from bytes have bytes': "unat (of_nat (length data) :: u64) = length data" by (simp add: unat_of_nat)
  have all: "fs @ [f] = map (sent_frame crc32 i data sz) (ks @ [k])" using fs by simp
  have "h \<in> set (fs @ [f])" unfolding fs(3) by (rule hd_in_set) simp
  then show fields: "cf_transaction_id h = i" "unat (cf_total_chunks h) = n"
      "unat (cf_total_size_bytes h) = length data" "cf_crc32_full_file h = crc32 data"
    unfolding all by (auto simp: sent_frame_fields nat_n n(1) bytes')
  have below: "\<forall>j \<in> set (ks @ [k]). j < n" using ks(2) by blast
  then show "\<forall>g \<in> set (fs @ [f]). cf_transaction_id g = i \<and> cf_chunk_index g < cf_total_chunks h"
    unfolding all using n fields(2) by (auto simp: sent_frame_fields word_less_nat_alt unat_of_nat)
  show "card (indices (fs @ [f])) = n"
    unfolding all using card_sent_indices [OF equalityD1 [OF ks(2)] n(2), of crc32 i data sz] ks(2) by simp
  have "set ks \<subset> {..<n}" using ks by auto
  then show "card (indices fs) < n"
    unfolding fs(1) using card_sent_indices [OF psubset_imp_subset n(2), of ks crc32 i data sz]
      psubset_card_mono [of "{..<n}" "set ks"] by simp
  show "data = concat (map (\<lambda>j. first_payload (fs @ [f]) (of_nat j)) [0..<n])"
    unfolding all using sent_payloads [of "ks @ [k]" sz data crc32 i] ks(2) n sz(1) by simp
qed

text \<open>
  C18: A file sent in chunks arrives whole.  Whatever the order in which the chunks that
  \<open>make_chunks\<close> builds for a file are delivered to a reachable assembler, and however often each of
  them is repeated, delivery reports the completed transaction with the size of the file once the
  last missing chunk is in, the file is on the disk byte for byte, and the transaction is closed.
\<close>

theorem sent_chunks_reassemble:
  assumes reach: "mfile_reach crc32 alloc owlt dir mb (m, s)"
    and sent: "make_chunks crc32 i data sz = Returned sent" "sz \<le> 1024" "length sent < 2 ^ 32"
    and order: "set (raws @ [x]) = set sent" "x \<notin> set raws"
    and new: "map_of (as_active m) i = None" "as_total_ram_bytes m \<le> as_max_ram_bytes m"
    and grant: "alloc (8 * ((length sent + 63) div 64))" "alloc (length data)" "fs_denied s = (\<lambda>_. None)"
    and path: "path = path_join dir (dec_string (unat i) @ ''.bin'')"
  shows "\<exists>m'. deliver crc32 alloc (m, s) (raws @ [x]) None =
      Returned (Some (Complete i path (length data)), m', s\<lparr>fs_files := (fs_files s)(path \<mapsto> data)\<rparr>)
    \<and> map_of (as_active m') i = None"
proof -
  let ?raw = "slice_chunks sz data" and ?b = "\<lambda>k. build_chunk crc32 (sent_chunk crc32 i data sz k)"
  let ?n = "length ?raw" and ?f = "sent_frame crc32 i data sz"
  note sent' = make_chunks_sent [OF sent(1)]
  have n: "?n < 2 ^ 32" using sent(3) sent'(3) by simp
  have "set (raws @ [x]) = ?b ` {..<?n}"
    unfolding order(1) sent'(1) by (simp add: atLeast0LessThan)
  from delivery_order [OF this order(2) build_sent_inj [OF sent(2) n]]
  obtain ks k where ks: "raws = map ?b ks" "x = ?b k" "k < ?n" "k \<notin> set ks" "set (ks @ [k]) = {..<?n}" .
  define fs f h where fs: "fs = map ?f ks" and f: "f = ?f k" and h: "h = hd (fs @ [f])"
  note got = sent_delivery [OF refl n sent'(2) sent(2) ks(4,5) fs f h]
  have "\<forall>j \<in> set (ks @ [k]). j < ?n" using ks(5) by blast
  then have parse: "map (parse_chunk crc32) (raws @ [x]) = map Inr (fs @ [f])"
    by (simp add: ks(1,2) fs f sent_chunk_parses [OF sent(2)])
  have room: "alloc (8 * ((unat (cf_total_chunks h) + 63) div 64))" "alloc (unat (cf_total_size_bytes h))"
      "unat (cf_total_size_bytes h) \<le> isize_max"
    unfolding got(3,4) using grant(1,2) sent'(3) got(1) by simp_all
  have out: "(path, Complete i path (length data)) = (if crc32 data = cf_crc32_full_file h
       then (path_join dir (dec_string (unat i) @ ''.bin''),
             Complete i (path_join dir (dec_string (unat i) @ ''.bin'')) (length data))
       else (path_join dir (dec_string (unat i) @ ''.partial''),
             Incomplete i (path_join dir (dec_string (unat i) @ ''.partial'')) 0))"
    using got(5) path by simp
  from assembles_file [OF reach parse h got(2) [symmetric] refl new room grant(3) got(6)
      got(7,8) [folded got(3)] got(9) [folded got(3)] out]
  obtain m' where m': "mfile_run crc32 alloc m s (raws @ [x]) =
      Returned (replicate (length fs) (Inr None) @ [Inr (Some (Complete i path (length data)))], m',
        s\<lparr>fs_files := (fs_files s)(path \<mapsto> data)\<rparr>)" "map_of (as_active m') i = None"
    by (elim exE conjE)
  have "mfile_run crc32 alloc m s (raws @ [x]) =
      Returned (map Inr (replicate (length fs) None @ [Some (Complete i path (length data))]), m',
        s\<lparr>fs_files := (fs_files s)(path \<mapsto> data)\<rparr>)"
    using m'(1) by (simp add: map_replicate)
  from deliver_run [OF this] m'(2) show ?thesis by auto
qed

lemma example_sent:
  "make_chunks (\<lambda>_. 0) 1 [7, 8] 1 = Returned [example_chunk 0 7, example_chunk 1 8]"
  by code_simp

lemma example_distinct: "example_chunk 0 7 \<noteq> example_chunk 1 8"
  by code_simp

theorem sent_chunks_reassemble_witness:
  "\<exists>m'. deliver (\<lambda>_. 0) (\<lambda>_. True) (assembler_new 0 ''/rx'' 1, empty_disk)
        ([example_chunk 1 8, example_chunk 1 8] @ [example_chunk 0 7]) None =
      Returned (Some (Complete 1 ''/rx/1.bin'' (length [7, 8 :: u8])), m',
        empty_disk\<lparr>fs_files := (fs_files empty_disk)(''/rx/1.bin'' \<mapsto> [7, 8])\<rparr>)
    \<and> map_of (as_active m') 1 = None"
proof -
  have path: "''/rx/1.bin'' = path_join ''/rx'' (dec_string (unat (1 :: u32)) @ ''.bin'')"
    by code_simp
  show ?thesis
    by (rule sent_chunks_reassemble [OF mfile_reach.start [where mb = 1 and owlt = 0] example_sent _ _ _ _ _ _ _ _ _ path])
      (simp_all add: assembler_new_def empty_disk_def example_distinct insert_commute)
qed

section \<open>The scenarios of the demonstration\<close>

definition demo_assembler :: "string \<Rightarrow> u64 \<Rightarrow> u64 \<Rightarrow> assembler" where
  "demo_assembler dir dup mismatch =
     \<lparr>as_owlt_secs = 2, as_output_dir = dir, as_max_ram_bytes = 1048576, as_active = [],
      as_total_ram_bytes = 0, as_dup_ok_total = dup, as_dup_mismatch_total = mismatch\<rparr>"

lemma slice_chunks_more: "0 < n \<Longrightarrow> n < length xs \<Longrightarrow> slice_chunks n xs = take n xs # slice_chunks n (drop n xs)"
  by (subst slice_chunks.simps) auto

lemma slice_chunks_last: "0 < length xs \<Longrightarrow> length xs \<le> n \<Longrightarrow> slice_chunks n xs = [xs]"
  by (subst slice_chunks.simps, subst slice_chunks.simps) (cases xs; auto)

lemmas assemble_eval = on_chunk_def build_chunk_parses frame_of_def upsert_tx_def new_tx_def
  enforce_ram_cap_def store_chunk_def bitset_new_def bitset_is_set_def bitset_set_def bitset_is_full_def
  get_at_def demo_assembler_def sat_mul32_def mfile_timeout_owlt_mult_def mfile_finalize_def
  chunk_data_def remove_tx_def isize_max_def complete_path_def partial_path_def fs_write_def

lemma scenario1_ok:
  assumes "fs_denied s = (\<lambda>_. None)"
  shows "scenario1 crc32 (\<lambda>_. True) (demo_assembler dir a b, s) =
    Returned (Some (1001, 600, True), demo_assembler dir a b,
      s\<lparr>fs_files := (fs_files s)(path_join dir (dec_string 1001 @ ''.bin'') \<mapsto> file1)\<rparr>)"
proof -
  have len: "length file1 = 600" by (simp add: file1_def)
  have cut: "slice_chunks 256 file1 = [take 256 file1, take 256 (drop 256 file1), drop 512 file1]"
    by (simp add: slice_chunks_more slice_chunks_last len)
  have join: "take 256 file1 @ take 256 (drop 256 file1) @ drop 512 file1 = file1"
    using append_take_drop_id [of 256 file1] append_take_drop_id [of 256 "drop 256 file1"] by simp
  show ?thesis
    by (simp add: scenario1_def make_chunks_def cut len Let_def enumerate_eq_zip assemble_eval assms join
        report_file_def fs_read_def upt_rec)
qed

lemma scenario2_ok:
  assumes "fs_denied s = (\<lambda>_. None)"
  shows "scenario2 crc32 (\<lambda>_. True) (demo_assembler dir a b, s) =
    Returned (Some (1002, 512, True), demo_assembler dir a b,
      s\<lparr>fs_files := (fs_files s)(path_join dir (dec_string 1002 @ ''.bin'') \<mapsto> file2)\<rparr>)"
proof -
  have len: "length file2 = 512" by (simp add: file2_def)
  have cut: "slice_chunks 200 file2 = [take 200 file2, take 200 (drop 200 file2), drop 400 file2]"
    by (simp add: slice_chunks_more slice_chunks_last len)
  have join: "take 200 file2 @ take 200 (drop 200 file2) @ drop 400 file2 = file2"
    using append_take_drop_id [of 200 file2] append_take_drop_id [of 200 "drop 200 file2"] by simp
  show ?thesis
    by (simp add: scenario2_def make_chunks_def cut len Let_def enumerate_eq_zip assemble_eval assms join
        report_file_def fs_read_def upt_rec vec_swap_def)
qed

lemma scenario3_ok:
  assumes "fs_denied s = (\<lambda>_. None)"
  shows "scenario3 crc32 (\<lambda>_. True) (demo_assembler dir a b, s) =
    Returned (demo_assembler dir (a + 1) b,
      s\<lparr>fs_files := (fs_files s)(path_join dir (dec_string 1003 @ ''.bin'') \<mapsto> file3)\<rparr>)"
proof -
  have len: "length file3 = 23" by (simp add: file3_def)
  have cut: "slice_chunks 16 file3 = [take 16 file3, drop 16 file3]"
    by (simp add: slice_chunks_more slice_chunks_last len)
  have join: "take 16 file3 @ drop 16 file3 = file3" by (rule append_take_drop_id)
  show ?thesis
    by (simp add: scenario3_def make_chunks_def cut len Let_def enumerate_eq_zip assemble_eval assms join
        upt_rec index_exec_def)
qed

lemma scenario4_ok:
  assumes "fs_denied s = (\<lambda>_. None)"
  shows "scenario4 crc32 (\<lambda>_. True) (demo_assembler dir a b, s) =
    Returned (demo_assembler dir a (b + 1),
      s\<lparr>fs_files := (fs_files s)(path_join dir (dec_string 1004 @ ''.bin'') \<mapsto> file4_a @ file4_b)\<rparr>)"
proof -
  have len: "length file4_a = 32" "length file4_b = 32" "length file4_bad = 33"
    by (simp_all add: file4_a_def file4_b_def file4_bad_def)
  then have differ: "file4_a \<noteq> file4_bad" by auto
  show ?thesis
    by (simp add: scenario4_def chunk4_def len Let_def assemble_eval assms differ)
qed

lemma scenario5_ok:
  assumes "fs_denied s = (\<lambda>_. None)"
  shows "\<exists>w. scenario5 crc32 (\<lambda>_. True) (demo_assembler dir a b, s) =
    Returned (1, [Incomplete 2001 (path_join dir (dec_string 2001 @ ''.partial'')) 2], w)
    \<and> fst w = demo_assembler dir a b"
proof -
  have len: "length file5 = 26" by (simp add: file5_def)
  have cut: "slice_chunks 10 file5 = [take 10 file5, take 10 (drop 10 file5), drop 20 file5]"
    by (simp add: slice_chunks_more slice_chunks_last len)
  show ?thesis
    by (simp add: scenario5_def make_chunks_def cut len Let_def enumerate_eq_zip assemble_eval assms
        upt_rec index_exec_def mfile_poll_def mfile_abandon_def mfile_active_count_def)
qed

text \<open>
  The demonstration, whatever the CRC engine, when memory is granted and files can be written: both
  files read back, in order and in reverse order; one repeated and one conflicting chunk are
  counted; the incomplete transfer is evicted with its two missing chunks.
\<close>

theorem mfile_demo_summary:
  assumes "fs_denied s = (\<lambda>_. None)"
  shows "mfile_demo crc32 (\<lambda>_. True) dir s = Returned
    \<lparr>ms_report1 = Some (1001, 600, True), ms_report2 = Some (1002, 512, True), ms_active_before = 1,
     ms_evictions = [Incomplete 2001 (path_join dir ''2001.partial'') 2], ms_active_after = 0,
     ms_dup_ok = 1, ms_dup_mismatch = 1\<rparr>"
proof -
  have new: "assembler_new (from_secs 2) dir (Suc 0) = demo_assembler dir 0 0"
    by (simp add: assembler_new_def demo_assembler_def as_secs_def from_secs_def)
  have name: "dec_string 2001 @ ''.partial'' = ''2001.partial''" by code_simp
  define s1 where "s1 = s\<lparr>fs_files := (fs_files s)(path_join dir (dec_string 1001 @ ''.bin'') \<mapsto> file1)\<rparr>"
  define s2 where "s2 = s1\<lparr>fs_files := (fs_files s1)(path_join dir (dec_string 1002 @ ''.bin'') \<mapsto> file2)\<rparr>"
  define s3 where "s3 = s2\<lparr>fs_files := (fs_files s2)(path_join dir (dec_string 1003 @ ''.bin'') \<mapsto> file3)\<rparr>"
  define s4 where "s4 = s3\<lparr>fs_files := (fs_files s3)(path_join dir (dec_string 1004 @ ''.bin'') \<mapsto> file4_a @ file4_b)\<rparr>"
  have denied: "fs_denied s1 = (\<lambda>_. None)" "fs_denied s2 = (\<lambda>_. None)" "fs_denied s3 = (\<lambda>_. None)"
      "fs_denied s4 = (\<lambda>_. None)"
    using assms by (simp_all add: s1_def s2_def s3_def s4_def)
  note runs = scenario1_ok [OF assms, of crc32 dir, folded s1_def] scenario2_ok [OF denied(1), of crc32 dir, folded s2_def]
    scenario3_ok [OF denied(2), of crc32 dir, folded s3_def] scenario4_ok [OF denied(3), of crc32 dir, folded s4_def]
  from scenario5_ok [OF denied(4), of crc32 dir 1 1, unfolded name]
  obtain s5 where "scenario5 crc32 (\<lambda>_. True) (demo_assembler dir 1 1, s4) =
    Returned (1, [Incomplete 2001 (path_join dir ''2001.partial'') 2], demo_assembler dir 1 1, s5)"
    by auto
  moreover have fields: "as_active (demo_assembler dir 1 1) = []"
      "as_dup_ok_total (demo_assembler dir 1 1) = 1" "as_dup_mismatch_total (demo_assembler dir 1 1) = 1"
    by (simp_all add: demo_assembler_def)
  ultimately show ?thesis
    by (simp add: mfile_demo_def new runs mfile_active_count_def mfile_dup_ok_total_def
        mfile_dup_mismatch_total_def fields)
qed

end
