(* ===== verification/Demo_Cfdp.thy ===== *)
theory Demo_Cfdp
  imports Cfdp
begin

text \<open>
  The file downlink demonstration \<open>rust/ground_station/examples/cfdp_session.rs\<close>: the sending side
  of the protocol (\<open>cfdp_header\<close>, \<open>metadata_pdu\<close>, \<open>file_data_pdu\<close>, \<open>eof_pdu\<close>, \<open>tx_id\<close>) and the four
  transfers of \<open>main\<close>.  The output directory and the CRC engine are arguments.  What is printed, and
  creating and removing the directory, is not modelled.  A failed \<open>expect\<close> is a panic.
\<close>

section \<open>The sending side\<close>

definition cfdp_header :: "u8 \<Rightarrow> u8 \<Rightarrow> u8 \<Rightarrow> bytes" where
  "cfdp_header pdu_type_bit src seq = [push_bit 4 (pdu_type_bit AND 1), 0, 0, 0, src, seq, 1]"

definition metadata_pdu :: "u8 \<Rightarrow> u8 \<Rightarrow> u32 \<Rightarrow> string \<Rightarrow> bytes" where
  "metadata_pdu src seq file_size dest_name =
     cfdp_header 0 src seq @ [7] @ [0] @ be32 file_size @ [0] @ map char_byte dest_name @ [0]"

definition file_data_pdu :: "u8 \<Rightarrow> u8 \<Rightarrow> u32 \<Rightarrow> bytes \<Rightarrow> bytes" where
  "file_data_pdu src seq offset data = cfdp_header 1 src seq @ be32 offset @ data"

definition eof_pdu :: "u8 \<Rightarrow> u8 \<Rightarrow> u32 \<Rightarrow> u32 \<Rightarrow> bytes" where
  "eof_pdu src seq crc file_size = cfdp_header 0 src seq @ [4] @ [0] @ be32 crc @ be32 file_size"

definition demo_tx_id :: "u8 \<Rightarrow> u8 \<Rightarrow> u64" where
  "demo_tx_id src_entity seq_num = push_bit 32 (ucast src_entity) OR ucast seq_num"

section \<open>The transfers\<close>

type_synonym cfdp_world = "class1_receiver \<times> fs"

text \<open>\<open>rx.on_pdu(\<dots>).expect(\<dots>)\<close> for one PDU after another.\<close>

fun expect_pdus :: "cfdp_world \<Rightarrow> bytes list \<Rightarrow> cfdp_world exec" where
  "expect_pdus w [] = Returned w"
| "expect_pdus w (pdu # pdus) =
     (case on_pdu (fst w) (snd w) pdu of
        (res, w) \<Rightarrow> exec_bind (unwrap res) (\<lambda>_. expect_pdus w pdus))"

datatype transfer_report = Complete_match u64 bool | Complete_bytes u64 | Not_complete string

definition payload1 :: bytes where
  "payload1 = map (\<lambda>i. ucast ((of_nat i :: u16) AND 0xFF)) [0..<1024]"

definition transfer1 :: "(bytes \<Rightarrow> u32) \<Rightarrow> cfdp_world \<Rightarrow> (transfer_report \<times> cfdp_world) exec" where
  "transfer1 crc32 w =
     (let file_size = of_nat (length payload1); crc = crc32 payload1 in
      exec_bind (expect_pdus w
        [metadata_pdu 1 1 file_size ''orbit_dump_001.bin'',
         file_data_pdu 1 1 0 (take 512 payload1),
         file_data_pdu 1 1 512 (drop 512 payload1),
         eof_pdu 1 1 crc file_size]) (\<lambda>(r, s).
      case finalize_transaction crc32 r s (demo_tx_id 1 1) of
        (out, r, s) \<Rightarrow>
          exec_bind (unwrap out) (\<lambda>out.
          case out of
            Completed _ path n \<Rightarrow>
              exec_bind (unwrap (fs_read s path)) (\<lambda>on_disk.
              Returned (Complete_match n (on_disk = payload1), r, s))
          | Abandoned _ reason _ \<Rightarrow> Returned (Not_complete reason, r, s))))"

definition data2 :: bytes where
  "data2 = map char_byte ''orbital parameters block''"

text \<open>The second transfer reports whether the mismatch was found.\<close>

definition transfer2 :: "(bytes \<Rightarrow> u32) \<Rightarrow> cfdp_world \<Rightarrow> (bool \<times> cfdp_world) exec" where
  "transfer2 crc32 w =
     exec_bind (expect_pdus w
       [metadata_pdu 2 1 (of_nat (length data2)) ''orb_params.bin'',
        file_data_pdu 2 1 0 data2,
        eof_pdu 2 1 0xDEADBEEF (of_nat (length data2))]) (\<lambda>(r, s).
     case finalize_transaction crc32 r s (demo_tx_id 2 1) of
       (out, w) \<Rightarrow> Returned (case out of Inl (CrcMismatch _) \<Rightarrow> True | _ \<Rightarrow> False, w))"

definition content3 :: bytes where
  "content3 = map char_byte ''ADCS wheel speed log v1.0'' @ [0x0A]"

definition transfer3 :: "(bytes \<Rightarrow> u32) \<Rightarrow> cfdp_world \<Rightarrow> (transfer_report \<times> cfdp_world) exec" where
  "transfer3 crc32 w =
     exec_bind (expect_pdus w
       [file_data_pdu 3 1 0 content3,
        metadata_pdu 3 1 (of_nat (length content3)) ''wheel_log.bin'',
        eof_pdu 3 1 (crc32 content3) (of_nat (length content3))]) (\<lambda>(r, s).
     case finalize_transaction crc32 r s (demo_tx_id 3 1) of
       (out, w) \<Rightarrow>
         exec_bind (unwrap out) (\<lambda>out.
         Returned (case out of Completed _ _ n \<Rightarrow> Complete_bytes n | Abandoned _ reason _ \<Rightarrow> Not_complete reason, w)))"

definition transfer4 :: "string \<Rightarrow> fs \<Rightarrow> (nat \<times> transaction_outcome list \<times> nat) exec" where
  "transfer4 dir s =
     exec_bind (expect_pdus (class1_new (from_secs 1) dir, s) [metadata_pdu 9 1 256 ''lost.bin'']) (\<lambda>(rx2, s).
     let (outcomes, rx2') = cfdp_poll rx2 \<lparr>coarse = 11, fine = 0\<rparr> in
     Returned (length (active_transactions rx2), outcomes, length (active_transactions rx2')))"

definition cfdp_demo ::
  "(bytes \<Rightarrow> u32) \<Rightarrow> string \<Rightarrow> fs
     \<Rightarrow> (transfer_report \<times> bool \<times> transfer_report \<times> nat \<times> transaction_outcome list \<times> nat) exec" where
  "cfdp_demo crc32 dir s =
     exec_bind (transfer1 crc32 (class1_new (from_secs 5) dir, s)) (\<lambda>(report1, w).
     exec_bind (transfer2 crc32 w) (\<lambda>(mismatch, w).
     exec_bind (transfer3 crc32 w) (\<lambda>(report3, w).
     exec_bind (transfer4 dir (snd w)) (\<lambda>report4.
     Returned (report1, mismatch, report3, report4)))))"

section \<open>What the receiver reads\<close>

lemma header_fields:
  "pdu_fields (cfdp_header b src seq @ d) = Inr (bit b 0, demo_tx_id src seq, d)"
proof -
  have "(push_bit 4 (b AND 1) AND 0x10 \<noteq> 0) = bit b 0"
    by (simp add: u8_eq_iff bit_simps)
  then show ?thesis
    by (simp add: pdu_fields_def cfdp_header_def decode_fixed_header_def get_at_def fixed_hdr_len_def
        pdu_type_file_data_mask_def extract_transaction_id_def get_range_def get_from_def
        cfdp_read_be_u64_def demo_tx_id_def)
qed

lemma nul_position_name:
  "0 \<notin> set bs \<Longrightarrow> nul_position (bs @ 0 # rest) = Some (length bs)"
  by (induction bs) auto

text \<open>A destination name that can be sent: UTF-8 text without a NUL.\<close>

definition sendable :: "string \<Rightarrow> bool" where
  "sendable name \<longleftrightarrow> from_utf8 (map char_byte name) = Some name \<and> CHR 0x00 \<notin> set name"

lemma byte_char_zero: "byte_char 0 = CHR 0x00"
  by code_simp

lemma parse_builders:
  "parse_file_data_pdu (be32 offset @ data) = Inr (unat offset, data)"
  "parse_eof_pdu (4 # 0 # be32 crc @ be32 n) = Inr (0, crc, ucast n)"
  "sendable name \<Longrightarrow> parse_metadata_pdu (7 # 0 # be32 n @ 0 # map char_byte name @ [0]) =
     Inr \<lparr>fm_dest_path = name, fm_file_size = ucast n\<rparr>"
proof -
  show "parse_file_data_pdu (be32 offset @ data) = Inr (unat offset, data)"
    by (simp add: parse_file_data_pdu_def get_range_def get_from_def)
  show "parse_eof_pdu (4 # 0 # be32 crc @ be32 n) = Inr (0, crc, ucast n)"
    by (simp add: parse_eof_pdu_def get_at_def get_range_def)
  assume name: "sendable name"
  then have "0 \<notin> set (map char_byte name)"
    using byte_char_zero by (auto simp: sendable_def) (metis byte_char_inverse)
  from nul_position_name [OF this, of "[]"] show
    "parse_metadata_pdu (7 # 0 # be32 n @ 0 # map char_byte name @ [0]) =
     Inr \<lparr>fm_dest_path = name, fm_file_size = ucast n\<rparr>"
    using name by (simp add: parse_metadata_pdu_def get_range_def get_from_def sendable_def)
qed

lemma file_data_event:
  "event_of (demo_tx_id src seq) (file_data_pdu src seq offset data) = Some (Segment (unat offset) data)"
  by (simp add: event_of_def file_data_pdu_def header_fields parse_builders)

lemma eof_event:
  "event_of (demo_tx_id src seq) (eof_pdu src seq crc n) = Some (EndOfFile (Some crc))"
  by (simp add: event_of_def eof_pdu_def header_fields parse_builders dir_metadata_def dir_eof_def
      cond_no_error_def)

lemma metadata_event:
  "sendable name \<Longrightarrow> event_of (demo_tx_id src seq) (metadata_pdu src seq n name) =
    Some (Metadata \<lparr>fm_dest_path = name, fm_file_size = ucast n\<rparr>)"
  by (simp add: event_of_def metadata_pdu_def header_fields parse_builders dir_metadata_def)

section \<open>Sending a file\<close>

definition sent_pdus :: "(bytes \<Rightarrow> u32) \<Rightarrow> u8 \<Rightarrow> u8 \<Rightarrow> string \<Rightarrow> u32 \<Rightarrow> bytes \<Rightarrow> bytes set" where
  "sent_pdus crc32 src seq name n F =
     {metadata_pdu src seq n name, eof_pdu src seq (crc32 F) n}
     \<union> {file_data_pdu src seq offset data | offset data. segment_of F (unat offset, data)}"

text \<open>
  C16: A file sent by the builders arrives whole.  When the PDUs delivered to a reachable receiver
  with room, in any order and with any repetition, are the Metadata PDU, the EOF PDU with the
  checksum of the file and File Data PDUs of pieces of it, mixed with PDUs that mean nothing to the
  transaction, the first one opening it, and the pieces cover the file, then finalizing the
  transaction that \<open>tx_id\<close> names completes under the sent name and the named path holds exactly the
  file.
\<close>

theorem sent_file_arrives:
  assumes reach: "class1_reach crc32 owlt dir (r, s)"
    and room: "demo_tx_id src seq \<notin> set (active_transactions r)" "length (active_transactions r) < 16"
    and disk: "fs_files s (partial_path_for dir (demo_tx_id src seq)) = None" "fs_denied s = (\<lambda>_. None)"
    and pdus: "\<forall>p \<in> set (p # ps). p \<in> sent_pdus crc32 src seq name n F \<or> event_of (demo_tx_id src seq) p = None"
    and first: "p \<in> sent_pdus crc32 src seq name n F" "p \<noteq> eof_pdu src seq (crc32 F) n"
    and meta: "sendable name" "metadata_pdu src seq n name \<in> set (p # ps)"
    and some: "file_data_pdu src seq off chunk \<in> set (p # ps)"
    and cover: "\<forall>k < length F. \<exists>offset data. file_data_pdu src seq offset data \<in> set (p # ps)
        \<and> unat offset \<le> k \<and> k < unat offset + length data"
  shows "case class1_run r s (p # ps) of (r', s') \<Rightarrow>
    (case finalize_transaction crc32 r' s' (demo_tx_id src seq) of (out, r'', s'') \<Rightarrow>
       (\<exists>written. out = Inr (Completed (demo_tx_id src seq)
          (delivery_path dir (demo_tx_id src seq) (Some \<lparr>fm_dest_path = name, fm_file_size = ucast n\<rparr>)) written))
       \<and> fs_files s'' (delivery_path dir (demo_tx_id src seq)
            (Some \<lparr>fm_dest_path = name, fm_file_size = ucast n\<rparr>)) = Some F)"
proof -
  let ?i = "demo_tx_id src seq" and ?m = "\<lparr>fm_dest_path = name, fm_file_size = ucast n\<rparr>"
  have ev: "x \<in> set (events_of ?i (p # ps)) \<longleftrightarrow> (\<exists>q \<in> set (p # ps). event_of ?i q = Some x)" for x
    unfolding events_of_def List.map_filter_def by force
  have known: "x = Metadata ?m \<or> x = EndOfFile (Some (crc32 F))
      \<or> (\<exists>(offset :: u32) data. x = Segment (unat offset) data \<and> segment_of F (unat offset, data))"
    if "q \<in> sent_pdus crc32 src seq name n F" "event_of ?i q = Some x" for q x
    using that metadata_event [OF meta(1), of src seq n] eof_event [of src seq "crc32 F" n]
    by (auto simp: sent_pdus_def file_data_event)
  have sent: "x = Metadata ?m \<or> x = EndOfFile (Some (crc32 F))
      \<or> (\<exists>(offset :: u32) data. x = Segment (unat offset) data \<and> segment_of F (unat offset, data))"
    if "x \<in> set (events_of ?i (p # ps))" for x
    using that pdus known ev by (metis option.distinct(1))
  have opens: "\<exists>e. event_of ?i p = Some e \<and> (\<forall>c. e \<noteq> EndOfFile c)"
    using first metadata_event [OF meta(1), of src seq n] by (auto simp: sent_pdus_def file_data_event)
  then obtain e where e: "event_of ?i p = Some e" "\<forall>c. e \<noteq> EndOfFile c" by blast
  have m: "Metadata ?m \<in> set (events_of ?i (p # ps))"
    using meta(2) metadata_event [OF meta(1), of src seq n] unfolding ev by blast
  have seg: "Segment (unat off) chunk \<in> set (events_of ?i (p # ps))"
    using some file_data_event unfolding ev by blast
  show ?thesis
  proof (rule delivers_file [OF reach room disk e refl _ _ seg m])
    show "\<forall>k c. Segment k c \<in> set (events_of ?i (p # ps)) \<longrightarrow> segment_of F (k, c)"
      using sent by blast
    show "\<forall>k < length F. \<exists>j c. Segment j c \<in> set (events_of ?i (p # ps)) \<and> j \<le> k \<and> k < j + length c"
      using cover file_data_event unfolding ev by blast
    show "\<forall>x. Metadata x \<in> set (events_of ?i (p # ps)) \<longrightarrow> x = ?m"
      using sent by blast
    show "\<forall>x. EndOfFile x \<in> set (events_of ?i (p # ps)) \<longrightarrow> x = Some (crc32 F)"
      using sent by blast
  qed
qed

section \<open>The demonstration\<close>

lemma example_pdus:
  "file_data_pdu 1 2 0 [7, 8] = example_segment" "metadata_pdu 1 2 2 ''ab'' = example_metadata"
  "eof_pdu 1 2 5 2 = example_eof" "demo_tx_id 1 2 = 0x100000002" "sendable ''ab''"
  by code_simp+

theorem sent_file_arrives_witness:
  "case class1_run (class1_new 0 ''/rx'') example_disk [example_segment, example_eof, example_metadata] of
    (r', s') \<Rightarrow>
    (case finalize_transaction (\<lambda>_. 5) r' s' (demo_tx_id 1 2) of (out, r'', s'') \<Rightarrow>
       (\<exists>written. out = Inr (Completed (demo_tx_id 1 2)
          (delivery_path ''/rx'' (demo_tx_id 1 2) (Some \<lparr>fm_dest_path = ''ab'', fm_file_size = ucast (2 :: u32)\<rparr>)) written))
       \<and> fs_files s'' (delivery_path ''/rx'' (demo_tx_id 1 2)
            (Some \<lparr>fm_dest_path = ''ab'', fm_file_size = ucast (2 :: u32)\<rparr>)) = Some [7, 8])"
proof (rule sent_file_arrives [OF example_start(1) _ _ example_start(3,4), where off = 0 and chunk = "[7, 8]"])
  show "\<forall>k < length [7, 8 :: u8]. \<exists>offset data. file_data_pdu 1 2 offset data
      \<in> set [example_segment, example_eof, example_metadata] \<and> unat offset \<le> k \<and> k < unat offset + length data"
    using example_pdus(1) by (auto intro!: exI [of _ "0 :: u32"] exI [of _ "[7, 8 :: u8]"])
  have seg: "segment_of [7, 8] (unat (0 :: u32), [7, 8])" by (simp add: segment_of_def)
  then have "file_data_pdu 1 2 0 [7, 8] \<in> sent_pdus (\<lambda>_. 5) 1 2 ''ab'' 2 [7, 8]"
    unfolding sent_pdus_def by blast
  then show "example_segment \<in> sent_pdus (\<lambda>_. 5) 1 2 ''ab'' 2 [7, 8]" by (simp only: example_pdus)
  then show "\<forall>p \<in> set [example_segment, example_eof, example_metadata].
      p \<in> sent_pdus (\<lambda>_. 5) 1 2 ''ab'' 2 [7, 8] \<or> event_of (demo_tx_id 1 2) p = None"
    by (auto simp: sent_pdus_def example_pdus)
qed (simp_all add: example_pdus example_start example_segment_def example_eof_def)

lemma demo_names:
  "sendable ''orbit_dump_001.bin''" "sendable ''orb_params.bin''" "sendable ''wheel_log.bin''" "sendable ''lost.bin''"
  by (code_simp)+

lemma on_builders:
  "on_pdu r s (file_data_pdu src seq offset data) = on_file_data r s (demo_tx_id src seq) (be32 offset @ data)"
  "on_pdu r s (eof_pdu src seq crc n) = on_directive r s (demo_tx_id src seq) (4 # 0 # be32 crc @ be32 n)"
  by (simp_all add: on_pdu_def file_data_pdu_def eof_pdu_def header_fields)

lemma on_metadata:
  "sendable name \<Longrightarrow> on_pdu r s (metadata_pdu src seq n name) =
     (case open_transaction r (demo_tx_id src seq) of
        Inl e \<Rightarrow> (Inl e, r, s)
      | Inr r \<Rightarrow>
          (case map_of (c1_active r) (demo_tx_id src seq) of
             None \<Rightarrow> (Inl CapacityExceeded, r, s)
           | Some st \<Rightarrow> (Inr (), set_transaction r (demo_tx_id src seq)
               (st\<lparr>ts_metadata := Some \<lparr>fm_dest_path = name, fm_file_size = ucast n\<rparr>\<rparr>), s)))"
  by (cases "open_transaction r (demo_tx_id src seq)")
    (simp_all add: on_pdu_def metadata_pdu_def header_fields on_directive_def dir_metadata_def
      parse_builders get_at_def)

lemma get_at_0 [simp]: "get_at (b # bs) 0 = Some b"
  by (simp add: get_at_def)

definition demo_receiver :: "string \<Rightarrow> (u64 \<times> transaction_state) list \<Rightarrow> class1_receiver" where
  "demo_receiver dir active =
     \<lparr>c1_owlt = from_secs 5, c1_active = active, c1_output_dir = dir, c1_next_tx_id = 1\<rparr>"

definition no_partials :: "string \<Rightarrow> fs \<Rightarrow> bool" where
  "no_partials dir s \<longleftrightarrow> fs_denied s = (\<lambda>_. None) \<and> (\<forall>i. fs_files s (partial_path_for dir i) = None)"

lemmas downlink_eval = on_builders on_metadata parse_builders demo_names on_file_data_def on_directive_def
  open_transaction_def set_transaction_def new_state_def fs_write_at_def demo_receiver_def
  dir_metadata_def dir_eof_def cond_no_error_def finalize_transaction_def file_crc32_def fs_read_def
  fs_rename_def final_path_def cfdp_max_transactions_def sat_add64_def u64_max_nat_def map_err_def
  is_absolute_def

lemma transfer1_ok:
  assumes "no_partials dir s"
  shows "transfer1 crc32 (demo_receiver dir [], s) = Returned (Complete_match 1024 True, demo_receiver dir [],
      s\<lparr>fs_files := (fs_files s)(path_join dir ''orbit_dump_001.bin'' \<mapsto> payload1)\<rparr>)"
proof -
  have len: "length payload1 = 1024" by (simp add: payload1_def)
  then have some: "payload1 \<noteq> []" by (metis list.size(3) zero_neq_numeral)
  have i: "demo_tx_id 1 1 = 0x100000001" by (simp add: demo_tx_id_def)
  have two: "write_at 512 (drop 512 payload1) (write_at 0 (take 512 payload1) []) = payload1"
    by (simp add: write_at_def len some)
  have keep: "(fs_files s)(partial_path_for dir 0x100000001 := None) = fs_files s"
    using assms by (intro fun_upd_idem) (simp add: no_partials_def)
  show ?thesis
    using assms by (simp add: transfer1_def Let_def len i downlink_eval two no_partials_def some keep)
qed

lemma named_keeps_partials:
  assumes "no_partials dir s" "\<not> is_absolute name" "last name \<noteq> CHR ''l''"
  shows "no_partials dir (s\<lparr>fs_files := (fs_files s)(path_join dir name \<mapsto> F)\<rparr>)"
proof -
  have "partial_path_for dir i \<noteq> path_join dir name" for i
  proof
    assume eq: "partial_path_for dir i = path_join dir name"
    have "\<not> is_absolute (dec_string (unat i) @ ''.partial'')"
      using digits_first [of "unat i" "[]"] by (simp add: is_absolute_def)
    with eq assms(2) have "name = dec_string (unat i) @ ''.partial''"
      by (simp add: partial_path_for_def path_join_inj)
    with assms(3) show False by simp
  qed
  then show ?thesis using assms(1) by (auto simp: no_partials_def)
qed

lemma transfer2_ok:
  assumes "no_partials dir s" "crc32 data2 \<noteq> 0xDEADBEEF"
  shows "transfer2 crc32 (demo_receiver dir [], s) = Returned (True, demo_receiver dir [],
      s\<lparr>fs_files := (fs_files s)(partial_path_for dir 0x200000001 \<mapsto> data2)\<rparr>)"
proof -
  have i: "demo_tx_id 2 1 = 0x200000001" by (simp add: demo_tx_id_def)
  have "write_at 0 data2 [] = data2" by (simp add: write_at_def)
  then show ?thesis
    using assms by (simp add: transfer2_def Let_def i downlink_eval no_partials_def)
qed

lemma transfer3_ok:
  assumes "fs_files s (partial_path_for dir 0x300000001) = None" "fs_denied s = (\<lambda>_. None)"
  shows "\<exists>s'. transfer3 crc32 (demo_receiver dir [], s) = Returned (Complete_bytes 26, demo_receiver dir [], s')
    \<and> fs_files s' (path_join dir ''wheel_log.bin'') = Some content3"
proof -
  have i: "demo_tx_id 3 1 = 0x300000001" by (simp add: demo_tx_id_def)
  have len: "length content3 = 26" by (simp add: content3_def)
  have "write_at 0 content3 [] = content3" by (simp add: write_at_def)
  then show ?thesis
    using assms by (simp add: transfer3_def Let_def i downlink_eval len)
qed

lemma transfer4_ok:
  "transfer4 dir s = Returned (1, [Abandoned 0x900000001 ''timeout after 10s'' 0], 0)"
proof -
  have i: "demo_tx_id 9 1 = 0x900000001" by (simp add: demo_tx_id_def)
  have reason: "dec_string 10 @ ''s'' = ''10s''" by code_simp
  show ?thesis
    by (simp add: transfer4_def class1_new_def i on_metadata demo_names
        open_transaction_def set_transaction_def new_state_def dir_metadata_def cfdp_max_transactions_def
        active_transactions_def cfdp_poll_def timed_out_def timeout_secs_def as_secs_def from_secs_def
        cfdp_timeout_owlt_mult_def u64_max_nat_def timeout_reason_def reason)
qed

theorem cfdp_demo_summary:
  assumes "no_partials dir s" "crc32 data2 \<noteq> 0xDEADBEEF"
  shows "cfdp_demo crc32 dir s = Returned (Complete_match 1024 True, True, Complete_bytes 26,
      1, [Abandoned 0x900000001 ''timeout after 10s'' 0], 0)"
proof -
  define s1 where "s1 = s\<lparr>fs_files := (fs_files s)(path_join dir ''orbit_dump_001.bin'' \<mapsto> payload1)\<rparr>"
  define s2 where "s2 = s1\<lparr>fs_files := (fs_files s1)(partial_path_for dir 0x200000001 \<mapsto> data2)\<rparr>"
  have ok1: "no_partials dir s1"
    unfolding s1_def by (rule named_keeps_partials [OF assms(1)]) (simp_all add: is_absolute_def)
  then have s2: "fs_files s2 (partial_path_for dir 0x300000001) = None" "fs_denied s2 = (\<lambda>_. None)"
    by (simp_all add: s2_def no_partials_def partial_path_inj)
  have new: "class1_new (from_secs 5) dir = demo_receiver dir []"
    by (simp add: class1_new_def demo_receiver_def)
  from transfer3_ok [OF s2, of crc32] obtain s3 where
    "transfer3 crc32 (demo_receiver dir [], s2) = Returned (Complete_bytes 26, demo_receiver dir [], s3)"
    by (elim exE conjE)
  then show ?thesis
    by (simp add: cfdp_demo_def new transfer4_ok transfer1_ok [OF assms(1), of crc32, folded s1_def]
        transfer2_ok [where ?crc32.0 = crc32, OF ok1 assms(2), folded s2_def])
qed

end
