(* ===== verification/Tests_Wire.thy ===== *)
theory Tests_Wire
  imports Ccsds_Packet Text
begin

text \<open>
  The unit tests of \<open>rust/ccsds_wire\<close>, translated one by one and run on the model.  A group of
  tests is a list of pairs: the name of the test function and whether it returns, that is, all its
  assertions hold and no \<open>unwrap\<close> panics.  A buffer that a test hands to an encoder is what the
  encoder leaves in it.
\<close>

section \<open>Running tests\<close>

type_synonym unit_test = "string \<times> bool"

definition all_pass :: "unit_test list \<Rightarrow> bool" where
  "all_pass ts \<longleftrightarrow> list_all snd ts"

text \<open>\<open>r.unwrap()\<close> followed by assertions.\<close>

abbreviation unwrapped :: "'e + 'a \<Rightarrow> ('a \<Rightarrow> bool) \<Rightarrow> bool" where
  "unwrapped r P \<equiv> (case r of Inl _ \<Rightarrow> False | Inr a \<Rightarrow> P a)"

abbreviation unwrapped_err :: "'e + 'a \<Rightarrow> ('e \<Rightarrow> bool) \<Rightarrow> bool" where
  "unwrapped_err r P \<equiv> (case r of Inl e \<Rightarrow> P e | Inr _ \<Rightarrow> False)"

abbreviation returned :: "'a exec \<Rightarrow> ('a \<Rightarrow> bool) \<Rightarrow> bool" where
  "returned e P \<equiv> (case e of Panicked \<Rightarrow> False | Returned a \<Rightarrow> P a)"

lemma all_pass_append: "all_pass (xs @ ys) \<longleftrightarrow> all_pass xs \<and> all_pass ys"
  by (simp add: all_pass_def)

section \<open>Error messages\<close>

definition hex0 :: "nat \<Rightarrow> nat \<Rightarrow> string" where
  "hex0 w n = zero_pad w (hex_string n)"

fun ccsds_error_display :: "ccsds_error \<Rightarrow> string" where
  "ccsds_error_display (BufferTooShort n g) =
     ''buffer too short: need '' @ dec_string n @ '', got '' @ dec_string g"
| "ccsds_error_display (InvalidVersion v) = ''invalid CCSDS version: '' @ dec_string (unat v)"
| "ccsds_error_display (InvalidPField p) =
     ''invalid CUC P-Field: 0x'' @ hex0 2 (unat p) @ '' (expected 0x2F)''"
| "ccsds_error_display (ApidOutOfRange v) = ''APID out of range: 0x'' @ hex0 3 (unat v)"
| "ccsds_error_display (SequenceCountOutOfRange v) =
     ''sequence count out of range: 0x'' @ hex0 4 (unat v)"
| "ccsds_error_display InstanceIdReserved = ''instance id 0 is reserved''"
| "ccsds_error_display (LengthMismatch d a) =
     ''declared data_length '' @ dec_string d @ '' does not match buffer length '' @ dec_string a"
| "ccsds_error_display (SequenceFlagsNotStandalone f) =
     ''sequence flags not standalone (0b11): 0b'' @ zero_pad 2 (map digit_char (digits 2 (unat f)))"
| "ccsds_error_display FuncCodeReserved = ''function code 0x0000 is reserved''"

definition error_tests :: "unit_test list" where
  "error_tests =
     [(''test_display_sequence_count_out_of_range_matches_spec'',
       ccsds_error_display (SequenceCountOutOfRange 0x4000) = ''sequence count out of range: 0x4000''),
      (''test_display_buffer_too_short_includes_need_and_got'',
       ccsds_error_display (BufferTooShort 10 3) = ''buffer too short: need 10, got 3''),
      (''test_eq_holds_for_tuple_and_struct_variants'',
       ApidOutOfRange 0x800 = ApidOutOfRange 0x800 \<and> BufferTooShort 7 0 = BufferTooShort 7 0
       \<and> ApidOutOfRange 0x800 \<noteq> ApidOutOfRange 0x801)]"

section \<open>Newtypes\<close>

definition packet_type_tests :: "unit_test list" where
  "packet_type_tests =
     [(''test_from_bit_zero_maps_to_tm'', from_bit 0 = Tm),
      (''test_from_bit_one_maps_to_tc'', from_bit 1 = Tc),
      (''test_as_bit_tm_is_zero'', as_bit Tm = 0),
      (''test_as_bit_tc_is_one'', as_bit Tc = 1),
      (''test_from_bit_masks_low_bit_for_any_u8'',
       list_all (\<lambda>b. as_bit (from_bit b) = b AND 1) [0, 1, 2, 3, 0x7F, 0x80, 0xFE, 0xFF])]"

definition apid_tests :: "unit_test list" where
  "apid_tests =
     [(''test_new_returns_err_when_apid_exceeds_11_bit_range'',
       apid_new 0x800 = Inl (ApidOutOfRange 0x800)),
      (''test_idle_constant_equals_new_0x7ff'', unwrapped (apid_new 0x7FF) (\<lambda>a. a = apid_idle)),
      (''test_new_returns_ok_when_apid_is_zero'', unwrapped (apid_new 0) (\<lambda>a. apid_get a = 0)),
      (''test_new_returns_ok_when_apid_is_max_boundary'',
       unwrapped (apid_new 0x7FF) (\<lambda>a. apid_get a = 0x7FF)),
      (''test_new_returns_ok_for_mid_range_apid'',
       unwrapped (apid_new 0x123) (\<lambda>a. apid_get a = 0x123)),
      (''test_new_returns_ok_for_one_below_ceiling'',
       unwrapped (apid_new 0x7FE) (\<lambda>a. apid_get a = 0x7FE)),
      (''test_new_returns_err_when_apid_is_u16_max'',
       apid_new 0xFFFF = Inl (ApidOutOfRange 0xFFFF)),
      (''test_idle_get_equals_0x7ff'', apid_get apid_idle = 0x7FF),
      (''test_max_constant_is_0x7ff'', apid_max = 0x7FF),
      (''test_apid_usable_as_map_key'',
       unwrapped (apid_new 0x100) (\<lambda>a.
         let m = [a \<mapsto> ''orbiter tm'', apid_idle \<mapsto> ''idle''] in
         m a = Some ''orbiter tm'' \<and> m apid_idle = Some ''idle''))]"

definition sequence_count_tests :: "unit_test list" where
  "sequence_count_tests =
     [(''test_sequence_count_new_returns_err_when_exceeds_14_bit_range'',
       sc_new 0x4000 = Inl (SequenceCountOutOfRange 0x4000)),
      (''test_sequence_count_new_returns_ok_when_zero'',
       unwrapped (sc_new 0) (\<lambda>s. sc_get s = 0)),
      (''test_sequence_count_new_returns_ok_at_max_boundary'',
       unwrapped (sc_new 0x3FFF) (\<lambda>s. sc_get s = 0x3FFF)),
      (''test_sequence_count_new_returns_ok_one_below_ceiling'',
       unwrapped (sc_new 0x3FFE) (\<lambda>s. sc_get s = 0x3FFE)),
      (''test_sequence_count_new_returns_err_when_u16_max'',
       sc_new 0xFFFF = Inl (SequenceCountOutOfRange 0xFFFF)),
      (''test_sequence_count_max_constant_is_0x3fff'', sc_max = 0x3FFF)]"

definition packet_data_length_tests :: "unit_test list" where
  "packet_data_length_tests =
     [(''test_packet_data_length_new_accepts_zero'', pdl_get (pdl_new 0) = 0),
      (''test_packet_data_length_new_accepts_u16_max'', pdl_get (pdl_new 0xFFFF) = 0xFFFF),
      (''test_packet_data_length_new_roundtrips_mid_range'', pdl_get (pdl_new 0x100) = 0x100),
      (''test_packet_data_length_max_constant_is_u16_max'', pdl_max = 0xFFFF)]"

definition func_code_tests :: "unit_test list" where
  "func_code_tests =
     [(''test_func_code_new_returns_err_when_zero'', fc_new 0 = Inl FuncCodeReserved),
      (''test_func_code_new_returns_ok_when_one'', unwrapped (fc_new 1) (\<lambda>f. fc_get f = 1)),
      (''test_func_code_new_returns_ok_at_u16_max'',
       unwrapped (fc_new 0xFFFF) (\<lambda>f. fc_get f = 0xFFFF)),
      (''test_func_code_new_returns_ok_for_mid_range'',
       unwrapped (fc_new 0x1234) (\<lambda>f. fc_get f = 0x1234)),
      (''test_func_code_error_variant_equals_reserved'',
       unwrapped_err (fc_new 0) (\<lambda>e. e = FuncCodeReserved))]"

definition instance_id_tests :: "unit_test list" where
  "instance_id_tests =
     [(''test_instance_id_new_returns_err_when_zero'', iid_new 0 = Inl InstanceIdReserved),
      (''test_instance_id_new_returns_ok_at_min_boundary'',
       unwrapped (iid_new 1) (\<lambda>i. iid_get i = 1 \<and> iid_min = 1)),
      (''test_instance_id_new_returns_ok_at_max_boundary'',
       unwrapped (iid_new 255) (\<lambda>i. iid_get i = 255 \<and> iid_max = 0xFF)),
      (''test_instance_id_new_returns_ok_for_mid_range'',
       unwrapped (iid_new 128) (\<lambda>i. iid_get i = 128)),
      (''test_instance_id_error_variant_equals_reserved'',
       unwrapped_err (iid_new 0) (\<lambda>e. e = InstanceIdReserved))]"

lemma digit_chars:
  "digit_char 0 = CHR ''0''" "digit_char 1 = CHR ''1''" "digit_char 2 = CHR ''2''" "digit_char 3 = CHR ''3''"
  "digit_char 4 = CHR ''4''" "digit_char 5 = CHR ''5''" "digit_char 6 = CHR ''6''" "digit_char 7 = CHR ''7''"
  "digit_char 8 = CHR ''8''" "digit_char 9 = CHR ''9''" "digit_char 10 = CHR ''A''" "digit_char 11 = CHR ''B''"
  "digit_char 12 = CHR ''C''" "digit_char 13 = CHR ''D''" "digit_char 14 = CHR ''E''" "digit_char 15 = CHR ''F''" "digit_char (Suc 0) = CHR ''1''"
  by code_simp+

lemmas number_simps = hex0_def zero_pad_def dec_string_def hex_string_def digits.simps digit_chars

lemma newtype_tests_pass:
  "all_pass error_tests" "all_pass packet_type_tests" "all_pass apid_tests"
  "all_pass sequence_count_tests" "all_pass packet_data_length_tests"
  "all_pass func_code_tests" "all_pass instance_id_tests"
  by (simp_all add: all_pass_def number_simps error_tests_def packet_type_tests_def from_bit_def
      apid_tests_def apid_new_def apid_idle_def apid_max_def sequence_count_tests_def sc_new_def sc_max_def
      packet_data_length_tests_def pdl_new_def pdl_max_def func_code_tests_def fc_new_def
      instance_id_tests_def iid_new_def iid_min_def iid_max_def)

section \<open>Headers\<close>

definition cuc_tests :: "unit_test list" where
  "cuc_tests =
     [(''test_encode_decode_roundtrip_nonzero'',
       let original = \<lparr>coarse = 0x12345678, fine = 0xAABB\<rparr>; buf = cuc_encode_be original in
       get_at buf 0 = Some 0x2F \<and> get_range buf 1 5 = Some [0x12, 0x34, 0x56, 0x78]
       \<and> get_range buf 5 7 = Some [0xAA, 0xBB] \<and> unwrapped (cuc_decode_be buf) (\<lambda>c. c = original)),
      (''test_roundtrip_all_zero'',
       let original = \<lparr>coarse = 0, fine = 0\<rparr>; buf = cuc_encode_be original in
       buf = [0x2F, 0, 0, 0, 0, 0, 0] \<and> unwrapped (cuc_decode_be buf) (\<lambda>c. c = original)),
      (''test_roundtrip_all_max'',
       let original = \<lparr>coarse = 0xFFFFFFFF, fine = 0xFFFF\<rparr>; buf = cuc_encode_be original in
       buf = [0x2F, 0xFF, 0xFF, 0xFF, 0xFF, 0xFF, 0xFF]
       \<and> unwrapped (cuc_decode_be buf) (\<lambda>c. c = original)),
      (''test_decode_rejects_invalid_pfield'',
       list_all (\<lambda>bad. cuc_decode_be [bad, 0, 0, 0, 0, 0, 0] = Inl (InvalidPField bad))
         [0x00, 0xFF, 0x2E, 0x30]),
      (''test_decode_rejects_short_buffer'',
       list_all (\<lambda>len. cuc_decode_be (replicate len 0x2F) = Inl (BufferTooShort 7 len)) [0..<7]),
      (''test_decode_accepts_buffer_with_trailing_bytes'',
       unwrapped (cuc_decode_be [0x2F, 0, 0, 0, 1, 0, 2, 0xDE, 0xAD, 0xBE, 0xEF])
         (\<lambda>c. c = \<lparr>coarse = 1, fine = 2\<rparr>)),
      (''test_p_field_constant_is_0x2f'', p_field = 0x2F)]"

definition wire :: "u8 \<Rightarrow> u8 \<Rightarrow> u8 \<Rightarrow> u16 \<Rightarrow> u8 \<Rightarrow> u16 \<Rightarrow> u16 \<Rightarrow> bytes" where
  "wire version type_bit sec_hdr ap seq_flags seq_count data_length =
     (let b0 = push_bit 5 (version AND 7) OR push_bit 4 (type_bit AND 1) OR push_bit 3 (sec_hdr AND 1)
               OR (ucast (drop_bit 8 ap) AND 7);
          b1 = ucast (ap AND 0x00FF);
          b2 = push_bit 6 (seq_flags AND 3) OR (ucast (drop_bit 8 seq_count) AND 0x3F);
          b3 = ucast (seq_count AND 0x00FF)
      in [b0, b1, b2, b3] @ be16 data_length)"

definition primary_decode_tests :: "unit_test list" where
  "primary_decode_tests =
     [(''test_primary_decode_returns_err_when_version_is_non_zero'',
       primary_decode (wire 1 0 1 0x100 3 0 0) = Inl (InvalidVersion 3)),
      (''test_primary_decode_returns_err_when_sec_hdr_flag_is_zero'',
       primary_decode (wire 0 0 0 0x100 3 0 0) = Inl (InvalidVersion 0)),
      (''test_primary_decode_returns_err_when_buffer_is_too_short'',
       list_all (\<lambda>len. primary_decode (replicate len 0) = Inl (BufferTooShort primary_len len)) [0..<primary_len]),
      (''test_primary_decode_returns_err_when_sequence_flags_are_not_0b11'',
       list_all (\<lambda>flags. primary_decode (wire 0 0 1 0x100 flags 0x1234 0xABCD) =
           Inl (SequenceFlagsNotStandalone flags)) [0, 1, 2])]"

text \<open>\<open>Apid::new(a).unwrap()\<close> and \<open>SequenceCount::new(s).unwrap()\<close> inside \<open>PrimaryHeader::new\<close>.\<close>

definition new_primary ::
  "u16 \<Rightarrow> packet_type \<Rightarrow> u16 \<Rightarrow> u16 \<Rightarrow> ccsds_error + primary_header" where
  "new_primary ap t s l =
     and_then (apid_new ap) (\<lambda>a. and_then (sc_new s) (\<lambda>sc. Inr (primary_new a t sc (pdl_new l))))"

definition primary_encode_tests :: "unit_test list" where
  "primary_encode_tests =
     [(''test_primary_encode_decode_roundtrip_tm_min_bounds'',
       unwrapped (new_primary 0 Tm 0 0) (\<lambda>original.
         primary_encode original = [8, 0, 0xC0, 0, 0, 0]
         \<and> unwrapped (primary_decode (primary_encode original)) (\<lambda>h. h = original))),
      (''test_primary_encode_decode_roundtrip_tc_max_bounds'',
       unwrapped (new_primary 0x7FF Tc sc_max 0xFFFF) (\<lambda>original.
         unwrapped (primary_decode (primary_encode original)) (\<lambda>h.
           h = original \<and> ph_apid h = apid_idle \<and> ph_type h = Tc \<and> sc_get (ph_seq h) = 0x3FFF
           \<and> pdl_get (ph_len h) = 0xFFFF))),
      (''test_primary_encode_decode_roundtrip_apid_idle'',
       unwrapped (sc_new 0) (\<lambda>s.
         unwrapped (primary_decode (primary_encode (primary_new apid_idle Tm s (pdl_new 0))))
           (\<lambda>h. ph_apid h = apid_idle))),
      (''test_primary_encode_bytes_match_be_layout'',
       unwrapped (new_primary 0x123 Tm 0x2A5F 0x1234) (\<lambda>h.
         primary_encode h = [0x09, 0x23, 0xEA, 0x5F, 0x12, 0x34])),
      (''test_primary_decode_preserves_type_bit'',
       unwrapped (primary_decode (wire 0 0 1 0x100 3 0 0)) (\<lambda>h. ph_type h = Tm)
       \<and> unwrapped (primary_decode (wire 0 1 1 0x180 3 0 0)) (\<lambda>h. ph_type h = Tc)),
      (''test_primary_len_const_is_six'', primary_len = 6)]"

definition new_secondary :: "u32 \<Rightarrow> u16 \<Rightarrow> u16 \<Rightarrow> u8 \<Rightarrow> ccsds_error + secondary_header" where
  "new_secondary c f fc i =
     and_then (fc_new fc) (\<lambda>func. and_then (iid_new i) (\<lambda>inst.
       Inr (secondary_new \<lparr>coarse = c, fine = f\<rparr> func inst)))"

definition secondary_tests :: "unit_test list" where
  "secondary_tests =
     [(''test_secondary_roundtrip_minimum_bounds_preserves_all_fields'',
       unwrapped (new_secondary 0 0 2 1) (\<lambda>original. let buf = secondary_encode original in
         get_at buf 0 = Some 0x2F \<and> get_range buf 7 9 = Some [0, 2] \<and> get_at buf 9 = Some 1
         \<and> unwrapped (secondary_decode buf) (\<lambda>h. h = original \<and> \<not> time_suspect h))),
      (''test_secondary_roundtrip_maximum_bounds_preserves_all_fields'',
       unwrapped (new_secondary 0xFFFFFFFF 0xFFFF 0xFFFF 0xFF) (\<lambda>original.
         unwrapped (secondary_decode (secondary_encode original)) (\<lambda>h.
           h = original \<and> coarse (sh_time h) = 0xFFFFFFFF \<and> fine (sh_time h) = 0xFFFF
           \<and> fc_get (sh_func h) = 0xFFFF \<and> iid_get (sh_inst h) = 0xFF \<and> time_suspect h))),
      (''test_secondary_time_suspect_true_when_func_code_bit0_set'',
       unwrapped (new_secondary 0 0 1 1) time_suspect),
      (''test_secondary_time_suspect_false_when_func_code_bit0_clear'',
       unwrapped (new_secondary 0 0 2 1) (\<lambda>h. \<not> time_suspect h)),
      (''test_secondary_decode_returns_err_when_buffer_is_too_short'',
       list_all (\<lambda>len. secondary_decode (replicate len 0x2F) = Inl (BufferTooShort secondary_len len))
         [0..<secondary_len])]"

definition secondary_layout_tests :: "unit_test list" where
  "secondary_layout_tests =
     [(''test_secondary_decode_propagates_invalid_pfield_from_cuc'',
       list_all (\<lambda>bad. secondary_decode [bad, 0, 0, 0, 0, 0, 0, 0, 1, 1] = Inl (InvalidPField bad))
         [0x00, 0x1F, 0x2E, 0x30, 0xFF]),
      (''test_secondary_decode_returns_err_when_func_code_is_zero'',
       secondary_decode [0x2F, 0, 0, 0, 0, 0, 0, 0, 0, 1] = Inl FuncCodeReserved),
      (''test_secondary_decode_returns_err_when_instance_id_is_zero'',
       secondary_decode [0x2F, 0, 0, 0, 0, 0, 0, 0, 1, 0] = Inl InstanceIdReserved),
      (''test_secondary_encode_bytes_match_be_layout'',
       unwrapped (new_secondary 0x12345678 0xAABB 0xC0DE 0x42) (\<lambda>h.
         secondary_encode h = [0x2F, 0x12, 0x34, 0x56, 0x78, 0xAA, 0xBB, 0xC0, 0xDE, 0x42])),
      (''test_secondary_len_const_is_ten'', secondary_len = 10),
      (''test_secondary_accessors_return_constructor_inputs'',
       unwrapped (fc_new 0x1234) (\<lambda>fc. unwrapped (iid_new 0x77) (\<lambda>i.
         let t = \<lparr>coarse = 0xDEADBEEF, fine = 0xCAFE\<rparr>; h = secondary_new t fc i in
         sh_time h = t \<and> sh_func h = fc \<and> sh_inst h = i))),
      (''test_secondary_time_suspect_sweeps_low_bit_patterns'',
       list_all (\<lambda>(fc, expected). unwrapped (new_secondary 0 0 fc 1) (\<lambda>h. time_suspect h = expected))
         [(0x0001, True), (0x0002, False), (0x00FF, True), (0xFFFE, False), (0xFFFF, True), (0x8000, False)])]"

lemma header_tests_pass:
  "all_pass cuc_tests" "all_pass primary_decode_tests" "all_pass primary_encode_tests"
  "all_pass secondary_tests" "all_pass secondary_layout_tests"
  by code_simp+

section \<open>Packets\<close>

definition make_packet_with_dl :: "packet_type \<Rightarrow> u16 \<Rightarrow> bytes \<Rightarrow> ccsds_error + bytes" where
  "make_packet_with_dl t dl payload =
     and_then (new_primary 0x100 t 0 dl) (\<lambda>p. and_then (new_secondary 0 0 1 1) (\<lambda>s.
       Inr (primary_encode p @ secondary_encode s @ payload)))"

definition make_packet :: "packet_type \<Rightarrow> bytes \<Rightarrow> ccsds_error + bytes" where
  "make_packet t payload =
     (let raw_dl = of_nat (secondary_len + length payload - 1) in
      and_then (new_primary 0x100 t 0 raw_dl) (\<lambda>p. and_then (new_secondary 0 0 1 1) (\<lambda>s.
        Inr (primary_encode p @ secondary_encode s @ payload))))"

definition packet_tests :: "unit_test list" where
  "packet_tests =
     [(''test_parse_buf_too_short'',
       list_all (\<lambda>len. sp_parse (replicate len 0) = Inl (BufferTooShort header_len len)) [0..<header_len]),
      (''test_parse_length_mismatch_actual_too_long'',
       unwrapped (make_packet Tm []) (\<lambda>buf. length buf = 16
         \<and> sp_parse (buf @ replicate 8 0) = Inl (LengthMismatch 16 24))),
      (''test_parse_length_mismatch_actual_too_short'',
       unwrapped (make_packet_with_dl Tm 17 []) (\<lambda>buf. length buf = 16
         \<and> sp_parse buf = Inl (LengthMismatch 24 16))),
      (''test_parse_propagates_primary_header_error'',
       unwrapped (make_packet Tm []) (\<lambda>buf.
         case sp_parse (buf[0 := (buf ! 0 AND 0x1F) OR 0x20]) of
           Inl (InvalidVersion _) \<Rightarrow> True | _ \<Rightarrow> False)),
      (''test_parse_propagates_secondary_header_error'',
       unwrapped (make_packet Tm []) (\<lambda>buf. sp_parse (buf[6 := 0]) = Inl (InvalidPField 0))),
      (''test_parse_valid_24_byte_tm_packet'',
       let payload = [1, 2, 3, 4, 5, 6, 7, 8] in
       unwrapped (make_packet Tm payload) (\<lambda>buf. unwrapped (sp_parse buf) (\<lambda>k.
         sp_user_data k = payload \<and> total_len k = 24 \<and> ph_type (sp_primary k) = Tm
         \<and> unwrapped (apid_new 0x100) (\<lambda>a. ph_apid (sp_primary k) = a)
         \<and> unwrapped (fc_new 1) (\<lambda>f. sh_func (sp_secondary k) = f)
         \<and> unwrapped (iid_new 1) (\<lambda>i. sh_inst (sp_secondary k) = i)))),
      (''test_parse_valid_empty_user_data'',
       unwrapped (make_packet Tm []) (\<lambda>buf. length buf = 16
         \<and> unwrapped (sp_parse buf) (\<lambda>k. sp_user_data k = [] \<and> total_len k = 16))),
      (''test_header_len_constant_is_sixteen'', header_len = 16)]"

text \<open>The helpers \<open>apid()\<close>, \<open>fc()\<close> and \<open>id()\<close> of the builder's tests.\<close>

definition fixtures :: "ccsds_error + apid \<times> func_code \<times> instance_id" where
  "fixtures =
     and_then (apid_new 0x100) (\<lambda>a. and_then (fc_new 0x42) (\<lambda>f. and_then (iid_new 3) (\<lambda>i. Inr (a, f, i))))"

definition built :: "packet_builder \<Rightarrow> ccsds_error + bytes \<times> space_packet" where
  "built b = and_then (builder_build b) (\<lambda>bs. and_then (sp_parse bs) (\<lambda>k. Inr (bs, k)))"

definition builder_tests :: "unit_test list" where
  "builder_tests =
     [(''test_builder_tm_roundtrip'',
       unwrapped fixtures (\<lambda>(a, f, i).
         let c = \<lparr>coarse = 1000000, fine = 500\<rparr>; payload = [0xDE, 0xAD, 0xBE, 0xEF] in
         unwrapped (built (with_user_data payload (with_cuc c (with_instance_id i (with_func_code f (builder_tm a))))))
           (\<lambda>(bs, k). ph_apid (sp_primary k) = a \<and> ph_type (sp_primary k) = Tm \<and> sh_func (sp_secondary k) = f
             \<and> sh_inst (sp_secondary k) = i \<and> sh_time (sp_secondary k) = c \<and> sp_user_data k = payload
             \<and> total_len k = length bs))),
      (''test_builder_tc_type_bit'',
       unwrapped (apid_new 0x184) (\<lambda>a. unwrapped (fc_new 0x8100) (\<lambda>f. unwrapped (iid_new 1) (\<lambda>i.
         unwrapped (built (with_instance_id i (with_func_code f (builder_tc a))))
           (\<lambda>(bs, k). ph_type (sp_primary k) = Tc \<and> ph_apid (sp_primary k) = a))))),
      (''test_builder_sequence_count_preserved'',
       unwrapped (sc_new 0x1234) (\<lambda>s. unwrapped fixtures (\<lambda>(a, f, i).
         unwrapped (built (with_sequence_count s (with_instance_id i (with_func_code f (builder_tm a)))))
           (\<lambda>(bs, k). ph_seq (sp_primary k) = s)))),
      (''test_builder_default_empty_payload'',
       unwrapped fixtures (\<lambda>(a, f, i). unwrapped (built (with_instance_id i (with_func_code f (builder_tm a))))
         (\<lambda>(bs, k). length bs = 16 \<and> sp_user_data k = []))),
      (''test_builder_missing_func_code'',
       unwrapped fixtures (\<lambda>(a, f, i). builder_build (with_instance_id i (builder_tm a)) = Inl FuncCodeReserved)),
      (''test_builder_missing_instance_id'',
       unwrapped fixtures (\<lambda>(a, f, i). builder_build (with_func_code f (builder_tm a)) = Inl InstanceIdReserved))]"

definition builder_overflow_test :: "unit_test" where
  "builder_overflow_test =
     (''test_builder_data_length_overflow'',
      unwrapped fixtures (\<lambda>(a, f, i).
        case builder_build (with_user_data (replicate (65535 - 8) 0)
               (with_instance_id i (with_func_code f (builder_tm a)))) of
          Inl (LengthMismatch _ _) \<Rightarrow> True | _ \<Rightarrow> False))"

section \<open>Known answers\<close>

text \<open>
  \<open>tests/known_answers.rs\<close>: a packet of the catalogue is parsed, compared field by field with what
  the catalogue says, and built again.
\<close>

definition known_answer ::
  "bytes \<Rightarrow> (apid \<Rightarrow> packet_builder) \<Rightarrow> packet_type \<Rightarrow> u16 \<Rightarrow> u16 \<Rightarrow> cuc \<Rightarrow> u16 \<Rightarrow> u8 \<Rightarrow> bytes \<Rightarrow> bool" where
  "known_answer wire_bytes ctor t ap s c fc iid payload =
     unwrapped (sp_parse wire_bytes) (\<lambda>k.
     unwrapped (apid_new ap) (\<lambda>a. unwrapped (sc_new s) (\<lambda>sq. unwrapped (fc_new fc) (\<lambda>f. unwrapped (iid_new iid) (\<lambda>i.
       ph_apid (sp_primary k) = a \<and> ph_type (sp_primary k) = t \<and> ph_seq (sp_primary k) = sq
       \<and> sh_time (sp_secondary k) = c \<and> sh_func (sp_secondary k) = f \<and> sh_inst (sp_secondary k) = i
       \<and> sp_user_data k = payload
       \<and> unwrapped (builder_build (with_user_data payload (with_cuc c (with_instance_id i (with_func_code f
            (with_sequence_count sq (ctor a))))))) (\<lambda>rebuilt. rebuilt = wire_bytes))))))"

definition known_answer_tests :: "unit_test list" where
  "known_answer_tests =
     [(''kat_pkt_tm_0100_0002'',
       known_answer
         [0x09, 0x00, 0xC0, 0x42, 0x00, 0x13, 0x2F, 0x12, 0x34, 0x56, 0x78, 0x9A, 0xBC, 0x00, 0x02, 0x01,
          1, 2, 3, 4, 5, 6, 7, 8, 9, 10]
         builder_tm Tm 0x100 0x42 \<lparr>coarse = 0x12345678, fine = 0x9ABC\<rparr> 2 1 [1, 2, 3, 4, 5, 6, 7, 8, 9, 10]),
      (''kat_pkt_tm_0101_0002'',
       known_answer
         ([0x09, 0x01, 0xC0, 0x00, 0x00, 0x19, 0x2F, 0, 0, 0, 0, 0, 0, 0x00, 0x02, 0x03] @ replicate 16 0)
         builder_tm Tm 0x101 0 \<lparr>coarse = 0, fine = 0\<rparr> 2 3 (replicate 16 0)),
      (''kat_pkt_tm_0110_0002'',
       known_answer
         ([0x09, 0x10, 0xC0, 0x07, 0x00, 0x35, 0x2F, 0xDE, 0xAD, 0xBE, 0xEF, 0xCA, 0xFE, 0x00, 0x02, 0x02]
            @ map of_nat [0..<44])
         builder_tm Tm 0x110 7 \<lparr>coarse = 0xDEADBEEF, fine = 0xCAFE\<rparr> 2 2 (map of_nat [0..<44]))]"

definition known_answer_more_tests :: "unit_test list" where
  "known_answer_more_tests =
     [(''kat_pkt_tm_0400_0004'',
       known_answer
         [0x0C, 0x00, 0xC0, 0x00, 0x00, 0x11, 0x2F, 0, 0, 0, 0x64, 0, 0, 0x00, 0x04, 0x01,
          0x00, 0x96, 0x01, 0xF4, 0x80, 0x01, 0x00, 0x00]
         builder_tm Tm 0x400 0 \<lparr>coarse = 100, fine = 0\<rparr> 4 1 [0x00, 0x96, 0x01, 0xF4, 0x80, 0x01, 0x00, 0x00]),
      (''kat_pkt_tc_0184_8100'',
       known_answer
         [0x19, 0x84, 0xC0, 0x00, 0x00, 0x0D, 0x2F, 0x00, 0x00, 0x07, 0xE0, 0x40, 0x00, 0x81, 0x00, 0x04,
          0x03, 0x01, 0xC0, 0xDE]
         builder_tc Tc 0x184 0 \<lparr>coarse = 0x7E0, fine = 0x4000\<rparr> 0x8100 4 [0x03, 0x01, 0xC0, 0xDE])]"

lemmas builder_simps = with_user_data_def with_cuc_def with_instance_id_def with_func_code_def
  with_sequence_count_def builder_tm_def builder_tc_def builder_new_def

lemmas image_simps = builder_packet_def packet_image_def primary_encode_def primary_new_def
  secondary_new_def secondary_encode_def cuc_encode_be_def p_field_def be16_def be32_def

lemmas newtype_simps = apid_new_def apid_max_def sc_new_def sc_max_def fc_new_def iid_new_def

lemma built_packet:
  assumes "builder_ok b" "pb_func b = Some f" "pb_inst b = Some i" "length (pb_data b) \<le> 65526"
  shows "built b = Inr (packet_image (builder_packet b f i), builder_packet b f i)"
proof -
  have "builder_build b = Inr (packet_image (builder_packet b f i))"
    using assms by (simp add: builder_build_eq)
  moreover have "sp_parse (packet_image (builder_packet b f i)) = Inr (builder_packet b f i)"
    using builder_packet_ok [OF assms(1-3)] assms(4) by (intro sp_parse_image) simp
  ultimately show ?thesis by (simp add: built_def)
qed

lemma known_answerI:
  assumes "ctor (Apid ap) = builder_new (Apid ap) t"
    and "b = with_user_data payload (with_cuc c (with_instance_id (InstanceId iid) (with_func_code (FuncCode fc)
           (with_sequence_count (SequenceCount s) (builder_new (Apid ap) t)))))"
    and "wire_bytes = packet_image (builder_packet b (FuncCode fc) (InstanceId iid))"
    and "ap \<le> 0x7FF" "s \<le> 0x3FFF" "fc \<noteq> 0" "iid \<noteq> 0" "length payload \<le> 65526"
  shows "known_answer wire_bytes ctor t ap s c fc iid payload"
proof -
  have ok: "builder_ok b"
    using assms by (simp add: builder_simps builder_ok_def apid_ok_def apid_max_def sc_ok_def sc_max_def
        fc_ok_def iid_ok_def)
  then have "builder_build b = Inr wire_bytes" "sp_parse wire_bytes = Inr (builder_packet b (FuncCode fc) (InstanceId iid))"
    using assms by (auto simp: builder_build_eq builder_simps intro!: sp_parse_image builder_packet_ok)
  then show ?thesis
    using assms by (simp add: known_answer_def newtype_simps builder_simps builder_packet_def primary_new_def not_less
        secondary_new_def)
qed

lemma packet_tests_pass: "all_pass packet_tests"
  by code_simp

lemma builder_tests_pass: "all_pass builder_tests"
  by (simp add: all_pass_def builder_tests_def fixtures_def newtype_simps builder_simps built_packet
      builder_ok_def apid_ok_def sc_ok_def fc_ok_def iid_ok_def builder_packet_def primary_new_def
      secondary_new_def total_len_def length_packet_image builder_build_eq)

lemma known_answer_tests_pass: "all_pass known_answer_tests"
  by (simp only: all_pass_def known_answer_tests_def list.pred_inject snd_conv simp_thms)
    (intro conjI; (rule known_answerI [OF _ refl], code_simp, code_simp, simp_all))

lemma known_answer_more_tests_pass: "all_pass known_answer_more_tests"
  by (simp only: all_pass_def known_answer_more_tests_def list.pred_inject snd_conv simp_thms)
    (intro conjI; (rule known_answerI [OF _ refl], code_simp, code_simp, simp_all))

lemma builder_overflow_passes: "all_pass [builder_overflow_test]"
  by (simp add: all_pass_def builder_overflow_test_def fixtures_def apid_new_def apid_max_def fc_new_def
      iid_new_def builder_build_def with_user_data_def with_instance_id_def with_func_code_def builder_tm_def
      builder_new_def sc_new_def sc_max_def secondary_len_def Let_def)

section \<open>Properties\<close>

text \<open>
  The model of \<open>ccsds_wire\<close> passes the tests of the crate: every unit test of its modules and
  every known answer of the packet catalogue, with the bytes of the catalogue reproduced bit for bit.
\<close>

theorem ccsds_wire_tests_pass:
  "all_pass (error_tests @ packet_type_tests @ apid_tests @ sequence_count_tests @ packet_data_length_tests
     @ func_code_tests @ instance_id_tests @ cuc_tests @ primary_decode_tests @ primary_encode_tests
     @ secondary_tests @ secondary_layout_tests @ packet_tests @ builder_tests @ [builder_overflow_test] @ known_answer_tests @ known_answer_more_tests)"
  unfolding all_pass_append
  by (intro conjI newtype_tests_pass header_tests_pass packet_tests_pass builder_tests_pass
      builder_overflow_passes known_answer_tests_pass known_answer_more_tests_pass)

end
