(* ===== verification/Tests_Props.thy ===== *)
theory Tests_Props
  imports Tests_Wire
begin

text \<open>
  The property-based tests of \<open>rust/ccsds_wire\<close> (\<open>tests/proptests.rs\<close>).  A property is a
  bool-valued function of the values that the test draws; the test runs it on samples, and the
  theorem at the end proves it for every value in the range the test draws from.
\<close>

section \<open>The properties\<close>

definition prop_cuc_roundtrip :: "u32 \<Rightarrow> u16 \<Rightarrow> bool" where
  "prop_cuc_roundtrip c f =
     (let original = \<lparr>coarse = c, fine = f\<rparr>; buf = cuc_encode_be original in
      buf ! 0 = p_field \<and> unwrapped (cuc_decode_be buf) (\<lambda>decoded. decoded = original))"

definition prop_primary_header_roundtrip :: "u16 \<Rightarrow> u8 \<Rightarrow> u16 \<Rightarrow> u16 \<Rightarrow> bool" where
  "prop_primary_header_roundtrip apid pt sq data_len =
     unwrapped (apid_new apid) (\<lambda>a. unwrapped (sc_new sq) (\<lambda>s.
       let original = primary_new a (from_bit pt) s (pdl_new data_len) in
       unwrapped (primary_decode (primary_encode original)) (\<lambda>decoded. decoded = original)))"

definition prop_secondary_header_roundtrip :: "u32 \<Rightarrow> u16 \<Rightarrow> u16 \<Rightarrow> u8 \<Rightarrow> bool" where
  "prop_secondary_header_roundtrip c f func_code instance_id =
     unwrapped (fc_new func_code) (\<lambda>fc. unwrapped (iid_new instance_id) (\<lambda>i.
       let original = secondary_new \<lparr>coarse = c, fine = f\<rparr> fc i in
       unwrapped (secondary_decode (secondary_encode original)) (\<lambda>decoded. decoded = original)))"

definition prop_space_packet_roundtrip ::
  "u16 \<Rightarrow> u8 \<Rightarrow> u16 \<Rightarrow> u16 \<Rightarrow> u8 \<Rightarrow> u32 \<Rightarrow> u16 \<Rightarrow> bytes \<Rightarrow> bool" where
  "prop_space_packet_roundtrip apid pt sq func_code instance_id c f user_data =
     unwrapped (apid_new apid) (\<lambda>a. unwrapped (sc_new sq) (\<lambda>s.
     unwrapped (fc_new func_code) (\<lambda>fc. unwrapped (iid_new instance_id) (\<lambda>i.
       let t = \<lparr>coarse = c, fine = f\<rparr>;
           builder = (if pt = 0 then builder_tm a else builder_tc a) in
       unwrapped (builder_build (with_user_data user_data (with_cuc t (with_instance_id i
         (with_func_code fc (with_sequence_count s builder)))))) (\<lambda>bs.
       unwrapped (sp_parse bs) (\<lambda>pkt.
         ph_apid (sp_primary pkt) = a \<and> ph_type (sp_primary pkt) = from_bit pt
         \<and> ph_seq (sp_primary pkt) = s \<and> sh_func (sp_secondary pkt) = fc
         \<and> sh_inst (sp_secondary pkt) = i \<and> sh_time (sp_secondary pkt) = t
         \<and> sp_user_data pkt = user_data))))))"

definition prop_rejects_short_buffer :: "nat \<Rightarrow> bool" where
  "prop_rejects_short_buffer truncated_len \<longleftrightarrow>
     sp_parse (replicate truncated_len 0) = Inl (BufferTooShort header_len truncated_len)"

definition prop_rejects_invalid_version :: "u16 \<Rightarrow> u8 \<Rightarrow> u16 \<Rightarrow> u16 \<Rightarrow> u8 \<Rightarrow> bool" where
  "prop_rejects_invalid_version apid pt sq data_len version_bits =
     unwrapped (apid_new apid) (\<lambda>a. unwrapped (sc_new sq) (\<lambda>s.
       let buf = primary_encode (primary_new a (from_bit pt) s (pdl_new data_len));
           buf = buf[0 := (buf ! 0 AND 0x1F) OR push_bit 5 version_bits] in
       unwrapped_err (primary_decode buf) (\<lambda>e. case e of InvalidVersion _ \<Rightarrow> True | _ \<Rightarrow> False)))"

definition prop_rejects_invalid_pfield :: "u16 \<Rightarrow> u16 \<Rightarrow> u8 \<Rightarrow> u8 \<Rightarrow> bool" where
  "prop_rejects_invalid_pfield apid func_code instance_id bad_pfield =
     unwrapped (apid_new apid) (\<lambda>a. unwrapped (fc_new func_code) (\<lambda>fc.
     unwrapped (iid_new instance_id) (\<lambda>i.
       unwrapped (builder_build (with_instance_id i (with_func_code fc (builder_tm a)))) (\<lambda>bs.
         unwrapped_err (sp_parse (bs[6 := bad_pfield]))
           (\<lambda>e. case e of InvalidPField _ \<Rightarrow> True | _ \<Rightarrow> False)))))"

section \<open>They hold\<close>

lemma drawn_in_range:
  "v \<le> 0x7FF \<Longrightarrow> apid_new v = Inr (Apid v) \<and> apid_ok (Apid v)"
  "n \<le> 0x3FFF \<Longrightarrow> sc_new n = Inr (SequenceCount n) \<and> sc_ok (SequenceCount n)"
  "1 \<le> w \<Longrightarrow> fc_new w = Inr (FuncCode w) \<and> fc_ok (FuncCode w)"
  "1 \<le> x \<Longrightarrow> iid_new x = Inr (InstanceId x) \<and> iid_ok (InstanceId x)"
  by (auto simp: newtype_simps apid_ok_def sc_ok_def fc_ok_def iid_ok_def)

lemma cuc_roundtrip_holds: "prop_cuc_roundtrip c f"
  using cuc_codec.dec_append [of "\<lparr>coarse = c, fine = f\<rparr>" "[]"]
  by (simp add: prop_cuc_roundtrip_def Let_def cuc_encode_be_def)

lemma primary_roundtrip_holds:
  "apid \<le> 0x7FF \<Longrightarrow> sq \<le> 0x3FFF \<Longrightarrow> prop_primary_header_roundtrip apid pt sq data_len"
  using primary_codec.dec_append [of "primary_new (Apid apid) (from_bit pt) (SequenceCount sq) (pdl_new data_len)" "[]"]
  by (simp add: prop_primary_header_roundtrip_def Let_def drawn_in_range primary_ok_def primary_new_def)

lemma secondary_roundtrip_holds:
  "1 \<le> fc \<Longrightarrow> 1 \<le> i \<Longrightarrow> prop_secondary_header_roundtrip c f fc i"
  using secondary_codec.dec_append [of "secondary_new \<lparr>coarse = c, fine = f\<rparr> (FuncCode fc) (InstanceId i)" "[]"]
  by (simp add: prop_secondary_header_roundtrip_def Let_def drawn_in_range secondary_ok_def secondary_new_def)

lemma packet_roundtrip_holds:
  assumes "apid \<le> 0x7FF" "pt \<le> 1" "sq \<le> 0x3FFF" "1 \<le> fc" "1 \<le> i" "length user_data \<le> 65526"
  shows "prop_space_packet_roundtrip apid pt sq fc i c f user_data"
proof -
  define b where "b = with_user_data user_data (with_cuc \<lparr>coarse = c, fine = f\<rparr>
    (with_instance_id (InstanceId i) (with_func_code (FuncCode fc) (with_sequence_count (SequenceCount sq)
      (if pt = 0 then builder_tm (Apid apid) else builder_tc (Apid apid))))))"
  have pt: "pt = 0 \<or> pt = 1"
    using assms(2) by (simp add: word_le_nat_alt word_unat_eq_iff [of pt] le_Suc_eq)
  have ok: "builder_ok b" and fields: "pb_func b = Some (FuncCode fc)" "pb_inst b = Some (InstanceId i)"
      "pb_seq b = Some (SequenceCount sq)" "pb_apid b = Apid apid" "pb_type b = from_bit pt"
      "pb_cuc b = \<lparr>coarse = c, fine = f\<rparr>" "pb_data b = user_data"
    using assms pt by (auto simp: b_def builder_simps builder_ok_def drawn_in_range from_bit_def)
  have "builder_build b = Inr (packet_image (builder_packet b (FuncCode fc) (InstanceId i)))"
    using assms fields by (simp add: builder_build_eq)
  moreover have "sp_parse (packet_image (builder_packet b (FuncCode fc) (InstanceId i)))
      = Inr (builder_packet b (FuncCode fc) (InstanceId i))"
    using builder_packet_ok [OF ok fields(1,2)] assms fields by (intro sp_parse_image) simp
  ultimately show ?thesis
    using assms fields
    by (simp add: prop_space_packet_roundtrip_def Let_def drawn_in_range flip: b_def)
      (simp add: builder_packet_def primary_new_def secondary_new_def)
qed

lemma short_buffer_holds: "n < header_len \<Longrightarrow> prop_rejects_short_buffer n"
  by (simp add: prop_rejects_short_buffer_def sp_parse_def)

lemma version_bits_set:
  fixes v b :: u8
  assumes "1 \<le> v" "v \<le> 7"
  shows "(drop_bit 4 ((b AND 0x1F) OR push_bit 5 v) AND 0b1110) OR (drop_bit 3 ((b AND 0x1F) OR push_bit 5 v) AND 0b0001) \<noteq> 1"
proof -
  have "unat v \<in> {1, 2, 3, 4, 5, 6, 7}"
    using assms by (simp add: word_le_nat_alt) arith
  then have "v \<in> {1, 2, 3, 4, 5, 6, 7}"
    by (simp add: word_unat_eq_iff)
  then show ?thesis
    unfolding top4_iff by (auto simp: bit_simps)
qed

lemma invalid_version_holds:
  assumes "apid \<le> 0x7FF" "sq \<le> 0x3FFF" "1 \<le> v" "v \<le> 7"
  shows "prop_rejects_invalid_version apid pt sq data_len v"
proof -
  define h where "h = primary_new (Apid apid) (from_bit pt) (SequenceCount sq) (pdl_new data_len)"
  obtain b0 b1 b2 b3 b4 b5 where h: "primary_encode h = [b0, b1, b2, b3, b4, b5]"
    using primary_codec.enc_length [of h] by (auto simp: numeral_eq_Suc length_Suc_conv)
  show ?thesis
    using assms version_bits_set [OF assms(3,4), of b0] h
    by (simp add: prop_rejects_invalid_version_def Let_def drawn_in_range primary_decode_cons flip: h_def)
qed

lemma invalid_pfield_holds:
  assumes "apid \<le> 0x7FF" "1 \<le> fc" "1 \<le> i" "bad \<noteq> p_field"
  shows "prop_rejects_invalid_pfield apid fc i bad"
proof -
  define b where "b = with_instance_id (InstanceId i) (with_func_code (FuncCode fc) (builder_tm (Apid apid)))"
  define k where "k = builder_packet b (FuncCode fc) (InstanceId i)"
  have built: "builder_build b = Inr (packet_image k)" and ok: "primary_ok (sp_primary k)"
    using assms by (simp_all add: b_def k_def builder_simps builder_build_eq builder_packet_def primary_new_def
        primary_ok_def drawn_in_range)
  obtain c0 c1 c2 c3 f0 f1 where c: "cuc_encode_be (sh_time (sp_secondary k)) = [p_field, c0, c1, c2, c3, f0, f1]"
    by (rule cuc_encode_shape)
  have "secondary_encode (sp_secondary k) =
      p_field # [c0, c1, c2, c3, f0, f1] @ be16 fc @ [i]"
    by (simp add: secondary_encode_def c) (simp add: k_def builder_packet_def secondary_new_def)
  then have "(packet_image k)[6 := bad] = primary_encode (sp_primary k) @ bad # [c0, c1, c2, c3, f0, f1] @ be16 fc @ [i]"
    by (simp add: packet_image_def list_update_append primary_codec.enc_length k_def builder_packet_def b_def builder_simps)
  moreover have "secondary_decode (bad # [c0, c1, c2, c3, f0, f1] @ be16 fc @ [i]) = Inl (InvalidPField bad)"
    by (rule be16_cases [of fc]) (simp add: secondary_decode_cons cuc_decode_cons assms)
  ultimately have "sp_parse ((packet_image k)[6 := bad]) = Inl (InvalidPField bad)"
    by (simp add: sp_parse_def primary_codec.dec_append [OF ok] primary_codec.enc_length primary_len_def)
  then show ?thesis
    using assms built by (simp add: prop_rejects_invalid_pfield_def drawn_in_range flip: b_def)
qed

section \<open>Properties\<close>

text \<open>
  The properties of \<open>tests/proptests.rs\<close> hold for every value of the ranges that the tests draw
  from: the round trips of the codecs, and the rejection of short buffers, of wrong version bits and
  of a wrong P-Field.
\<close>

theorem ccsds_wire_properties_hold:
  assumes "apid \<le> 0x7FF" "pt \<le> 1" "sq \<le> 0x3FFF" "1 \<le> fc" "1 \<le> i" "length user_data \<le> 256"
    and "n < header_len" "1 \<le> v" "v \<le> 7" "bad \<noteq> 0x2F"
  shows "prop_cuc_roundtrip c f \<and> prop_primary_header_roundtrip apid pt sq data_len
    \<and> prop_secondary_header_roundtrip c f fc i \<and> prop_space_packet_roundtrip apid pt sq fc i c f user_data
    \<and> prop_rejects_short_buffer n \<and> prop_rejects_invalid_version apid pt sq data_len v
    \<and> prop_rejects_invalid_pfield apid fc i bad"
  using assms
  by (intro conjI cuc_roundtrip_holds primary_roundtrip_holds secondary_roundtrip_holds packet_roundtrip_holds
      short_buffer_holds invalid_version_holds invalid_pfield_holds) (simp_all add: p_field_def)

end
