(* ===== verification/Tests_Bindings.thy ===== *)
theory Tests_Bindings
  imports Cfs_Bindings Tests_Wire
begin

text \<open>The unit tests of \<open>rust/cfs_bindings\<close> (\<open>message.rs\<close> and \<open>convert.rs\<close>), run on the model.\<close>

section \<open>Messages\<close>

definition message_packet :: "bool \<Rightarrow> u16 \<Rightarrow> ccsds_error + bytes" where
  "message_packet is_cmd apid_raw =
     and_then (apid_new apid_raw) (\<lambda>a. and_then (fc_new 1) (\<lambda>f. and_then (iid_new 1) (\<lambda>i.
       if is_cmd then builder_build (with_instance_id i (with_func_code f (builder_tc a)))
       else builder_build (with_instance_id i (with_func_code f (builder_tm a))))))"

definition msg_id_tests :: "unit_test list" where
  "msg_id_tests =
     [(''test_msgid_from_apid_tc_encodes_0x1800_prefix'',
       unwrapped (apid_new 0x100) (\<lambda>a. let mid = mid_from_apid a True in
         mid_raw mid = 0x1900 \<and> mid_is_command mid)),
      (''test_msgid_from_apid_tm_encodes_0x0800_prefix'',
       unwrapped (apid_new 0x100) (\<lambda>a. let mid = mid_from_apid a False in
         mid_raw mid = 0x0900 \<and> \<not> mid_is_command mid)),
      (''test_msgid_apid_roundtrips'',
       unwrapped (apid_new 0x100) (\<lambda>a. unwrapped (mid_apid (mid_from_apid a False)) (\<lambda>a'. a' = a))),
      (''test_msgid_from_apid_max_apid'',
       let mid = mid_from_apid apid_idle True in
       mid_raw mid = 0x1FFF \<and> unwrapped (mid_apid mid) (\<lambda>a. a = apid_idle)),
      (''test_msgid_from_apid_zero_apid_tm'',
       unwrapped (apid_new 0) (\<lambda>a. mid_raw (mid_from_apid a False) = 0x0800))]"

definition message_tests :: "unit_test list" where
  "message_tests =
     [(''test_message_from_bytes_accepts_valid_tm_packet'',
       unwrapped (message_packet False 0x42) (\<lambda>raw. unwrapped (message_from_bytes raw) (\<lambda>msg. msg_bytes msg = raw))),
      (''test_message_msg_id_is_command_for_tc_packet'',
       unwrapped (message_packet True 0x42) (\<lambda>raw. unwrapped (message_from_bytes raw) (\<lambda>msg.
         unwrapped (message_msg_id msg) mid_is_command))),
      (''test_message_msg_id_is_not_command_for_tm_packet'',
       unwrapped (message_packet False 0x42) (\<lambda>raw. unwrapped (message_from_bytes raw) (\<lambda>msg.
         unwrapped (message_msg_id msg) (\<lambda>mid. \<not> mid_is_command mid)))),
      (''test_message_from_bytes_rejects_too_short'',
       message_from_bytes (replicate 8 0) = Inl (BufferTooShort 16 8)),
      (''test_message_from_bytes_rejects_length_mismatch'',
       unwrapped (message_packet False 0x42) (\<lambda>raw.
         case message_from_bytes (raw @ [0xFF]) of Inl (LengthMismatch _ _) \<Rightarrow> True | _ \<Rightarrow> False)),
      (''test_message_as_space_packet_returns_correct_apid'',
       unwrapped (message_packet False 0x42) (\<lambda>raw. unwrapped (message_from_bytes raw) (\<lambda>msg.
         unwrapped (message_as_space_packet msg) (\<lambda>k. unwrapped (apid_new 0x42) (\<lambda>a. ph_apid (sp_primary k) = a)))))]"

definition sb_buffer_tests :: "unit_test list" where
  "sb_buffer_tests =
     [(''test_sb_buffer_from_bytes_accepts_exactly_header_len'', is_ok (sb_from_bytes (replicate header_len 0))),
      (''test_sb_buffer_from_bytes_rejects_too_short'', sb_from_bytes (replicate 15 0) = Inl (BufferTooShort 16 15)),
      (''test_sb_buffer_into_message_succeeds_for_valid_packet'',
       unwrapped (message_packet False 1) (\<lambda>raw. unwrapped (sb_from_bytes raw) (\<lambda>buf.
         unwrapped (sb_into_message buf) (\<lambda>msg. msg_bytes msg = raw)))),
      (''test_sb_buffer_into_message_fails_for_invalid_header'',
       unwrapped (message_packet False 1) (\<lambda>raw. unwrapped (sb_from_bytes (raw[0 := raw ! 0 OR 0xE0])) (\<lambda>buf.
         case sb_into_message buf of Inl (InvalidVersion _) \<Rightarrow> True | _ \<Rightarrow> False))),
      (''test_sb_buffer_as_bytes_matches_input'',
       unwrapped (message_packet True 0x10) (\<lambda>raw. unwrapped (sb_from_bytes raw) (\<lambda>buf. sbb_bytes buf = raw)))]"

section \<open>Conversions\<close>

definition convert_tm :: "u16 \<Rightarrow> u16 \<Rightarrow> cuc \<Rightarrow> u16 \<Rightarrow> u8 \<Rightarrow> bytes \<Rightarrow> ccsds_error + bytes" where
  "convert_tm ap seq c fc iid payload =
     and_then (apid_new ap) (\<lambda>a. and_then (sc_new seq) (\<lambda>s. and_then (fc_new fc) (\<lambda>f. and_then (iid_new iid) (\<lambda>i.
       builder_build (with_user_data payload (with_instance_id i (with_func_code f
         (with_cuc c (with_sequence_count s (builder_tm a)))))))))) "

definition convert_tc :: "u16 \<Rightarrow> u16 \<Rightarrow> u8 \<Rightarrow> ccsds_error + bytes" where
  "convert_tc ap fc iid =
     and_then (apid_new ap) (\<lambda>a. and_then (fc_new fc) (\<lambda>f. and_then (iid_new iid) (\<lambda>i.
       builder_build (with_instance_id i (with_func_code f (builder_tc a))))))"

definition to_c_message_tests :: "unit_test list" where
  "to_c_message_tests =
     [(''test_to_c_message_accepts_valid_tm_buffer'',
       unwrapped (convert_tm 0x100 1 \<lparr>coarse = 0, fine = 0\<rparr> 0x42 1 [0xDE, 0xAD, 0xBE, 0xEF]) (\<lambda>buf.
         unwrapped (to_c_message buf) (\<lambda>msg. msg_bytes msg = buf))),
      (''test_to_c_message_rejects_too_short'', to_c_message (replicate 8 0) = Inl (BufferTooShort 16 8)),
      (''test_to_c_message_rejects_length_mismatch'',
       unwrapped (convert_tm 0x100 1 \<lparr>coarse = 0, fine = 0\<rparr> 0x42 1 [0xAA]) (\<lambda>buf.
         case to_c_message (buf @ [0xFF]) of Inl (LengthMismatch _ _) \<Rightarrow> True | _ \<Rightarrow> False))]"

text \<open>\<open>Message::from_bytes(orig).unwrap()\<close>, \<open>from_c_message(&msg).unwrap()\<close>, \<open>SpacePacket::parse(&bytes).unwrap()\<close>.\<close>

definition converted :: "ccsds_error + bytes \<Rightarrow> ccsds_error + bytes \<times> space_packet" where
  "converted orig =
     and_then orig (\<lambda>orig. and_then (message_from_bytes orig) (\<lambda>msg. and_then (from_c_message msg) (\<lambda>bytes.
       and_then (sp_parse bytes) (\<lambda>k. Inr (bytes, k)))))"

definition from_c_message_tests :: "unit_test list" where
  "from_c_message_tests =
     [(''test_from_c_message_tm_round_trip'',
       let c = \<lparr>coarse = 42, fine = 7\<rparr>; payload = [0xDE, 0xAD, 0xBE, 0xEF] in
       unwrapped (converted (convert_tm 0x100 0x10 c 0x42 3 payload)) (\<lambda>(bytes, k).
         apid_new 0x100 = Inr (ph_apid (sp_primary k)) \<and> ph_type (sp_primary k) = Tm
         \<and> sc_new 0x10 = Inr (ph_seq (sp_primary k)) \<and> fc_new 0x42 = Inr (sh_func (sp_secondary k))
         \<and> iid_new 3 = Inr (sh_inst (sp_secondary k)) \<and> sh_time (sp_secondary k) = c \<and> sp_user_data k = payload)),
      (''test_from_c_message_tc_round_trip'',
       unwrapped (converted (convert_tc 0x184 0x8100 1)) (\<lambda>(bytes, k).
         ph_type (sp_primary k) = Tc \<and> apid_new 0x184 = Inr (ph_apid (sp_primary k))
         \<and> fc_new 0x8100 = Inr (sh_func (sp_secondary k)) \<and> iid_new 1 = Inr (sh_inst (sp_secondary k)))),
      (''test_from_c_message_empty_user_data'',
       unwrapped (converted (convert_tm 0x100 0 \<lparr>coarse = 0, fine = 0\<rparr> 1 1 [])) (\<lambda>(bytes, k).
         length bytes = 16 \<and> sp_user_data k = [])),
      (''test_round_trip_bytes_are_identical'',
       unwrapped (convert_tm 0x101 0x20 \<lparr>coarse = 1000000, fine = 500\<rparr> 3 2 [1, 2, 3]) (\<lambda>orig.
         unwrapped (message_from_bytes orig) (\<lambda>msg. unwrapped (from_c_message msg) (\<lambda>bytes.
           unwrapped (to_c_message bytes) (\<lambda>msg2. msg_bytes msg2 = orig)))))]"

section \<open>The tests pass\<close>

lemma message_packets:
  "message_packet False 0x42 = Inr [0x08, 0x42, 0xC0, 0, 0, 9, 0x2F, 0, 0, 0, 0, 0, 0, 0, 1, 1]"
  "message_packet True 0x42 = Inr [0x18, 0x42, 0xC0, 0, 0, 9, 0x2F, 0, 0, 0, 0, 0, 0, 0, 1, 1]"
  "message_packet False 1 = Inr [0x08, 0x01, 0xC0, 0, 0, 9, 0x2F, 0, 0, 0, 0, 0, 0, 0, 1, 1]"
  "message_packet True 0x10 = Inr [0x18, 0x10, 0xC0, 0, 0, 9, 0x2F, 0, 0, 0, 0, 0, 0, 0, 1, 1]"
  by (simp_all add: message_packet_def newtype_simps builder_simps builder_build_eq image_simps)

lemma message_tests_pass:
  "all_pass msg_id_tests" "all_pass message_tests" "all_pass sb_buffer_tests"
  unfolding message_tests_def sb_buffer_tests_def message_packets by code_simp+

lemma convert_bytes:
  "convert_tm 0x100 1 \<lparr>coarse = 0, fine = 0\<rparr> 0x42 1 [0xDE, 0xAD, 0xBE, 0xEF] =
     Inr [0x09, 0, 0xC0, 1, 0, 13, 0x2F, 0, 0, 0, 0, 0, 0, 0, 0x42, 1, 0xDE, 0xAD, 0xBE, 0xEF]"
  "convert_tm 0x100 1 \<lparr>coarse = 0, fine = 0\<rparr> 0x42 1 [0xAA] =
     Inr [0x09, 0, 0xC0, 1, 0, 10, 0x2F, 0, 0, 0, 0, 0, 0, 0, 0x42, 1, 0xAA]"
  by (simp_all add: convert_tm_def newtype_simps builder_simps builder_build_eq image_simps)

lemma to_c_message_tests_pass: "all_pass to_c_message_tests"
  unfolding to_c_message_tests_def convert_bytes by code_simp

lemma converted_built:
  assumes "built b = Inr (bs, k)"
  shows "converted (builder_build b) = Inr (bs, k)"
  using assms
  by (auto simp: built_def and_then_Inr_iff converted_def message_from_bytes_def from_c_message_ok)

lemma built_round_trip:
  assumes "built b = Inr (bs, k)"
  shows "unwrapped (builder_build b) (\<lambda>orig. unwrapped (message_from_bytes orig) (\<lambda>msg.
    unwrapped (from_c_message msg) (\<lambda>bytes. unwrapped (to_c_message bytes) (\<lambda>msg2. msg_bytes msg2 = orig))))"
  using assms
  by (auto simp: built_def and_then_Inr_iff message_from_bytes_def from_c_message_ok to_c_message_def)

lemma from_c_message_tests_pass: "all_pass from_c_message_tests"
  by (simp add: all_pass_def from_c_message_tests_def convert_tm_def convert_tc_def newtype_simps
      converted_built built_round_trip built_packet builder_simps builder_ok_def apid_ok_def sc_ok_def fc_ok_def iid_ok_def
      builder_packet_def primary_new_def secondary_new_def length_packet_image)

section \<open>Properties\<close>

text \<open>
  The model of \<open>cfs_bindings\<close> passes the unit tests of its message wrappers and conversions.
\<close>

theorem cfs_bindings_tests_pass:
  "all_pass (msg_id_tests @ message_tests @ sb_buffer_tests @ to_c_message_tests @ from_c_message_tests)"
  unfolding all_pass_append
  by (intro conjI message_tests_pass to_c_message_tests_pass from_c_message_tests_pass)

end
