(* ===== verification/Tests_Ingest.thy ===== *)
theory Tests_Ingest
  imports Ingest_Router Ingest_Demux Ingest_Decoder Tests_Wire
begin

text \<open>
  The unit tests of \<open>ingest/router.rs\<close>, \<open>ingest/demux.rs\<close> and \<open>ingest/decoder.rs\<close>, run on the model.
  A test that feeds a stage through a channel and closes it is a run over the frames it sent.
  Clock readings, which the tests leave to the machine, are arguments: the tests pass for any.
\<close>

section \<open>Router\<close>

text \<open>\<open>make_pkt_bytes\<close> followed by \<open>SpacePacket::parse(&bytes).unwrap()\<close>.\<close>

definition tm_packet :: "u16 \<Rightarrow> bytes \<Rightarrow> ccsds_error + bytes \<times> space_packet" where
  "tm_packet apid_raw payload =
     and_then (apid_new apid_raw) (\<lambda>a. and_then (fc_new 1) (\<lambda>f. and_then (iid_new 1) (\<lambda>i.
       built (with_user_data payload (with_instance_id i (with_func_code f (builder_tm a)))))))"

definition make_pkt :: "u16 \<Rightarrow> ccsds_error + space_packet" where
  "make_pkt apid_raw = and_then (tm_packet apid_raw []) (\<lambda>(bytes, k). Inr k)"

text \<open>Routing one packet from a fresh router: the decision and the counter of its APID.\<close>

definition routed_fresh :: "u8 \<Rightarrow> u16 \<Rightarrow> ccsds_error + route \<times> u64" where
  "routed_fresh vc apid_raw =
     and_then (make_pkt apid_raw) (\<lambda>k.
       let (d, r) = route_packet router_new vc k in Inr (d, forbidden_apid_seen_total r apid_raw))"

definition router_reject_tests :: "unit_test list" where
  "router_reject_tests =
     [(''rejects_fault_apids_on_rf'',
       list_all (\<lambda>a. routed_fresh 0 a = Inr (Rejected ForbiddenFaultInjectApid, 1)
           \<and> unwrapped (routed_fresh 3 a) (\<lambda>(d, n). d = Rejected ForbiddenFaultInjectApid))
         [0x540, 0x541, 0x542, 0x543]),
      (''rejects_sim_sensor_apids'',
       list_all (\<lambda>a. routed_fresh 0 a = Inr (Rejected ForbiddenSimApid, 1)) [0x500, 0x51F, 0x53F]),
      (''rejects_sim_diag_apids'',
       list_all (\<lambda>a. routed_fresh 0 a = Inr (Rejected ForbiddenSimApid, 1)) [0x544, 0x560, 0x57F]),
      (''rejects_ground_internal_apids'',
       list_all (\<lambda>a. routed_fresh 0 a = Inr (Rejected ForbiddenGroundInternal, 1)) [0x600, 0x640, 0x67F])]"

text \<open>Routing packets of several APIDs one after another.\<close>

definition routes_all :: "u8 \<Rightarrow> u16 list \<Rightarrow> route \<Rightarrow> bool" where
  "routes_all vc apids d =
     snd (foldl (\<lambda>(r, ok) a.
         case make_pkt a of
           Inl _ \<Rightarrow> (r, False)
         | Inr k \<Rightarrow> (let (d', r') = route_packet r vc k in (r', ok \<and> d' = d)))
       (router_new, True) apids)"

definition router_route_tests :: "unit_test list" where
  "router_route_tests =
     [(''routes_orbiter_hk'', routes_all 0 [0x100, 0x140, 0x17F] Hk),
      (''routes_relay_hk'', routes_all 0 [0x200, 0x21F, 0x27F] Hk),
      (''routes_mcu_hk'', routes_all 0 [0x280, 0x290, 0x2FF] Hk),
      (''routes_rover_forward'', routes_all 3 [0x300, 0x380, 0x45F] RoverForward),
      (''routes_cfdp_vc2'', routes_all 2 [0x100] CfdpPdu),
      (''routes_event_log_vc1'', routes_all 1 [0x101] EventLog),
      (''routes_idle_fill'', routed_fresh 63 0x7FF = Inr (IdleFill, 0)),
      (''rejects_unknown_apid'', routed_fresh 0 0x460 = Inr (Rejected UnknownBlock, 0))]"

definition router_counter_tests :: "unit_test list" where
  "router_counter_tests =
     [(''forbidden_counter_accumulates'',
       unwrapped (make_pkt 0x540) (\<lambda>k.
         let r1 = snd (route_packet router_new 0 k); r2 = snd (route_packet r1 0 k);
             r3 = snd (route_packet r2 0 k) in
         map (\<lambda>r. forbidden_apid_seen_total r 0x540) [r1, r2, r3] = [1, 2, 3])),
      (''counter_zero_for_unseen_apid'',
       forbidden_apid_seen_total router_new 0x540 = 0 \<and> forbidden_apid_seen_total router_new 0x100 = 0),
      (''default_equals_new'', forbidden_apid_seen_total router_default 0x540 = 0),
      (''phase40_clock_skew_apid_still_rejected_after_badge_wiring'',
       routed_fresh 0 0x541 = Inr (Rejected ForbiddenFaultInjectApid, 1)),
      (''phase39_fault_inject_clock_skew_spp_rejected_on_rf'',
       unwrapped (tm_packet 0x541 [0, 1, 0, 0, 1, 0xF4, 0, 0, 0, 0, 0, 0, 0, 0x0A, 0, 0]) (\<lambda>(bytes, k).
         let (d, r) = route_packet router_new 0 k in
         d = Rejected ForbiddenFaultInjectApid \<and> forbidden_apid_seen_total r 0x541 = 1))]"

lemma tm_packet_eq:
  assumes "apid_raw \<le> 0x7FF" "length payload \<le> 65526"
  shows "\<exists>bytes k. tm_packet apid_raw payload = Inr (bytes, k) \<and> sp_parse bytes = Inr k
    \<and> length bytes = 16 + length payload \<and> apid_get (ph_apid (sp_primary k)) = apid_raw"
proof -
  let ?b = "with_user_data payload (with_instance_id (InstanceId 1) (with_func_code (FuncCode 1)
    (builder_tm (Apid apid_raw))))"
  have "built ?b = Inr (packet_image (builder_packet ?b (FuncCode 1) (InstanceId 1)),
      builder_packet ?b (FuncCode 1) (InstanceId 1))"
    using assms by (intro built_packet) (simp_all add: builder_simps builder_ok_def apid_ok_def
        apid_max_def fc_ok_def iid_ok_def)
  moreover from this have "sp_parse (packet_image (builder_packet ?b (FuncCode 1) (InstanceId 1))) =
      Inr (builder_packet ?b (FuncCode 1) (InstanceId 1))"
    by (auto simp: built_def and_then_Inr_iff)
  ultimately show ?thesis
    using assms by (simp add: tm_packet_def newtype_simps not_less length_packet_image builder_packet_def
        primary_new_def builder_simps)
qed

lemma make_pkt_eq:
  assumes "apid_raw \<le> 0x7FF"
  shows "\<exists>k. make_pkt apid_raw = Inr k \<and> apid_get (ph_apid (sp_primary k)) = apid_raw"
  using tm_packet_eq [OF assms, of "[]"] by (auto simp: make_pkt_def)

text \<open>The decision on a packet of \<open>make_pkt\<close> depends on its APID only.\<close>

definition decide :: "u8 \<Rightarrow> u16 \<Rightarrow> route" where
  "decide vc a = fst (route_packet router_new vc
     \<lparr>sp_primary = primary_new (Apid a) Tm (SequenceCount 0) (PacketDataLength 0),
      sp_secondary = secondary_new \<lparr>coarse = 0, fine = 0\<rparr> (FuncCode 1) (InstanceId 1), sp_user_data = []\<rparr>)"

lemma route_decide: "fst (route_packet r vc k) = decide vc (apid_get (ph_apid (sp_primary k)))"
  by (simp add: decide_def route_decision pkt_apid_def primary_new_def)

lemma route_counter:
  "forbidden_apid_seen_total (snd (route_packet r vc k)) (apid_get (ph_apid (sp_primary k))) =
     forbidden_apid_seen_total r (apid_get (ph_apid (sp_primary k)))
       + (if unat (apid_get (ph_apid (sp_primary k))) \<in> forbidden_apids then 1 else 0)"
  by (simp add: route_counts pkt_apid_def)

lemma fresh_total [simp]: "forbidden_apid_seen_total router_new a = 0"
  by (simp add: forbidden_apid_seen_total_def router_new_def)

lemma routed_fresh_eq:
  assumes "a \<le> 0x7FF"
  shows "routed_fresh vc a = Inr (decide vc a, if unat a \<in> forbidden_apids then 1 else 0)"
  using make_pkt_eq [OF assms]
  by (auto simp: routed_fresh_def split_beta route_decide route_counter)

lemma routes_all_eq:
  assumes "list_all (\<lambda>a. a \<le> 0x7FF \<and> decide vc a = d) apids"
  shows "routes_all vc apids d"
proof -
  have "snd (foldl (\<lambda>(r, ok) a.
         case make_pkt a of
           Inl _ \<Rightarrow> (r, False)
         | Inr k \<Rightarrow> (let (d', r') = route_packet r vc k in (r', ok \<and> d' = d))) (r, True) apids)" for r
    using assms
  proof (induction apids arbitrary: r)
    case (Cons a apids)
    then obtain k where "make_pkt a = Inr k" "decide vc (apid_get (ph_apid (sp_primary k))) = d"
      using make_pkt_eq [of a] by auto
    with Cons route_decide [of r vc k] show ?case by (simp add: split_beta)
  qed simp
  then show ?thesis by (simp add: routes_all_def)
qed

lemma router_tests_pass:
  "all_pass router_reject_tests" "all_pass router_route_tests" "all_pass router_counter_tests"
proof -
  show "all_pass router_reject_tests"
    by (simp add: all_pass_def router_reject_tests_def routed_fresh_eq forbidden_apids_def decide_def
        route_decision pkt_apid_def primary_new_def)
  show "all_pass router_route_tests"
    by (simp add: all_pass_def router_route_tests_def routes_all_eq routed_fresh_eq forbidden_apids_def
        decide_def route_decision pkt_apid_def primary_new_def)
  obtain k where k: "make_pkt 0x540 = Inr k" "apid_get (ph_apid (sp_primary k)) = 0x540"
    using make_pkt_eq [of "0x540"] by auto
  obtain bs k' where k': "tm_packet 0x541 [0, 1, 0, 0, 1, 0xF4, 0, 0, 0, 0, 0, 0, 0, 0x0A, 0, 0] = Inr (bs, k')"
    "apid_get (ph_apid (sp_primary k')) = 0x541"
    using tm_packet_eq [of "0x541" "[0, 1, 0, 0, 1, 0xF4, 0, 0, 0, 0, 0, 0, 0, 0x0A, 0, 0]"] by auto
  have tot: "forbidden_apid_seen_total (snd (route_packet r 0 k)) 0x540 = forbidden_apid_seen_total r 0x540 + 1" for r
    using route_counter [where k = k and r = r and vc = 0] k(2) by (simp add: forbidden_apids_def)
  have tot': "forbidden_apid_seen_total (snd (route_packet r 0 k')) 0x541 = forbidden_apid_seen_total r 0x541 + 1" for r
    using route_counter [where k = k' and r = r and vc = 0] k'(2) by (simp add: forbidden_apids_def)
  have "fst (route_packet router_new 0 k') = Rejected ForbiddenFaultInjectApid"
    by (simp add: route_decision pkt_apid_def k'(2))
  moreover have "decide 0 0x541 = Rejected ForbiddenFaultInjectApid"
    by (simp add: decide_def route_decision pkt_apid_def primary_new_def)
  ultimately show "all_pass router_counter_tests"
    by (simp add: all_pass_def router_counter_tests_def router_default_def routed_fresh_eq forbidden_apids_def split_beta
        k(1) k'(1) tot tot' Let_def)
qed

section \<open>Demultiplexer\<close>

text \<open>\<open>mpsc::channel(n)\<close> and \<open>try_recv\<close>.\<close>

definition channel :: "nat \<Rightarrow> 'a bqueue" where
  "channel n = \<lparr>bq_cap = n, bq_items = []\<rparr>"

definition received_on :: "'a bqueue option \<Rightarrow> 'a list" where
  "received_on ch = (case ch of None \<Rightarrow> [] | Some q \<Rightarrow> bq_items q)"

definition make_frame :: "u8 \<Rightarrow> aos_frame" where
  "make_frame vc = \<lparr>af_vc_id = vc, af_ocf = None, af_data = map char_byte ''test-payload''\<rparr>"

definition demux_fed :: "(nat \<Rightarrow> instant) \<Rightarrow> aos_frame bqueue demux \<Rightarrow> u8 list \<Rightarrow> aos_frame bqueue demux" where
  "demux_fed clock d vcs =
     snd (demux_run bq_try_send d (map (\<lambda>i. (clock i, make_frame (vcs ! i))) [0..<length vcs]))"

definition demux_tests :: "(nat \<Rightarrow> instant) \<Rightarrow> unit_test list" where
  "demux_tests clock =
     [(''given_known_vc_when_frame_received_then_forwarded'',
       let d = demux_fed clock (demux_new [0 \<mapsto> channel 8]) [0] in
       (case received_on (dx_senders d 0) of fr # _ \<Rightarrow> af_vc_id fr = 0 | [] \<Rightarrow> False)
       \<and> dx_dropped d = 0 \<and> dx_unknown d = 0),
      (''given_unknown_vc_when_frame_received_then_rejected_with_event'',
       let d = demux_fed clock (demux_new [0 \<mapsto> channel 8]) [5] in
       received_on (dx_senders d 0) = [] \<and> dx_unknown d = 1 \<and> dx_dropped d = 0),
      (''given_idle_vc_when_frame_received_then_silently_discarded'',
       let d = demux_fed clock (demux_default channel) [63] in
       dx_dropped d = 0 \<and> dx_unknown d = 0
       \<and> list_all (\<lambda>vc. dx_senders d vc \<noteq> None \<and> received_on (dx_senders d vc) = []) [0, 1, 2, 3]),
      (''given_full_channel_when_frame_sent_then_dropped_and_backpressure_event'',
       dx_dropped (demux_fed clock (demux_new [0 \<mapsto> channel 1]) [0, 0]) = 1),
      (''given_default_channels_when_all_vcs_receive_then_each_forwarded'',
       let d = demux_fed clock (demux_default channel) [0, 1, 2, 3] in
       list_all (\<lambda>vc. map af_vc_id (received_on (dx_senders d vc)) = [vc]) [0, 1, 2, 3]
       \<and> dx_dropped d = 0 \<and> dx_unknown d = 0)]"

lemma demux_tests_pass: "all_pass (demux_tests clock)"
  by (simp add: all_pass_def demux_tests_def demux_fed_def demux_default_def demux_new_def channel_def
      received_on_def make_frame_def demux_dispatch_def demux_emit_bp_def bq_try_send_def Let_def
      vc_idle_def demux_to_spp_cap_def upt_rec)

section \<open>Decoder\<close>

definition make_valid_spp :: "ccsds_error + bytes" where
  "make_valid_spp =
     and_then (apid_new 0x100) (\<lambda>a. and_then (fc_new 1) (\<lambda>f. and_then (iid_new 1) (\<lambda>i.
       builder_build (with_user_data [0xAB, 0xCD] (with_cuc \<lparr>coarse = 0, fine = 0\<rparr>
         (with_instance_id i (with_func_code f (builder_tm a))))))))"

definition decoder_fed ::
  "(nat \<Rightarrow> instant) \<Rightarrow> nat \<Rightarrow> bytes list \<Rightarrow> spp_decoder \<times> bytes list" where
  "decoder_fed clock cap datas =
     (let frames = map (\<lambda>i. (clock i, \<lparr>af_vc_id = 0, af_ocf = None, af_data = datas ! i\<rparr>)) [0..<length datas];
          (outs, d, tx) = decoder_run bq_try_send (decoder_new 0) (channel cap) frames
      in (d, bq_items tx))"

definition decoder_tests :: "(nat \<Rightarrow> instant) \<Rightarrow> unit_test list" where
  "decoder_tests clock =
     [(''given_valid_spp_when_run_then_forwarded'',
       unwrapped make_valid_spp (\<lambda>spp. let (d, rx) = decoder_fed clock 8 [spp] in
         (case rx of [k] \<Rightarrow> k \<noteq> [] | _ \<Rightarrow> False) \<and> sd_decode_fail d = 0 \<and> sd_dropped d = 0)),
      (''given_buffer_too_short_when_run_then_counted_and_discarded'',
       let (d, rx) = decoder_fed clock 8 [map char_byte ''too_short''] in
       rx = [] \<and> sd_decode_fail d = 1 \<and> sd_dropped d = 0),
      (''given_length_mismatch_when_run_then_counted_and_discarded'',
       unwrapped (tm_packet 0x100 [0xAA, 0xBB]) (\<lambda>(raw, k).
         let (d, rx) = decoder_fed clock 8 [raw @ [0xFF, 0xFF, 0xFF, 0xFF]] in
         rx = [] \<and> sd_decode_fail d = 1 \<and> sd_dropped d = 0)),
      (''given_full_router_channel_when_valid_packets_sent_then_one_dropped'',
       unwrapped make_valid_spp (\<lambda>spp. let (d, rx) = decoder_fed clock 1 [spp, spp] in
         sd_dropped d = 1 \<and> sd_decode_fail d = 0)),
      (''given_two_different_error_variants_when_run_then_both_counted'',
       unwrapped (tm_packet 0x100 [0xAA, 0xBB]) (\<lambda>(raw, k).
         let (d, rx) = decoder_fed clock 8 [map char_byte ''short'', raw @ [0xFF, 0xFF]] in
         sd_decode_fail d = 2 \<and> sd_dropped d = 0 \<and> rx = []))]"

definition decoder_error_tests :: "(nat \<Rightarrow> instant) \<Rightarrow> unit_test list" where
  "decoder_error_tests clock =
     [(''given_two_identical_errors_within_1s_when_run_then_both_counted'',
       let (d, rx) = decoder_fed clock 8 [map char_byte ''x'', map char_byte ''y''] in sd_decode_fail d = 2),
      (''given_all_ccsds_error_variants_when_error_label_then_non_empty'',
       list_all (\<lambda>e. error_label e \<noteq> '''')
         [BufferTooShort 16 1, InvalidVersion 1, InvalidPField 0, ApidOutOfRange 0x800,
          SequenceCountOutOfRange 0x4000, InstanceIdReserved, LengthMismatch 10 5,
          SequenceFlagsNotStandalone 0, FuncCodeReserved])]"

lemma short_fails: "length bs < 16 \<Longrightarrow> sp_parse bs = Inl (BufferTooShort 16 (length bs))"
  by (simp add: sp_parse_def header_len_16)

lemma valid_spp: "\<exists>spp k. make_valid_spp = Inr spp \<and> sp_parse spp = Inr k \<and> spp \<noteq> []"
proof -
  let ?b = "with_user_data [0xAB, 0xCD] (with_cuc \<lparr>coarse = 0, fine = 0\<rparr> (with_instance_id (InstanceId 1)
    (with_func_code (FuncCode 1) (builder_tm (Apid 0x100)))))"
  have "built ?b = Inr (packet_image (builder_packet ?b (FuncCode 1) (InstanceId 1)),
      builder_packet ?b (FuncCode 1) (InstanceId 1))"
    by (rule built_packet) (simp_all add: builder_simps builder_ok_def apid_ok_def apid_max_def fc_ok_def iid_ok_def)
  moreover have "packet_image k \<noteq> []" for k
    using length_packet_image [of k] by (metis length_0_conv add_is_0 zero_neq_numeral)
  ultimately show ?thesis
    by (auto simp: make_valid_spp_def newtype_simps built_def and_then_Inr_iff)
qed

lemmas decoder_fed_simps = decoder_fed_def decoder_process_def decoder_new_def channel_def bq_try_send_def
  emit_decode_fail_event_def decoder_emit_bp_def short_fails upt_rec

lemma decoder_tests_pass: "all_pass (decoder_tests clock)" "all_pass (decoder_error_tests clock)"
proof -
  obtain spp k where spp: "make_valid_spp = Inr spp" "sp_parse spp = Inr k" "spp \<noteq> []"
    using valid_spp by blast
  obtain raw k' where raw: "tm_packet 0x100 [0xAA, 0xBB] = Inr (raw, k')" "sp_parse raw = Inr k'"
    "length raw = 18"
    using tm_packet_eq [of "0x100" "[0xAA, 0xBB]"] by auto
  have "sp_parse (raw @ ext) = Inl (LengthMismatch 18 (18 + length ext))" if "ext \<noteq> []" for ext
    using parse_resized [OF raw(2), of "raw @ ext"] raw(3) that by simp
  then show "all_pass (decoder_tests clock)"
    by (simp add: all_pass_def decoder_tests_def spp raw(1) decoder_fed_simps Let_def)
  show "all_pass (decoder_error_tests clock)"
    by (simp add: all_pass_def decoder_error_tests_def decoder_fed_simps Let_def)
qed

section \<open>Properties\<close>

text \<open>
  The models of the router, the demultiplexer and the decoder pass the unit tests of their
  modules, the asynchronous ones with any readings of the clock.
\<close>

theorem ingest_tests_pass:
  "all_pass (router_reject_tests @ router_route_tests @ router_counter_tests @ demux_tests clock
     @ decoder_tests clock @ decoder_error_tests clock)"
  unfolding all_pass_append by (intro conjI router_tests_pass demux_tests_pass decoder_tests_pass)

end
