(* ===== verification/Tests_Framer.thy ===== *)
theory Tests_Framer
  imports Ingest_Framer Tests_Wire
begin

text \<open>
  The unit tests of \<open>ingest/framer.rs\<close>, run on the model.  The tests compute their check fields with
  the CRC routine of the framer, so they pass for every such routine; times are relative to the
  start of the test.  The latency test measures the machine and is left out.
\<close>

section \<open>Frames\<close>

definition build_frame :: "(bytes \<Rightarrow> u16) \<Rightarrow> u8 \<Rightarrow> bytes option \<Rightarrow> bytes" where
  "build_frame crc16 vc_id ocf =
     (let scid = 42 :: u8;
          frame = replicate aos_frame_len 0;
          frame = frame[0 := push_bit 6 1 OR drop_bit 2 scid];
          frame = frame[1 := push_bit 6 (scid AND 3) OR (vc_id AND 0x3F)];
          frame = frame[4 := 1];
          frame = frame[5 := (if ocf \<noteq> None then 0x08 else 0x00)];
          frame = (case ocf of
                     None \<Rightarrow> frame
                   | Some ocf_bytes \<Rightarrow> frame[ocf_offset := ocf_bytes ! 0, ocf_offset + 1 := ocf_bytes ! 1,
                                            ocf_offset + 2 := ocf_bytes ! 2, ocf_offset + 3 := ocf_bytes ! 3]);
          fecf = be16 (crc16 (take fecf_payload_len frame))
      in frame[fecf_payload_len := fecf ! 0, fecf_payload_len + 1 := fecf ! 1])"

definition bad_fecf :: "(bytes \<Rightarrow> u16) \<Rightarrow> bytes" where
  "bad_fecf crc16 =
     (let frame = build_frame crc16 0 None in
      frame[fecf_payload_len := frame ! fecf_payload_len XOR 0xFF,
            fecf_payload_len + 1 := frame ! (fecf_payload_len + 1) XOR 0xFF])"

text \<open>\<open>run\<close> on a reader that holds one frame; its result is unwrapped.\<close>

definition feed_frame ::
  "(bytes \<Rightarrow> u16) \<Rightarrow> instant \<Rightarrow> bytes \<Rightarrow> aos_framer \<Rightarrow> framer_error + framer_out list \<times> aos_framer" where
  "feed_frame crc16 now frame f =
     (let (outs, f', res) = framer_run crc16 (\<lambda>_. now) 0 f frame Eof in
      and_then res (\<lambda>_. Inr (outs, f')))"

text \<open>The value of the CLCW watch channel after the outputs.\<close>

definition clcw_borrow :: "framer_out list \<Rightarrow> bytes option" where
  "clcw_borrow outs = (if clcws outs = [] then None else Some (last (clcws outs)))"

section \<open>Tests\<close>

definition framer_frame_tests :: "(bytes \<Rightarrow> u16) \<Rightarrow> instant \<Rightarrow> unit_test list" where
  "framer_frame_tests crc16 t =
     [(''test_valid_frame_ocf_present'',
       let clcw = [0xDE, 0xAD, 0xBE, 0xEF] in
       unwrapped (feed_frame crc16 t (build_frame crc16 0 (Some clcw)) framer_new) (\<lambda>(outs, f).
         case forwarded outs of
           [] \<Rightarrow> False
         | fr # _ \<Rightarrow> af_vc_id fr = 0 \<and> af_ocf fr = Some clcw \<and> length (af_data fr) = 1012
             \<and> fr_fecf_errors f = 0 \<and> clcw_borrow outs = Some clcw)),
      (''test_valid_frame_no_ocf'',
       unwrapped (feed_frame crc16 t (build_frame crc16 1 None) framer_new) (\<lambda>(outs, f).
         case forwarded outs of
           [] \<Rightarrow> False
         | fr # _ \<Rightarrow> af_vc_id fr = 1 \<and> af_ocf fr = None \<and> length (af_data fr) = 1016
             \<and> fr_fecf_errors f = 0 \<and> clcw_borrow outs = None)),
      (''test_bad_fecf_discarded'',
       unwrapped (feed_frame crc16 t (bad_fecf crc16) framer_new) (\<lambda>(outs1, f1).
         fr_fecf_errors f1 = 1 \<and> forwarded outs1 = [] \<and> clcw_borrow outs1 = None
         \<and> unwrapped (feed_frame crc16 (t + from_millis 500) (bad_fecf crc16) f1) (\<lambda>(outs2, f2).
             fr_fecf_errors f2 = 2 \<and> forwarded outs2 = []
             \<and> unwrapped (feed_frame crc16 (t + from_millis 1100) (bad_fecf crc16) f2) (\<lambda>(outs3, f3).
                 fr_fecf_errors f3 = 3 \<and> forwarded outs3 = []))))]"

definition framer_link_tests :: "(bytes \<Rightarrow> u16) \<Rightarrow> instant \<Rightarrow> unit_test list" where
  "framer_link_tests crc16 t =
     [(''test_link_state_transitions'',
       let idle = build_frame crc16 63 None; t2 = t + from_secs 2; t6 = t2 + from_secs 4 in
       fr_link_state framer_new = Los
       \<and> unwrapped (feed_frame crc16 t idle framer_new) (\<lambda>(_, f1).
         unwrapped (feed_frame crc16 t2 idle f1) (\<lambda>(_, f2). fr_link_state f2 = Los
         \<and> unwrapped (feed_frame crc16 t6 idle f2) (\<lambda>(_, f3). fr_link_state f3 = Aos
         \<and> unwrapped (feed_frame crc16 t6 (bad_fecf crc16) f3) (\<lambda>(_, f4). fr_link_state f4 = Degraded
         \<and> fr_link_state (snd (framer_tick f4 (t6 + from_secs 31))) = Los)))))]"

section \<open>The tests pass\<close>

lemma run_one_frame:
  assumes "length buf = 1024"
  shows "feed_frame crc16 now buf f = Inr (process_frame crc16 f now buf)"
proof -
  have "framer_run crc16 (\<lambda>_. now) 1 f' [] Eof = ([], f', Inr ())" for f'
    by (simp add: framer_run.simps aos_frame_len_def)
  then show ?thesis
    using assms by (simp add: feed_frame_def framer_run.simps [of _ _ 0] aos_frame_len_def split_beta Let_def)
qed

lemma build_frame_length [simp]: "length (build_frame crc16 vc ocf) = 1024"
  by (simp add: build_frame_def Let_def framer_consts split: option.split)

lemma be16_join [simp]: "from_be16 (be16 w ! 0) (be16 w ! Suc 0) = w"
  by (rule be16_cases [of w]) (simp add: from_be16_inverse)

lemma build_frame_valid: "frame_valid crc16 (build_frame crc16 vc ocf)"
  by (cases ocf) (simp_all add: frame_valid_def build_frame_def Let_def framer_consts)

lemma bad_fecf_length [simp]: "length (bad_fecf crc16) = 1024"
  by (simp add: bad_fecf_def Let_def)

lemma flipped: "(b :: u8) XOR 0xFF \<noteq> b"
proof
  assume "b XOR 0xFF = b"
  then have "(b XOR 0xFF) XOR b = b XOR b" by simp
  then show False by (simp add: xor.commute xor.left_commute)
qed

lemma bad_fecf_invalid: "\<not> frame_valid crc16 (bad_fecf crc16)"
proof -
  let ?frame = "build_frame crc16 0 None"
  have "be16 (from_be16 (bad_fecf crc16 ! 1022) (bad_fecf crc16 ! 1023)) ! 0 = ?frame ! 1022 XOR 0xFF"
    by (simp add: bad_fecf_def Let_def framer_consts)
  moreover have "be16 (from_be16 (?frame ! 1022) (?frame ! 1023)) ! 0 = ?frame ! 1022" by simp
  ultimately have "from_be16 (bad_fecf crc16 ! 1022) (bad_fecf crc16 ! 1023) \<noteq> from_be16 (?frame ! 1022) (?frame ! 1023)"
    using flipped by metis
  moreover have "take 1022 (bad_fecf crc16) = take 1022 ?frame"
    by (simp add: bad_fecf_def Let_def framer_consts)
  ultimately show ?thesis
    using build_frame_valid [of crc16 0 None] by (simp add: frame_valid_def)
qed

lemma built_bytes:
  "build_frame crc16 vc ocf ! Suc 0 = 0x80 OR (vc AND 0x3F)"
  "build_frame crc16 vc ocf ! 5 = (if ocf \<noteq> None then 8 else 0)"
  by (cases ocf; simp add: build_frame_def Let_def framer_consts)+

lemma built_ocf: "take 4 (drop 1018 (build_frame crc16 vc (Some [a, b, c, d]))) = [a, b, c, d]"
  by (subst take_4_drop) (simp_all add: build_frame_def Let_def framer_consts)

lemma built_frames:
  "frame_of (build_frame crc16 1 None) = \<lparr>af_vc_id = 1, af_ocf = None,
     af_data = take 1016 (drop 6 (build_frame crc16 1 None))\<rparr>"
  "frame_of (build_frame crc16 0 (Some [a, b, c, d])) = \<lparr>af_vc_id = 0, af_ocf = Some [a, b, c, d],
     af_data = take 1012 (drop 6 (build_frame crc16 0 (Some [a, b, c, d])))\<rparr>"
proof -
  have "\<not> bit (0 :: u8) 3" "bit (8 :: u8) 3" by simp_all
  then show 
  "frame_of (build_frame crc16 1 None) = \<lparr>af_vc_id = 1, af_ocf = None,
     af_data = take 1016 (drop 6 (build_frame crc16 1 None))\<rparr>"
  "frame_of (build_frame crc16 0 (Some [a, b, c, d])) = \<lparr>af_vc_id = 0, af_ocf = Some [a, b, c, d],
     af_data = take 1012 (drop 6 (build_frame crc16 0 (Some [a, b, c, d])))\<rparr>"
    by (simp_all add: frame_of_def built_bytes built_ocf)
qed

lemma clcw_flag_bits: "bit (8 :: u8) 3" "\<not> bit (0 :: u8) 3" by simp_all

lemma no_errors [simp]: "fr_fecf_errors framer_new = 0" by (simp add: framer_new_def)

lemma framer_frame_tests_pass: "all_pass (framer_frame_tests crc16 t)"
  by (simp add: all_pass_def framer_frame_tests_def run_one_frame split_beta process_frame_outs
      process_frame_errors build_frame_valid bad_fecf_invalid built_frames built_bytes built_ocf clcw_flag_bits
      clcw_borrow_def Let_def)

text \<open>The framer after each step of the link-state test.\<close>

lemmas link_step_simps = process_frame_state fw_push_def update_link_state_def compute_link_state_def
  duration_since_def fw_error_rate_over_def fw_total_in_def fw_errors_in_def fw_last_valid_age_def
  fw_valid_count_in_def maybe_emit_fecf_event_def from_secs_def degraded_window_def los_window_def
  aos_rate_window_def aos_sustain_def degraded_error_threshold_def Let_def

definition walk :: "u64 \<Rightarrow> instant option \<Rightarrow> link_state \<Rightarrow> instant option \<Rightarrow> frame_window \<Rightarrow> aos_framer" where
  "walk n ev ls since w =
     \<lparr>fr_fecf_errors = n, fr_last_fecf_event = ev, fr_link_state = ls, fr_aos_since = since, fr_window = w\<rparr>"

lemma walk_steps:
  fixes t :: instant
  defines "t2 \<equiv> t + 2000000000" and "t6 \<equiv> t + 6000000000"
  assumes ok: "frame_valid crc16 good" and bad: "\<not> frame_valid crc16 broken"
  shows "snd (process_frame crc16 framer_new t good) = walk 0 None Los (Some t) [(t, True)]"
    and "snd (process_frame crc16 (walk 0 None Los (Some t) [(t, True)]) t2 good) =
      walk 0 None Los (Some t) [(t, True), (t2, True)]"
    and "snd (process_frame crc16 (walk 0 None Los (Some t) [(t, True), (t2, True)]) t6 good) =
      walk 0 None Aos (Some t) [(t, True), (t2, True), (t6, True)]"
    and "fr_link_state (snd (process_frame crc16 (walk 0 None Aos (Some t) [(t, True), (t2, True), (t6, True)]) t6 broken)) = Degraded"
    and "fr_window (snd (process_frame crc16 (walk 0 None Aos (Some t) [(t, True), (t2, True), (t6, True)]) t6 broken)) =
      [(t, True), (t2, True), (t6, True), (t6, False)]"
  by (simp_all add: framer_new_def walk_def link_step_simps ok bad t2_def t6_def)

lemma silence_is_los:
  assumes "fr_window f = [(t, True), (t + 2000000000, True), (t + 6000000000, True), (t + 6000000000, False)]"
  shows "fr_link_state (snd (framer_tick f (t + 37000000000))) = Los"
  using assms by (simp add: framer_tick_def link_step_simps)

lemma framer_link_tests_pass: "all_pass (framer_link_tests crc16 t)"
proof -
  note w = walk_steps [OF build_frame_valid [of crc16 63 None] bad_fecf_invalid [of crc16], of t]
  have times: "t + from_secs 2 = t + 2000000000" "t + 2000000000 + from_secs 4 = t + 6000000000"
    "t + 6000000000 + from_secs 31 = t + 37000000000"
    by (simp_all add: from_secs_def)
  have "fr_link_state framer_new = Los" "fr_link_state (walk n ev ls since fw) = ls" for n ev ls since fw
    by (simp_all add: framer_new_def walk_def)
  then show ?thesis
    unfolding all_pass_def framer_link_tests_def Let_def times
    by (simp only: list.pred_inject snd_conv simp_thms run_one_frame build_frame_length bad_fecf_length
        sum.case split_beta w silence_is_los [OF w(5)])
qed

section \<open>Properties\<close>

text \<open>
  The model of the framer passes the unit tests of its module for every CRC routine: what is
  forwarded and published, the error counter, and the link-state walk from loss through acquisition
  and degradation back to loss.
\<close>

theorem framer_tests_pass: "all_pass (framer_frame_tests crc16 t @ framer_link_tests crc16 t)"
  unfolding all_pass_append by (intro conjI framer_frame_tests_pass framer_link_tests_pass)

end
