(* ===== verification/Tests_Ui.thy ===== *)
theory Tests_Ui
  imports Ingest_Sinks Tests_Wire
begin

text \<open>
  The unit tests of \<open>ui/mod.rs\<close>, \<open>ui/time.rs\<close> and \<open>ingest/sinks.rs\<close>, run on the model.  Left out
  are the tests that look into the output of the serialiser, build the \<open>axum\<close> router or ask the
  \<open>time\<close> crate for a calendar date.  A test that starts a sink, sends packets and waits is the drain
  loop over these packets.
\<close>

section \<open>Handlers\<close>

definition channel_one :: "tc_queue_entry bqueue" where
  "channel_one = \<lparr>bq_cap = 1, bq_items = []\<rparr>"

definition make_state :: "tc_queue_entry bqueue ui_state" where
  "make_state = ui_state_new 37 channel_one"

definition ui_default_tests :: "unit_test list" where
  "ui_default_tests =
     [(''ui_get_hk_empty'', get_hk make_state = []),
      (''ui_get_events_empty'', get_events make_state = []),
      (''ui_get_cfdp_empty'', get_cfdp make_state = []),
      (''ui_get_mfile_empty'', get_mfile make_state = []),
      (''ui_get_link_default_los'',
       let result = get_link make_state in ls_state result = VLos \<and> ls_last_frame_utc result = None),
      (''ui_get_cop1_default_initial'',
       let result = get_cop1 make_state in
       c1_fop1_state result = ''Initial'' \<and> c1_window_occupancy result = 0 \<and> c1_retransmit_count result = 0),
      (''ui_get_time_auth_default_leap_seconds'', ta_tai_offset_s (get_time_auth make_state) = 37),
      (''ui_time_authority_default_time_suspect_seen_false'', \<not> ta_time_suspect_seen (get_time_auth make_state)),
      (''ui_time_authority_time_suspect_seen_can_be_set_true'',
       let state = make_state\<lparr>us_time_auth := (us_time_auth make_state)\<lparr>ta_time_suspect_seen := True\<rparr>\<rparr> in
       ta_time_suspect_seen (get_time_auth state))]"

definition tc_request :: "u32 \<Rightarrow> tc_submit_request" where
  "tc_request valid_until = \<lparr>tr_valid_until = valid_until, tr_apid = None, tr_func_code = None\<rparr>"

definition ui_post_tc_tests :: "(rat \<Rightarrow> f64) \<Rightarrow> (f64 \<Rightarrow> string) \<Rightarrow> unit_test list" where
  "ui_post_tc_tests rnd fmt1 =
     [(''ui_post_tc_expired_window_returns_422'',
       let state = make_state\<lparr>us_now_tai := \<lparr>coarse = 1100, fine = 0\<rparr>, us_light_time_s := Fin 5\<rparr> in
       unwrapped_err (fst (post_tc rnd fmt1 bq_try_send state (tc_request 1000))) (\<lambda>(status, _). status = 422)),
      (''ui_post_tc_valid_window_accepted'',
       let state = make_state\<lparr>us_now_tai := \<lparr>coarse = 500, fine = 0\<rparr>, us_light_time_s := Fin 5\<rparr> in
       unwrapped (fst (post_tc rnd fmt1 bq_try_send state (tc_request 2000))) tp_accepted)]"

section \<open>Link surfaces\<close>

text \<open>\<open>state.hk.write().await.push(..)\<close> of a snapshot with one frame.\<close>

definition with_frame :: "string \<Rightarrow> u16 \<Rightarrow> bytes \<Rightarrow> tc_queue_entry bqueue ui_state" where
  "with_frame asset a d =
     make_state\<lparr>us_hk := us_hk make_state @
       [\<lparr>hs_asset = asset, hs_apid = a,
         hs_frames = [\<lparr>hf_timestamp_utc = ''2026-01-01T00:00:00Z'', hf_data = d\<rparr>]\<rparr>]\<rparr>"

definition ui_link_tests :: "unit_test list" where
  "ui_link_tests =
     [(''ui_get_cfs_ros_link_empty_returns_default'',
       let result = get_cfs_ros_link make_state in
       cr_packets_routed result = 0 \<and> cr_err_counter result = 0 \<and> cr_last_hk_utc result = None),
      (''ui_get_cfs_ros_link_parses_le_payload'',
       let result = get_cfs_ros_link (with_frame ''ros2_bridge'' 0x128 (le32 42 @ replicate 20 0)) in
       cr_packets_routed result = 42 \<and> cr_last_hk_utc result \<noteq> None),
      (''ui_get_ros_ground_link_empty_returns_default'',
       let result = get_ros_ground_link make_state in
       \<not> rg_session_active result \<and> rg_signal_strength result = 0 \<and> rg_last_hk_utc result = None),
      (''ui_get_ros_ground_link_parses_be_payload'',
       let result = get_ros_ground_link (with_frame ''prx1_link_state'' 0x129 ((replicate 10 0)[0 := 1, 1 := 85])) in
       rg_session_active result \<and> rg_signal_strength result = 85),
      (''ui_get_fleet_dds_link_empty_returns_default'',
       let result = get_fleet_dds_link make_state in
       fd_health_mask result = 0 \<and> fd_land_age_ms result = 0 \<and> fd_last_hk_utc result = None),
      (''ui_get_fleet_dds_link_parses_be_payload'',
       let result = get_fleet_dds_link (with_frame ''fleet_monitor'' 0x160 ([7] @ be32 1000 @ replicate 8 0)) in
       fd_health_mask result = 7 \<and> fd_land_age_ms result = 1000)]"

definition ui_read_tests :: "unit_test list" where
  "ui_read_tests =
     [(''ui_read_le_u32_correct'', read_le_u32 (le32 0xDEADBEEF) 0 = 0xDEADBEEF),
      (''ui_read_be_u32_with_offset'', read_be_u32 ([0] @ be32 0x01020304) 1 = 0x01020304),
      (''ui_read_le_u32_underrun_returns_zero'', read_le_u32 [0xFF, 0xFF] 0 = 0)]"

section \<open>Time\<close>

definition ui_time_tests :: "(rat \<Rightarrow> f64) \<Rightarrow> unit_test list" where
  "ui_time_tests rnd =
     [(''ui_validity_window_expired_rejects_tc'',
       unwrapped_err (check_validity_window rnd \<lparr>coarse = 1000, fine = 0\<rparr> \<lparr>coarse = 1100, fine = 0\<rparr> (Fin 5))
         (\<lambda>e. case e of WindowExpired (Fin x) \<Rightarrow> \<bar>x - 105\<bar> < 1 / 1000 | _ \<Rightarrow> False)),
      (''ui_validity_window_open_accepts_tc'',
       is_ok (check_validity_window rnd \<lparr>coarse = 2000, fine = 0\<rparr> \<lparr>coarse = 1000, fine = 0\<rparr> (Fin 600)))]"

text \<open>
  \<open>civil\<close> is the date and time of day of the crate: year, month, day, hour, minute, second.
\<close>

definition ui_calendar_tests ::
  "('dt \<Rightarrow> nat \<times> nat \<times> nat \<times> nat \<times> nat \<times> nat) \<Rightarrow> 'dt time_crate \<Rightarrow> 'dt \<Rightarrow> unit_test list" where
  "ui_calendar_tests civil tc unix_epoch =
     [(''ui_tai_to_utc_known_epoch'',
       civil (tai_to_utc tc (converter_new 37) \<lparr>coarse = 2082758437, fine = 0\<rparr>) = (2024, 1, 1, 0, 0, 0)),
      (''ui_utc_to_tai_roundtrip'',
       let tai = utc_to_tai tc (converter_new 37) unix_epoch in coarse tai = 378691237 \<and> fine tai = 0),
      (''ui_tai_to_iso8601_format'',
       take 19 (tai_to_iso8601 tc (converter_new 37) \<lparr>coarse = 2082758437, fine = 0\<rparr>) = ''2024-01-01T00:00:00'')]"

text \<open>What the tests know of the calendar: where 1704067200 seconds of Unix time fall.\<close>

definition knows_2024 :: "('dt \<Rightarrow> nat \<times> nat \<times> nat \<times> nat \<times> nat \<times> nat) \<Rightarrow> 'dt time_crate \<Rightarrow> bool" where
  "knows_2024 civil tc \<longleftrightarrow>
     (case tc_from_unix tc 1704067200 of
        None \<Rightarrow> False
      | Some d \<Rightarrow> civil (tc_add_ns tc d 0) = (2024, 1, 1, 0, 0, 0)
          \<and> map_option (take 19) (tc_rfc3339 tc (tc_add_ns tc d 0)) = Some ''2024-01-01T00:00:00'')"

section \<open>Sinks\<close>

definition build_test_packet :: "u16 \<Rightarrow> u32 \<Rightarrow> bytes \<Rightarrow> ccsds_error + bytes" where
  "build_test_packet ap tai_coarse payload =
     and_then (apid_new ap) (\<lambda>a. and_then (sc_new 1) (\<lambda>s. and_then (fc_new 2) (\<lambda>f. and_then (iid_new 1) (\<lambda>i.
       builder_build (with_user_data payload (with_instance_id i (with_func_code f
         (with_cuc \<lparr>coarse = tai_coarse, fine = 0\<rparr> (with_sequence_count s (builder_tm a)))))))))) "

text \<open>The packets of a list, built one after another; the clock is read once for each.\<close>

fun build_all :: "(ccsds_error + bytes) list \<Rightarrow> ccsds_error + bytes list" where
  "build_all [] = Inr []"
| "build_all (r # rs) = and_then r (\<lambda>p. and_then (build_all rs) (\<lambda>ps. Inr (p # ps)))"

definition sink_tests :: "'dt time_crate \<Rightarrow> 'dt \<Rightarrow> unit_test list" where
  "sink_tests tc now =
     [(''test_hk_sink_upserts_snapshot'',
       unwrapped (build_test_packet 0x101 1000000 [0xAB, 0xCD]) (\<lambda>pkt.
         case us_hk (drain_hk tc [(now, pkt)] make_state) of
           [snap] \<Rightarrow> hs_apid snap = 0x101 \<and> hs_asset snap = ''orbiter_cdh'' \<and>
             (case hs_frames snap of
                [fr] \<Rightarrow> hf_data fr = [0xAB, 0xCD] \<and> hf_timestamp_utc fr \<noteq> ''''
              | _ \<Rightarrow> False)
         | _ \<Rightarrow> False)),
      (''test_hk_sink_ring_buffer_evicts_oldest'',
       unwrapped (build_all (map (\<lambda>s. build_test_packet 0x110 (of_nat s) [of_nat s]) [0..<hk_frames_per_apid + 5]))
         (\<lambda>pkts. case find (\<lambda>s. hs_apid s = 0x110) (us_hk (drain_hk tc (map (Pair now) pkts) make_state)) of
             None \<Rightarrow> False
           | Some snap \<Rightarrow> length (hs_frames snap) = hk_frames_per_apid)),
      (''test_event_sink_appends_entry'',
       unwrapped (build_test_packet 0x102 2000000 ([3] @ map char_byte ''test event message'' @ [0])) (\<lambda>pkt.
         case us_events (drain_events tc [(now, pkt)] make_state) of
           [e] \<Rightarrow> ee_apid e = 0x102 \<and> ee_severity e = 3 \<and> ee_message e = ''test event message''
         | _ \<Rightarrow> False))]"

definition sink_helper_tests :: "unit_test list" where
  "sink_helper_tests =
     [(''test_apid_to_asset_known_apiids'',
       apid_to_asset 0x101 = ''orbiter_cdh'' \<and> apid_to_asset 0x110 = ''orbiter_adcs''
       \<and> apid_to_asset 0x300 = ''rover_land'' \<and> apid_to_asset 0x3C0 = ''rover_uav''
       \<and> apid_to_asset 0x400 = ''rover_cryobot''),
      (''test_apid_to_asset_unknown_apid'', apid_to_asset 0x200 = ''apid_0x200''),
      (''test_extract_apid_parses_correctly'',
       unwrapped (build_test_packet 0x101 0 []) (\<lambda>pkt. extract_apid pkt = Some 0x101))]"

section \<open>The tests pass\<close>

lemma ui_handler_tests_pass:
  "all_pass ui_default_tests" "all_pass ui_link_tests" "all_pass ui_read_tests"
proof -
  show "all_pass ui_default_tests"
    by (simp add: all_pass_def ui_default_tests_def make_state_def ui_state_new_def get_hk_def get_events_def
        get_cfdp_def get_mfile_def get_link_def get_cop1_def get_time_auth_def link_state_default_def
        cop1_default_def time_authority_default_def)
  show "all_pass ui_link_tests"
    using read_le_u32_at [of 0 "[]" 42 "replicate 20 0"] read_be_u32_at [of 1 "[7]" 1000 "replicate 8 0"]
    by (simp add: all_pass_def ui_link_tests_def make_state_def ui_state_new_def with_frame_def
        get_cfs_ros_link_def get_ros_ground_link_def get_fleet_dds_link_def latest_hk_frame_def get_at_def Let_def)
  show "all_pass ui_read_tests"
    using read_le_u32_at [of 0 "[]" "0xDEADBEEF" "[]"] read_be_u32_at [of 1 "[0]" "0x01020304" "[]"]
      read_u32_short(1) [of "[0xFF, 0xFF]" 0]
    by (simp add: all_pass_def ui_read_tests_def)
qed

lemma timed_tests_pass:
  assumes rounding: "\<forall>n :: int. \<bar>n\<bar> \<le> 2 ^ 53 \<longrightarrow> rnd (of_int n) = Fin (of_int n)"
    and epoch: "tc_unix tc unix_epoch = 0"
    and year: "knows_2024 civil tc"
  shows "all_pass (ui_post_tc_tests rnd fmt1)" "all_pass (ui_time_tests rnd)"
    "all_pass (ui_calendar_tests civil tc unix_epoch)"
proof -
  have exact: "check_validity_window rnd d now (Fin 5) =
      (if unat (coarse now) + 5 > unat (coarse d)
       then Inl (WindowExpired (Fin (of_int (int (unat (coarse now) + 5) - int (unat (coarse d)))))) else Inr ())"
    "check_validity_window rnd d now (Fin 600) =
      (if unat (coarse now) + 600 > unat (coarse d)
       then Inl (WindowExpired (Fin (of_int (int (unat (coarse now) + 600) - int (unat (coarse d)))))) else Inr ())"
    for d now
    using check_window_exact [OF rounding, of 5 d now] check_window_exact [OF rounding, of 600 d now] by simp_all
  show "all_pass (ui_post_tc_tests rnd fmt1)"
    by (simp add: all_pass_def ui_post_tc_tests_def post_tc_def tc_request_def exact Let_def)
  show "all_pass (ui_time_tests rnd)"
    by (simp add: all_pass_def ui_time_tests_def exact)
  obtain d where d: "tc_from_unix tc 1704067200 = Some d" "civil (tc_add_ns tc d 0) = (2024, 1, 1, 0, 0, 0)"
    "map_option (take 19) (tc_rfc3339 tc (tc_add_ns tc d 0)) = Some ''2024-01-01T00:00:00''"
    using year by (auto simp: knows_2024_def split: option.splits)
  have "tai_to_utc tc (converter_new 37) \<lparr>coarse = 2082758437, fine = 0\<rparr> = tc_add_ns tc d 0"
    by (simp add: tai_to_utc_def converter_new_def tai_epoch_unix_s_def d(1))
  then show "all_pass (ui_calendar_tests civil tc unix_epoch)"
    using d(2,3)
    by (auto simp: all_pass_def ui_calendar_tests_def tai_to_iso8601_def utc_to_tai_def epoch converter_new_def
        tai_epoch_unix_s_def)
qed

lemma test_packet:
  assumes "ap \<le> 0x7FF" "length payload \<le> 65526"
  shows "\<exists>bs k. build_test_packet ap c payload = Inr bs \<and> sp_parse bs = Inr k
    \<and> apid_get (ph_apid (sp_primary k)) = ap \<and> sp_user_data k = payload
    \<and> sh_time (sp_secondary k) = \<lparr>coarse = c, fine = 0\<rparr>"
proof -
  let ?b = "with_user_data payload (with_instance_id (InstanceId 1) (with_func_code (FuncCode 2)
    (with_cuc \<lparr>coarse = c, fine = 0\<rparr> (with_sequence_count (SequenceCount 1) (builder_tm (Apid ap))))))"
  have "built ?b = Inr (packet_image (builder_packet ?b (FuncCode 2) (InstanceId 1)),
      builder_packet ?b (FuncCode 2) (InstanceId 1))"
    using assms by (intro built_packet) (simp_all add: builder_simps builder_ok_def apid_ok_def
        apid_max_def sc_ok_def sc_max_def fc_ok_def iid_ok_def)
  then show ?thesis
    using assms by (auto simp: build_test_packet_def newtype_simps not_less built_def and_then_Inr_iff
        builder_packet_def primary_new_def secondary_new_def builder_simps)
qed

lemma sink_helper_tests_pass: "all_pass sink_helper_tests"
  using test_packet [of "0x101" "[]" 0] extract_apid_parse
  by (auto simp: all_pass_def sink_helper_tests_def apid_to_asset_def number_simps)

text \<open>Packets of one APID in a row.\<close>

lemma build_all_packets:
  assumes "ap \<le> 0x7FF"
  shows "\<exists>pkts. build_all (map (\<lambda>s. build_test_packet ap (of_nat s) [of_nat s]) xs) = Inr pkts
    \<and> length pkts = length xs \<and> list_all (\<lambda>p. extract_apid p = Some ap) pkts"
proof (induction xs)
  case (Cons x xs)
  obtain bs k where "build_test_packet ap (of_nat x) [of_nat x] = Inr bs" "sp_parse bs = Inr k"
    "apid_get (ph_apid (sp_primary k)) = ap"
    using test_packet [OF assms, of "[of_nat x]" "of_nat x"] by auto
  then show ?case using Cons extract_apid_parse [of bs k] by auto
qed simp

lemma hk_inputs:
  "list_all (\<lambda>p. extract_apid p = Some a) pkts \<Longrightarrow>
    List.map_filter (hk_input tc conv a) (map (Pair now) pkts) = map (hk_frame_of tc conv now) pkts"
  by (induction pkts) (simp_all add: hk_input_def map_filter_simps)

lemma ring_test:
  assumes "list_all (\<lambda>p. extract_apid p = Some 0x110) pkts" "length pkts = hk_frames_per_apid + 5"
  shows "\<exists>snap. find (\<lambda>s. hs_apid s = 0x110) (us_hk (drain_hk tc (map (Pair now) pkts) make_state)) = Some snap
    \<and> length (hs_frames snap) = hk_frames_per_apid"
proof -
  let ?hk = "us_hk (drain_hk tc (map (Pair now) pkts) make_state)"
  have "frames_of ?hk 0x110 = newest hk_frames_per_apid (map (hk_frame_of tc (us_converter make_state) now) pkts)"
    using hk_ring.fold_entries [of "[]" "0x110" tc "us_converter make_state" "map (Pair now) pkts"]
    by (simp add: drain_hk_fold make_state_def ui_state_new_def hk_ring.inputs_def hk_inputs assms(1))
  then have "length (frames_of ?hk 0x110) = hk_frames_per_apid" using assms(2) by simp
  then show ?thesis
    by (auto simp: frames_of_def hk_frames_per_apid_def split: option.splits)
qed

lemma sink_tests_pass:
  assumes "tai_to_iso8601 tc (converter_new 37) \<lparr>coarse = 1000000, fine = 0\<rparr> \<noteq> ''''"
  shows "all_pass (sink_tests tc now)"
proof -
  obtain p1 k1 where p1: "build_test_packet 0x101 1000000 [0xAB, 0xCD] = Inr p1" "sp_parse p1 = Inr k1"
    "apid_get (ph_apid (sp_primary k1)) = 0x101" "sp_user_data k1 = [0xAB, 0xCD]"
    "sh_time (sp_secondary k1) = \<lparr>coarse = 1000000, fine = 0\<rparr>"
    using test_packet [of "0x101" "[0xAB, 0xCD]" 1000000] by auto
  have conv: "us_converter make_state = converter_new 37" "us_hk make_state = []" "us_events make_state = []"
    by (simp_all add: make_state_def ui_state_new_def)
  have one: "us_hk (drain_hk tc [(now, p1)] make_state) = [\<lparr>hs_asset = ''orbiter_cdh'', hs_apid = 0x101,
      hs_frames = [\<lparr>hf_timestamp_utc = tai_to_iso8601 tc (converter_new 37) \<lparr>coarse = 1000000, fine = 0\<rparr>,
        hf_data = [0xAB, 0xCD]\<rparr>]\<rparr>]"
    using p1 by (simp add: drain_hk_def process_hk_packet_def extract_apid_parse [OF p1(2)]
        hk_frame_of_parse [OF p1(2)] conv apid_to_asset_def)
  obtain pkts where pkts: "build_all (map (\<lambda>s. build_test_packet 0x110 (of_nat s) [of_nat s]) [0..<hk_frames_per_apid + 5]) = Inr pkts"
    "length pkts = hk_frames_per_apid + 5" "list_all (\<lambda>p. extract_apid p = Some 0x110) pkts"
    using build_all_packets [of "0x110" "[0..<hk_frames_per_apid + 5]"] by auto
  obtain snap where ring: "find (\<lambda>s. hs_apid s = 0x110) (us_hk (drain_hk tc (map (Pair now) pkts) make_state)) = Some snap"
    "length (hs_frames snap) = hk_frames_per_apid"
    using ring_test [OF pkts(3,2), of tc now] by (elim exE conjE)
  let ?msg = "map char_byte ''test event message''"
  obtain p3 k3 where p3: "build_test_packet 0x102 2000000 ([3] @ ?msg @ [0]) = Inr p3" "sp_parse p3 = Inr k3"
    "apid_get (ph_apid (sp_primary k3)) = 0x102" "sp_user_data k3 = [3] @ ?msg @ [0]"
    using test_packet [of "0x102" "[3] @ ?msg @ [0]" 2000000] by auto
  have ascii: "is_ascii ?msg" "0 \<notin> set ?msg" "map byte_char ?msg = ''test event message''"
    by code_simp+
  have "p3 = take 16 p3 @ drop 16 p3" by simp
  then have "p3 = take 16 p3 @ 3 # ?msg @ 0 # []" using sp_parse_InrD(4) [OF p3(2)] p3(4) by (simp only: append_Cons append_Nil)
  moreover have "length (take 16 p3) = 16" using sp_parse_InrD(5) [OF p3(2)] by simp
  ultimately have msg_text: "event_text p3 = (3, ''test event message'')"
    using event_text_ascii [where hdr = "take 16 p3" and sev = 3 and rest = "[]", OF _ ascii(1,2)] ascii(3)
    by (metis (no_types))
  have three: "us_events (drain_events tc [(now, p3)] make_state) =
      [\<lparr>ee_timestamp_utc = extract_utc tc (converter_new 37) now p3, ee_apid = 0x102, ee_severity = 3,
        ee_message = ''test event message''\<rparr>]"
    using p3(3) by (simp add: drain_events_def process_event_packet_def extract_apid_parse [OF p3(2)]
        event_entry_of_def msg_text conv ring_push_def event_ring_max_def)
  show ?thesis
    unfolding all_pass_def sink_tests_def p1(1) p3(1) pkts(1)
    using assms by (simp add: one three ring)
qed

section \<open>Properties\<close>

text \<open>
  The models of the store, the time conversion and the sinks pass the unit tests of their
  modules, for every rounding that is exact on integers of 53 bits and every \<open>time\<close> crate whose Unix
  epoch has the time 0 and which can format the time of the test packet.
\<close>

theorem ui_tests_pass:
  assumes "\<forall>n :: int. \<bar>n\<bar> \<le> 2 ^ 53 \<longrightarrow> rnd (of_int n) = Fin (of_int n)"
    and "tc_unix tc unix_epoch = 0"
    and "knows_2024 civil tc"
    and "tai_to_iso8601 tc (converter_new 37) \<lparr>coarse = 1000000, fine = 0\<rparr> \<noteq> ''''"
  shows "all_pass (ui_default_tests @ ui_post_tc_tests rnd fmt1 @ ui_link_tests @ ui_read_tests
    @ ui_time_tests rnd @ ui_calendar_tests civil tc unix_epoch @ sink_tests tc now @ sink_helper_tests)"
  unfolding all_pass_append
  by (intro conjI ui_handler_tests_pass timed_tests_pass [OF assms(1,2,3)] sink_tests_pass [OF assms(4)]
      sink_helper_tests_pass)

text \<open>A calendar that writes the seconds of any other time as a number.\<close>

definition printing_calendar :: "(int \<times> int) time_crate" where
  "printing_calendar = example_calendar\<lparr>tc_rfc3339 :=
     (\<lambda>(s, _). Some (if s = 1704067200 then ''2024-01-01T00:00:00Z'' else dec_string (nat \<bar>s\<bar>)))\<rparr>"

theorem ui_tests_pass_witness:
  "all_pass (ui_post_tc_tests Fin (\<lambda>_. '''') @ ui_time_tests Fin
    @ ui_calendar_tests (\<lambda>_. (2024, 1, 1, 0, 0, 0)) printing_calendar (0, 0) @ sink_tests printing_calendar (0, 0))"
proof -
  have "dec_string n \<noteq> ''''" for n by (simp add: dec_string_def digits_not_Nil)
  then have "tai_to_iso8601 printing_calendar (converter_new 37) \<lparr>coarse = 1000000, fine = 0\<rparr> \<noteq> ''''"
    by (simp add: tai_to_iso8601_def printing_calendar_def split: option.splits prod.splits)
  moreover have "knows_2024 (\<lambda>_. (2024, 1, 1, 0, 0, 0)) printing_calendar"
    by (simp add: knows_2024_def printing_calendar_def example_calendar_def)
  ultimately show ?thesis
    using ui_tests_pass [of Fin printing_calendar "(0, 0)" "\<lambda>_. (2024, 1, 1, 0, 0, 0)" "\<lambda>_. ''''" "(0, 0)"]
    by (simp add: all_pass_append printing_calendar_def example_calendar_def)
qed

end
