(* ===== verification/Tests_Uplink.thy ===== *)
theory Tests_Uplink
  imports Tests_Wire Uplink_Framer Uplink_Builder
begin

text \<open>
  The unit tests of \<open>rust/ground_station/src/uplink\<close>: \<open>cop1.rs\<close>, \<open>framer.rs\<close> and \<open>builder.rs\<close>.  The
  n-th reading of the clock in a test is \<open>clock n\<close>; all a test needs of the clock is that it does not
  run backwards.  Sending a control word on the watch channel and ticking is a tick that sees a new
  value.
\<close>

section \<open>FOP-1 engine\<close>

definition make_engine :: cop1 where
  "make_engine = cop1_new (from_millis 1)"

definition clcw :: "u8 \<Rightarrow> u8 \<Rightarrow> u8 \<Rightarrow> bytes" where
  "clcw lockout retransmit nr = [0, 0, push_bit 7 lockout OR push_bit 5 retransmit, nr]"

definition far_future :: "instant \<Rightarrow> instant" where
  "far_future now = now + from_secs 3600"

text \<open>\<open>tx.send(Some(word))\<close> and \<open>engine.tick(now)\<close>; \<open>engine.tick(now)\<close> with nothing sent.\<close>

definition send_tick :: "bytes \<Rightarrow> instant \<Rightarrow> cop1 \<Rightarrow> tc_frame list \<times> cop1" where
  "send_tick word now e = (case cop1_tick e now True (Some word) of (fs, _, e') \<Rightarrow> (fs, e'))"

definition idle_tick :: "bytes \<Rightarrow> instant \<Rightarrow> cop1 \<Rightarrow> tc_frame list \<times> cop1" where
  "idle_tick word now e = (case cop1_tick e now False (Some word) of (fs, _, e') \<Rightarrow> (fs, e'))"

definition activated :: "instant \<Rightarrow> cop1" where
  "activated now = snd (send_tick (clcw 0 0 0) now (snd (cop1_initialize make_engine)))"

definition one_sent :: "(nat \<Rightarrow> instant) \<Rightarrow> cop1" where
  "one_sent clock = snd (cop1_submit (activated (clock 0)) (clock 1) [1])"

definition cop1_transition_tests :: "(nat \<Rightarrow> instant) \<Rightarrow> unit_test list" where
  "cop1_transition_tests clock =
     [(''c1_initial_state_on_construction'', c_state make_engine = Initial),
      (''c2_initialize_transitions_to_initializing'',
       case cop1_initialize make_engine of (bc_frame, engine) \<Rightarrow>
         c_state engine = Initializing \<and> tf_type bc_frame = TypeBc \<and> tf_vc_id bc_frame = 0),
      (''c3_clean_clcw_in_initializing_transitions_to_active'', c_state (activated (clock 0)) = Active),
      (''c4_submit_in_active_emits_ad_frame'',
       case cop1_submit (activated (clock 0)) (clock 1) [0xAA, 0xBB] of (r, engine) \<Rightarrow>
         unwrapped r (\<lambda>frames. length frames = 1 \<and> tf_type (frames ! 0) = TypeAd \<and> tf_seq (frames ! 0) = 0
           \<and> tf_payload (frames ! 0) = [0xAA, 0xBB])
         \<and> unwrapped (fst (cop1_submit engine (clock 2) [0xCC])) (\<lambda>frames2. tf_seq (frames2 ! 0) = 1)),
      (''c5_clcw_retransmit_triggers_retransmit_without_wait'',
       case send_tick (clcw 0 1 0) (clock 2) (one_sent clock) of (frames, engine) \<Rightarrow>
         c_state engine = RetransmitWithoutWait \<and> length frames = 1 \<and> tf_type (frames ! 0) = TypeAd),
      (''c6_clean_clcw_in_retransmit_without_wait_returns_to_active'',
       c_state (snd (send_tick (clcw 0 0 1) (clock 3)
         (snd (send_tick (clcw 0 1 0) (clock 2) (one_sent clock))))) = Active),
      (''c7_t1_expiry_in_active_triggers_retransmit_with_wait'',
       case idle_tick (clcw 0 0 0) (far_future (clock 2)) (one_sent clock) of (frames, engine) \<Rightarrow>
         c_state engine = RetransmitWithWait \<and> length frames = 1 \<and> c_retx engine = 1),
      (''c8_clean_clcw_in_retransmit_with_wait_returns_to_active'',
       c_state (snd (send_tick (clcw 0 0 1) (clock 3)
         (snd (idle_tick (clcw 0 0 0) (far_future (clock 2)) (one_sent clock))))) = Active)]"

definition cop1_limit_tests :: "(nat \<Rightarrow> instant) \<Rightarrow> unit_test list" where
  "cop1_limit_tests clock =
     [(''c9_retransmit_without_wait_aborts_after_max_retransmits'',
       c_state (fold (\<lambda>i e. snd (send_tick (clcw 0 1 0) (clock (2 + i)) e))
         [0..<unat cop1_max_retransmit] (one_sent clock)) = Initial),
      (''c10_retransmit_with_wait_aborts_after_max_retransmits'',
       let base = clock 2 + from_secs 100 in
       c_state (fold (\<lambda>i e. snd (idle_tick (clcw 0 0 0) (base + from_secs (i * 100 + 100)) e))
         [0..<unat cop1_max_retransmit] (one_sent clock)) = Initial),
      (''c11_emergency_bd_returns_bd_frame_on_vc7'',
       let frame = emergency_bd [0xDE, 0xAD] in
       tf_type frame = TypeBd \<and> tf_vc_id frame = 7 \<and> tf_payload frame = [0xDE, 0xAD] \<and> tf_seq frame = 0),
      (''c12_stale_clcw_detected_after_3x_t1'',
       let t0 = clock 0; stale_now = t0 + from_millis 10 in
       c_last_stale (snd (idle_tick (clcw 0 0 0) stale_now (activated t0))) \<noteq> None),
      (''c13_submit_in_initial_returns_error'',
       unwrapped_err (fst (cop1_submit make_engine (clock 0) [1])) (\<lambda>err. err = NotInActiveState Initial)),
      (''c14_seq_before_handles_wrap_around'',
       seq_before 254 1 \<and> \<not> seq_before 1 254 \<and> \<not> seq_before 5 5)]"

lemmas engine_step_simps = send_tick_def idle_tick_def cop1_tick_def tick_ingest_def tick_clcw_def
  tick_timer_def tick_stale_def bump_or_abort_def abort_to_initial_def oldest_frame_def clcw_def
  cop1_consts seq_before_def duration_since_def Let_def word_le_nat_alt

lemma activated_eq: "activated now = make_engine\<lparr>c_state := Active, c_last_clcw := Some now\<rparr>"
  by (simp add: activated_def make_engine_def cop1_new_def cop1_initialize_def engine_step_simps from_millis_def)

lemma one_sent_eq:
  "one_sent clock = make_engine\<lparr>c_state := Active, c_last_clcw := Some (clock 0), c_vs := 1,
     c_window := [(0, [1])], c_t1_deadline := Some (clock 1 + from_millis 1)\<rparr>"
  by (simp add: one_sent_def activated_eq make_engine_def cop1_new_def cop1_submit_def cop1_consts)

lemma cop1_tests_pass:
  assumes "mono clock"
  shows "all_pass (cop1_transition_tests clock)" "all_pass (cop1_limit_tests clock)"
proof -
  have order: "clock 0 \<le> clock 1" "clock 1 \<le> clock 2" "clock 2 \<le> clock 3"
    using assms by (auto simp: monoD)
  show "all_pass (cop1_transition_tests clock)"
    using order
    by (simp add: all_pass_def cop1_transition_tests_def one_sent_eq activated_eq make_engine_def cop1_new_def
        cop1_initialize_def cop1_submit_def engine_step_simps from_millis_def far_future_def from_secs_def)
  show "all_pass (cop1_limit_tests clock)"
    using order
    by (simp add: all_pass_def cop1_limit_tests_def one_sent_eq activated_eq make_engine_def cop1_new_def
        cop1_submit_def engine_step_simps from_millis_def from_secs_def emergency_bd_def upt_rec)
qed

section \<open>Transfer frames\<close>

definition tc_framed :: "(bytes \<Rightarrow> u16) \<Rightarrow> tc_frame \<Rightarrow> tc_framer_error + bytes" where
  "tc_framed crc16 tc = tc_encode_frame crc16 (tc_framer_new 42) tc"

definition test_ad_frame :: "bytes \<Rightarrow> u8 \<Rightarrow> tc_frame" where
  "test_ad_frame payload sequence = \<lparr>tf_vc_id = 0, tf_type = TypeAd, tf_seq = sequence, tf_payload = payload\<rparr>"

definition tc_framer_tests :: "(bytes \<Rightarrow> u16) \<Rightarrow> unit_test list" where
  "tc_framer_tests crc16 =
     [(''f1_ad_frame_within_size_limit_with_valid_fecf'',
       unwrapped (tc_framed crc16 (test_ad_frame (replicate 10 0xAA) 0)) (\<lambda>bytes.
         length bytes \<le> tc_frame_max_bytes \<and> length bytes = 5 + 10 + 2 \<and> bytes ! 0 AND 0x20 = 0
         \<and> slice_be16 (drop (length bytes - 2) bytes) = Some (crc16 (take (length bytes - 2) bytes)))),
      (''f2_bd_frame_sets_bypass_flag_and_vc7'',
       unwrapped (tc_framed crc16 \<lparr>tf_vc_id = 7, tf_type = TypeBd, tf_seq = 0, tf_payload = [0xFF]\<rparr>) (\<lambda>bytes.
         bytes ! 0 AND 0x20 = 0x20 \<and> bytes ! 0 AND 0x10 = 0 \<and> drop_bit 2 (bytes ! 2) = 7)),
      (''f3_oversized_payload_returns_error'',
       unwrapped_err (tc_framed crc16 (test_ad_frame (replicate 506 0) 0)) (\<lambda>err. err = PayloadTooLarge 506)),
      (''f4_sequence_number_encoded_in_byte4'',
       unwrapped (tc_framed crc16 (test_ad_frame [0] 42)) (\<lambda>bytes. bytes ! 4 = 42)),
      (''f5_bc_frame_sets_bypass_and_cc_flags'',
       unwrapped (tc_framed crc16 \<lparr>tf_vc_id = 0, tf_type = TypeBc, tf_seq = 0, tf_payload = [0]\<rparr>) (\<lambda>bytes.
         bytes ! 0 AND 0x20 = 0x20 \<and> bytes ! 0 AND 0x10 = 0x10)),
      (''f6_spacecraft_id_encoded_correctly'',
       unwrapped (tc_framed crc16 (test_ad_frame [0] 0)) (\<lambda>bytes.
         let scid_hi = ucast (bytes ! 0 AND 3) :: u16; scid_lo = ucast (bytes ! 1) in
         push_bit 8 scid_hi OR scid_lo = 42)),
      (''f7_frame_length_field_is_total_minus_one'',
       unwrapped (tc_framed crc16 (test_ad_frame (replicate 20 0) 0)) (\<lambda>bytes.
         let encoded_hi = ucast (bytes ! 2 AND 3) :: u16; encoded_lo = ucast (bytes ! 3) in
         push_bit 8 encoded_hi OR encoded_lo = of_nat (length bytes - 1))),
      (''f8_max_payload_fits_exactly'',
       unwrapped (tc_framed crc16 (test_ad_frame (replicate 505 0) 0)) (\<lambda>bytes.
         length bytes = tc_frame_max_bytes))]"

lemma tc_framer_tests_pass: "all_pass (tc_framer_tests crc16)"
  by (simp add: all_pass_def tc_framer_tests_def tc_framed_def test_ad_frame_def tc_framer_new_def
      tc_encode_frame_def tc_frame_max_bytes_def Let_def)

section \<open>Telecommands\<close>

text \<open>\<open>TcBuilder::build(&intent, seq0(), t0()).unwrap()\<close> and \<open>SpacePacket::parse(&bytes).unwrap()\<close>.\<close>

definition seq0_t0_build :: "tc_intent \<Rightarrow> builder_error + bytes" where
  "seq0_t0_build intent =
     and_then (map_err Serialize (sc_new 0)) (\<lambda>seq. tc_build intent seq \<lparr>coarse = 0, fine = 0\<rparr>)"

definition tc_parsed :: "tc_intent \<Rightarrow> builder_error + bytes \<times> space_packet" where
  "tc_parsed intent =
     and_then (seq0_t0_build intent) (\<lambda>bytes.
       and_then (map_err Serialize (sp_parse bytes)) (\<lambda>k. Inr (bytes, k)))"

definition tc_builder_tests :: "unit_test list" where
  "tc_builder_tests =
     [(''b1_orbiter_set_mode_serializes_correctly'',
       unwrapped (tc_parsed (OrbiterSetMode 2 7)) (\<lambda>(bytes, k).
         apid_get (ph_apid (sp_primary k)) = 0x181 \<and> sh_func (sp_secondary k) = FuncCode 0x0100
         \<and> sp_user_data k = [2, 7] \<and> bytes ! 0 AND 0x10 \<noteq> 0)),
      (''b2_orbiter_adcs_target_q_encodes_quaternion_be'',
       unwrapped (tc_parsed (OrbiterAdcsTargetQ (1000000, - 1000000, 500000, - 500000) 1)) (\<lambda>(bytes, k).
         apid_get (ph_apid (sp_primary k)) = 0x182 \<and> sh_func (sp_secondary k) = FuncCode 0x0100
         \<and> length (sp_user_data k) = 18 \<and> slice_be32 (take 4 (sp_user_data k)) = Some 1000000
         \<and> sp_user_data k ! 16 = 1 \<and> sp_user_data k ! 17 = 0)),
      (''b3_orbiter_power_switch_encodes_confirm_magic'',
       unwrapped (tc_parsed (OrbiterPowerSwitch 2 True 0xC0DE)) (\<lambda>(bytes, k).
         apid_get (ph_apid (sp_primary k)) = 0x184 \<and> sh_func (sp_secondary k) = FuncCode 0x8100
         \<and> sp_user_data k ! 0 = 2 \<and> sp_user_data k ! 1 = 1
         \<and> slice_be16 (take 2 (drop 2 (sp_user_data k))) = Some 0xC0DE)),
      (''b4_cryobot_drill_rpm_rejects_excess_current'',
       unwrapped_err (seq0_t0_build (CryobotSetDrillRpm 100 1001 0xCB02)) (\<lambda>err.
         case err of ForbiddenParam _ \<Rightarrow> True | _ \<Rightarrow> False)),
      (''b5_cryobot_drill_rpm_accepts_max_current_at_limit'',
       unwrapped (tc_parsed (CryobotSetDrillRpm (- 50) 1000 0xCB02)) (\<lambda>(bytes, k).
         apid_get (ph_apid (sp_primary k)) = 0x440 \<and> sh_func (sp_secondary k) = FuncCode 0x8200
         \<and> slice_be16 (take 2 (sp_user_data k)) = Some (- 50))),
      (''b6_orbiter_event_filter_encodes_mask_be'',
       unwrapped (tc_parsed (OrbiterEventFilter 0 2 0xDEADBEEF)) (\<lambda>(bytes, k).
         apid_get (ph_apid (sp_primary k)) = 0x181 \<and> sh_func (sp_secondary k) = FuncCode 0x0200
         \<and> slice_be32 (take 4 (drop 2 (sp_user_data k))) = Some 0xDEADBEEF)),
      (''b7_cryobot_arm_encodes_confirm_magic'',
       unwrapped (tc_parsed (CryobotArm 0xCBA0)) (\<lambda>(bytes, k).
         apid_get (ph_apid (sp_primary k)) = 0x440 \<and> sh_func (sp_secondary k) = FuncCode 0x8000
         \<and> slice_be16 (take 2 (sp_user_data k)) = Some 0xCBA0))]"

lemma tc_parsed_eq:
  assumes "decompose intent = Inr (a, f, i, ud)"
    and "k = builder_packet (tc_packet a f ud (SequenceCount 0) \<lparr>coarse = 0, fine = 0\<rparr>) (FuncCode f) (InstanceId 1)"
  shows "tc_parsed intent = Inr (packet_image k, k)"
proof -
  let ?b = "tc_packet a f ud (SequenceCount 0) \<lparr>coarse = 0, fine = 0\<rparr>"
  note c = decompose_catalogue [OF assms(1)]
  have "builder_ok ?b"
    using catalogue_ok [OF c(1)] by (simp add: builder_ok_def tc_packet_def iid_ok_def sc_ok_def)
  then have "built ?b = Inr (packet_image k, k)"
    using c(3) by (simp add: built_packet assms(2) tc_packet_def)
  then show ?thesis
    by (auto simp: tc_parsed_def seq0_t0_build_def sc_new_def sc_max_def tc_build_eq assms(1) built_def
        and_then_Inr_iff)
qed

lemma tc_builder_tests_pass: "all_pass tc_builder_tests"
  by (simp add: all_pass_def tc_builder_tests_def tc_parsed_eq cryobot_drill_max_current_def
      seq0_t0_build_def sc_new_def sc_max_def tc_build_eq image_simps tc_packet_def bool_u8_def from_be16_def from_be32_def)
section \<open>Properties\<close>

text \<open>
  The models of the FOP-1 engine, the transfer frame encoder and the telecommand builder pass the
  unit tests of \<open>uplink\<close>, for every CRC routine and every clock that does not run backwards.
\<close>

theorem uplink_tests_pass:
  assumes "mono clock"
  shows "all_pass (cop1_transition_tests clock @ cop1_limit_tests clock @ tc_framer_tests crc16
    @ tc_builder_tests)"
  unfolding all_pass_append
  by (intro conjI cop1_tests_pass [OF assms] tc_framer_tests_pass tc_builder_tests_pass)

end
