(* ===== verification/Tests_Cfdp.thy ===== *)
theory Tests_Cfdp
  imports Demo_Cfdp Tests_Wire
begin

text \<open>
  The unit tests of \<open>cfdp/class1.rs\<close> and \<open>cfdp/adapter.rs\<close>, run on the model.  The temporary directory
  is the argument \<open>dir\<close>, on a disk without files on which every path can be opened; the CRC engine is
  the argument \<open>crc32\<close>, which must not give two payloads the checksums that the tests call wrong.
\<close>

section \<open>Helpers\<close>

definition make_rx :: "string \<Rightarrow> nat \<Rightarrow> cfdp_world" where
  "make_rx dir owlt_secs = (class1_new (from_secs owlt_secs) dir, example_disk)"

definition build_pdu :: "bool \<Rightarrow> u8 \<Rightarrow> u8 \<Rightarrow> bytes \<Rightarrow> bytes" where
  "build_pdu is_file_data source_id seq_num data_field =
     [if is_file_data then 0x14 else 0x04] @ be16 (of_nat (3 + length data_field))
     @ [0, source_id, seq_num, 1] @ data_field"

definition test_metadata_pdu :: "u8 \<Rightarrow> u8 \<Rightarrow> u32 \<Rightarrow> string \<Rightarrow> bytes" where
  "test_metadata_pdu source_id seq_num file_size dest =
     build_pdu False source_id seq_num
       ([dir_metadata, 0] @ be32 file_size @ [0] @ map char_byte dest @ [0])"

definition test_file_data_pdu :: "u8 \<Rightarrow> u8 \<Rightarrow> u32 \<Rightarrow> bytes \<Rightarrow> bytes" where
  "test_file_data_pdu source_id seq_num offset data = build_pdu True source_id seq_num (be32 offset @ data)"

definition test_eof_pdu :: "u8 \<Rightarrow> u8 \<Rightarrow> u32 \<Rightarrow> u32 \<Rightarrow> bytes" where
  "test_eof_pdu source_id seq_num crc file_size =
     build_pdu False source_id seq_num ([dir_eof, push_bit 4 cond_no_error] @ be32 crc @ be32 file_size)"

definition make_tx_id :: "u8 \<Rightarrow> u8 \<Rightarrow> u64" where
  "make_tx_id source_id seq_num = push_bit 32 (ucast source_id) OR ucast seq_num"

section \<open>The tests\<close>

definition class1_pdu_tests :: "string \<Rightarrow> unit_test list" where
  "class1_pdu_tests dir =
     [(''rejects_empty_pdu'',
       case make_rx dir 1 of (r, s) \<Rightarrow> case on_pdu r s [] of (res, r, s) \<Rightarrow>
         (case res of Inl (Parse _) \<Rightarrow> True | _ \<Rightarrow> False) \<and> active_transactions r = []),
      (''rejects_truncated_fixed_header'',
       case make_rx dir 1 of (r, s) \<Rightarrow> case on_pdu r s [0x04, 0, 0x03] of (res, _) \<Rightarrow>
         case res of Inl (Parse _) \<Rightarrow> True | _ \<Rightarrow> False),
      (''metadata_pdu_opens_transaction'',
       returned (expect_pdus (make_rx dir 1) [test_metadata_pdu 1 1 5 ''out.bin'']) (\<lambda>(r, s).
         length (active_transactions r) = 1 \<and> make_tx_id 1 1 \<in> set (active_transactions r))),
      (''file_data_pdu_opens_transaction'',
       returned (expect_pdus (make_rx dir 1) [test_file_data_pdu 1 2 0 (map char_byte ''hello'')]) (\<lambda>(r, s).
         length (active_transactions r) = 1)),
      (''seventeenth_transaction_rejected'',
       returned (expect_pdus (make_rx dir 1)
           (map (\<lambda>n. test_metadata_pdu 1 (of_nat n) 0 ''f.bin'') [1..<17])) (\<lambda>(r, s).
         length (active_transactions r) = 16
         \<and> fst (on_pdu r s (test_metadata_pdu 1 17 0 ''g.bin'')) = Inl CapacityExceeded))]"

definition class1_transfer_tests :: "(bytes \<Rightarrow> u32) \<Rightarrow> string \<Rightarrow> unit_test list" where
  "class1_transfer_tests crc32 dir =
     [(''happy_path_complete_transfer'',
       let payload = map char_byte ''SAKURA-II telemetry data''; file_size = of_nat (length payload) in
       returned (expect_pdus (make_rx dir 1)
           [test_metadata_pdu 2 1 file_size ''tlm.bin'', test_file_data_pdu 2 1 0 payload,
            test_eof_pdu 2 1 (crc32 payload) file_size]) (\<lambda>(r, s).
         case finalize_transaction crc32 r s (make_tx_id 2 1) of (out, r, s) \<Rightarrow>
         case out of
           Inr (Completed _ path n) \<Rightarrow> n = ucast file_size \<and> fs_read s path = Inr payload
         | _ \<Rightarrow> False)),
      (''crc_mismatch_returns_error_and_retains_partial'',
       let payload = map char_byte ''bad data''; wrong_crc = 0xDEADBEEF; i = make_tx_id 3 1 in
       returned (expect_pdus (make_rx dir 1)
           [test_metadata_pdu 3 1 (of_nat (length payload)) ''x.bin'', test_file_data_pdu 3 1 0 payload,
            test_eof_pdu 3 1 wrong_crc (of_nat (length payload))]) (\<lambda>(r, s).
         case finalize_transaction crc32 r s i of (out, r, s) \<Rightarrow>
           (case out of Inl (CrcMismatch _) \<Rightarrow> True | _ \<Rightarrow> False)
           \<and> fs_files s (path_join dir (dec_string (unat i) @ ''.partial'')) \<noteq> None)),
      (''finalize_unknown_transaction'',
       case make_rx dir 1 of (r, s) \<Rightarrow> case finalize_transaction crc32 r s 9999 of (out, _) \<Rightarrow>
         case out of Inl (UnknownTransaction _) \<Rightarrow> True | _ \<Rightarrow> False)]"

definition class1_table_tests :: "string \<Rightarrow> unit_test list" where
  "class1_table_tests dir =
     [(''poll_evicts_timed_out_transaction'',
       returned (expect_pdus (make_rx dir 1) [test_metadata_pdu 4 1 0 ''t.bin'']) (\<lambda>(r, s).
         length (active_transactions r) = 1
         \<and> (case cfdp_poll r \<lparr>coarse = 11, fine = 0\<rparr> of (outcomes, r) \<Rightarrow>
              length outcomes = 1
              \<and> (case outcomes of Abandoned _ _ _ # _ \<Rightarrow> True | _ \<Rightarrow> False) \<and> active_transactions r = []))),
      (''poll_does_not_evict_fresh_transaction'',
       returned (expect_pdus (make_rx dir 60) [test_metadata_pdu 5 1 0 ''u.bin'']) (\<lambda>(r, s).
         case cfdp_poll r \<lparr>coarse = 5, fine = 0\<rparr> of (outcomes, r) \<Rightarrow>
           outcomes = [] \<and> length (active_transactions r) = 1)),
      (''poll_empty_table_no_panic'', fst (cfdp_poll (fst (make_rx dir 1)) \<lparr>coarse = 9999, fine = 0\<rparr>) = []),
      (''cancel_unknown_transaction'',
       unwrapped_err (fst (cfdp_cancel (fst (make_rx dir 1)) 42)) (\<lambda>e.
         case e of UnknownTransaction _ \<Rightarrow> True | _ \<Rightarrow> False)),
      (''cancel_removes_active_transaction'',
       returned (expect_pdus (make_rx dir 1) [test_metadata_pdu 6 1 0 ''c.bin'']) (\<lambda>(r, s).
         case cfdp_cancel r (make_tx_id 6 1) of (res, r) \<Rightarrow>
           unwrapped res (\<lambda>_. active_transactions r = []))),
      (''send_file_stub_returns_ok'',
       case make_rx dir 1 of (r, s) \<Rightarrow>
         unwrapped (fs_write s (path_join dir ''dummy.bin'') (map char_byte ''data'')) (\<lambda>s.
           case fst (send_file r) of Inr _ \<Rightarrow> True | Inl _ \<Rightarrow> False)),
      (''active_transactions_lists_all_open'',
       returned (expect_pdus (make_rx dir 1)
           [test_metadata_pdu 7 1 0 ''a.bin'', test_metadata_pdu 7 2 0 ''b.bin'']) (\<lambda>(r, s).
         length (active_transactions r) = 2
         \<and> {make_tx_id 7 1, make_tx_id 7 2} \<subseteq> set (active_transactions r)))]"

definition adapter_tests :: "unit_test list" where
  "adapter_tests =
     [(''unix_epoch_maps_to_zero'', tai_to_unix_secs \<lparr>coarse = of_nat tai_unix_offset_secs, fine = 0\<rparr> = 0),
      (''known_date_roundtrip'',
       let unix_2000 = 946684800 in
       tai_to_unix_secs \<lparr>coarse = of_nat (unix_2000 + tai_unix_offset_secs), fine = 0\<rparr> = unix_2000),
      (''pre_unix_epoch_saturates_to_zero'', tai_to_unix_secs \<lparr>coarse = 0, fine = 0\<rparr> = 0),
      (''max_coarse_no_overflow'',
       tai_to_unix_secs \<lparr>coarse = - 1, fine = - 1\<rparr> = unat (- 1 :: u32) - tai_unix_offset_secs)]"

section \<open>The tests pass\<close>

lemma build_pdu_fields: "pdu_fields (build_pdu f src seq d) = Inr (f, demo_tx_id src seq, d)"
  by (simp add: pdu_fields_def build_pdu_def be16_def decode_fixed_header_def get_at_def fixed_hdr_len_def
      pdu_type_file_data_mask_def extract_transaction_id_def get_range_def get_from_def
      cfdp_read_be_u64_def demo_tx_id_def)

text \<open>The receiver sees no difference between these PDUs and those of the demonstration.\<close>

lemma same_pdus:
  "on_pdu r s (test_file_data_pdu src seq offset data) = on_pdu r s (file_data_pdu src seq offset data)"
  "on_pdu r s (test_eof_pdu src seq crc n) = on_pdu r s (eof_pdu src seq crc n)"
  "on_pdu r s (test_metadata_pdu src seq n name) = on_pdu r s (metadata_pdu src seq n name)"
  by (simp_all add: on_pdu_def build_pdu_fields header_fields test_file_data_pdu_def test_eof_pdu_def
      test_metadata_pdu_def file_data_pdu_def eof_pdu_def metadata_pdu_def dir_metadata_def dir_eof_def
      cond_no_error_def)

lemma test_names:
  "sendable ''out.bin''" "sendable ''f.bin''" "sendable ''g.bin''" "sendable ''tlm.bin''" "sendable ''x.bin''"
  "sendable ''t.bin''" "sendable ''u.bin''" "sendable ''c.bin''" "sendable ''a.bin''" "sendable ''b.bin''"
  by code_simp+

lemma make_tx_id_eq: "make_tx_id src seq = demo_tx_id src seq"
  by (simp add: make_tx_id_def demo_tx_id_def)

lemmas class1_eval = downlink_eval same_pdus test_names make_tx_id_eq make_rx_def class1_new_def
  example_disk_def active_transactions_def

lemma adapter_tests_pass: "all_pass adapter_tests"
  by (simp add: all_pass_def adapter_tests_def tai_to_unix_secs_def tai_unix_offset_secs_def)

lemma class1_table_tests_pass: "all_pass (class1_table_tests dir)"
  by (simp add: all_pass_def class1_table_tests_def class1_eval demo_tx_id_def cfdp_poll_def timed_out_def
      timeout_secs_def cfdp_timeout_owlt_mult_def as_secs_def from_secs_def cfdp_cancel_def send_file_def
      fs_write_def)

lemma class1_transfer_tests_pass:
  assumes "crc32 (map char_byte ''bad data'') \<noteq> 0xDEADBEEF"
  shows "all_pass (class1_transfer_tests crc32 dir)"
  using assms
  by (simp add: all_pass_def class1_transfer_tests_def class1_eval demo_tx_id_def write_at_def Let_def
      partial_path_for_def)

lemma tx_id_seq: "(ucast (demo_tx_id src q) :: u8) = q"
  by (intro bit_word_eqI) (auto simp: demo_tx_id_def bit_simps)

lemma opening_metadata:
  assumes "distinct qs" "length (c1_active r) + length qs \<le> 16" "sendable name"
    and "\<forall>q \<in> set qs. map_of (c1_active r) (demo_tx_id src q) = None"
  shows "\<exists>r'. expect_pdus (r, s) (map (\<lambda>q. test_metadata_pdu src q n name) qs) = Returned (r', s)
    \<and> length (c1_active r') = length (c1_active r) + length qs
    \<and> (\<forall>i. map_of (c1_active r') i = None \<longleftrightarrow>
         map_of (c1_active r) i = None \<and> i \<notin> demo_tx_id src ` set qs)"
  using assms
proof (induction qs arbitrary: r)
  case (Cons q qs)
  let ?st = "(new_state r (demo_tx_id src q))\<lparr>ts_metadata := Some \<lparr>fm_dest_path = name, fm_file_size = ucast n\<rparr>\<rparr>"
  let ?r1 = "set_transaction r (demo_tx_id src q) ?st"
  have on: "on_pdu r s (test_metadata_pdu src q n name) = (Inr (), ?r1, s)"
    using Cons.prems
    by (simp add: same_pdus on_metadata open_transaction_def cfdp_max_transactions_def set_transaction_def
        update_conv' AList.update_Some_unfold)
  have active: "map_of (c1_active ?r1) = (map_of (c1_active r))(demo_tx_id src q \<mapsto> ?st)"
    by (simp add: set_transaction_def update_conv')
  have len: "length (c1_active ?r1) = Suc (length (c1_active r))"
    using arg_cong [OF AList.update_keys [of "demo_tx_id src q" ?st "c1_active r"], of length] Cons.prems(4)
    by (auto simp: set_transaction_def map_of_eq_None_iff)
  have inj: "demo_tx_id src p = demo_tx_id src q \<longleftrightarrow> p = q" for p
    by (metis tx_id_seq)
  have room: "length (c1_active ?r1) + length qs \<le> 16"
    "\<forall>p \<in> set qs. map_of (c1_active ?r1) (demo_tx_id src p) = None" "distinct qs"
    using Cons.prems by (auto simp: len active inj)
  obtain r' where r': "expect_pdus (?r1, s) (map (\<lambda>q. test_metadata_pdu src q n name) qs) = Returned (r', s)"
    "length (c1_active r') = length (c1_active ?r1) + length qs"
    "\<And>i. map_of (c1_active r') i = None \<longleftrightarrow>
       map_of (c1_active ?r1) i = None \<and> i \<notin> demo_tx_id src ` set qs"
    using Cons.IH [OF room(3,1) Cons.prems(3) room(2)] by blast
  have "expect_pdus (r, s) (map (\<lambda>q. test_metadata_pdu src q n name) (q # qs)) = Returned (r', s)"
    by (simp add: on r'(1))
  moreover have "length (c1_active r') = length (c1_active r) + length (q # qs)"
    by (simp add: r'(2) len)
  moreover have "map_of (c1_active r') i = None \<longleftrightarrow>
      map_of (c1_active r) i = None \<and> i \<notin> demo_tx_id src ` set (q # qs)" for i
    by (auto simp: r'(3) active)
  ultimately show ?case by blast
qed simp

lemma short_pdus: "length pdu < 4 \<Longrightarrow> \<exists>m. on_pdu r s pdu = (Inl (Parse m), r, s)"
  by (auto simp: on_pdu_def pdu_fields_def decode_fixed_header_def get_at_def)

lemma class1_pdu_tests_pass: "all_pass (class1_pdu_tests dir)"
proof -
  let ?r = "class1_new (from_secs 1) dir"
  define qs :: "u8 list" where "qs = map of_nat [1..<17]"
  have qs: "distinct qs" "17 \<notin> set qs" "length qs = 16" unfolding qs_def by code_simp+
  have sent: "map (\<lambda>n. test_metadata_pdu 1 (of_nat n) 0 ''f.bin'') [1..<17] =
      map (\<lambda>q. test_metadata_pdu 1 q 0 ''f.bin'') qs"
    unfolding qs_def map_map comp_def ..
  have "length (c1_active ?r) + length qs \<le> 16" "\<forall>q \<in> set qs. map_of (c1_active ?r) (demo_tx_id 1 q) = None"
    by (simp_all add: qs class1_new_def)
  from opening_metadata [OF qs(1) this(1) test_names(2) this(2), of example_disk 0]
  obtain r' where r': "expect_pdus (?r, example_disk) (map (\<lambda>q. test_metadata_pdu 1 q 0 ''f.bin'') qs)
      = Returned (r', example_disk)" "length (c1_active r') = 16"
    "\<And>i. map_of (c1_active r') i = None \<longleftrightarrow> i \<notin> demo_tx_id 1 ` set qs"
    by (auto simp: class1_new_def qs)
  have "demo_tx_id 1 17 \<notin> demo_tx_id 1 ` set qs"
    using qs(2) tx_id_seq by (metis imageE)
  then have "map_of (c1_active r') (demo_tx_id 1 17) = None" using r'(3) by blast
  then have full: "fst (on_pdu r' example_disk (test_metadata_pdu 1 17 0 ''g.bin'')) = Inl CapacityExceeded"
    by (simp add: same_pdus on_metadata test_names open_transaction_def cfdp_max_transactions_def r'(2))
  obtain m1 m2 where short: "on_pdu ?r example_disk [] = (Inl (Parse m1), ?r, example_disk)"
    "on_pdu ?r example_disk [0x04, 0, 0x03] = (Inl (Parse m2), ?r, example_disk)"
    using short_pdus [of "[]" ?r example_disk] short_pdus [of "[0x04, 0, 0x03]" ?r example_disk] by auto
  show ?thesis
    unfolding class1_pdu_tests_def sent
    by (simp add: all_pass_def make_rx_def active_transactions_def r'(1,2) full short del: One_nat_def)
      (simp add: class1_eval demo_tx_id_def)
qed

section \<open>Properties\<close>

text \<open>
  The model of the CFDP receiver passes the unit tests of its module, in any directory and for
  every checksum under which the payload of the corruption test does not have the wrong checksum.
\<close>

theorem cfdp_tests_pass:
  assumes "crc32 (map char_byte ''bad data'') \<noteq> 0xDEADBEEF"
  shows "all_pass (class1_pdu_tests dir @ class1_transfer_tests crc32 dir @ class1_table_tests dir
    @ adapter_tests)"
  unfolding all_pass_append
  by (intro conjI class1_pdu_tests_pass class1_transfer_tests_pass [where ?crc32.0 = crc32, OF assms] class1_table_tests_pass
      adapter_tests_pass)

end
