(* ===== verification/Tests_Mfile.thy ===== *)
theory Tests_Mfile
  imports Demo_Mfile Tests_Wire
begin

text \<open>
  The unit tests of \<open>mfile/mod.rs\<close>, run on the model.  The temporary directory is the argument
  \<open>dir\<close>, on a disk without files on which every path can be opened, and memory is granted; the CRC
  engine is the argument \<open>crc32\<close>, which must not give two payloads the checksums that the tests call
  wrong.
\<close>

section \<open>Helpers\<close>

definition make_assembler :: "string \<Rightarrow> nat \<Rightarrow> nat \<Rightarrow> demo_world" where
  "make_assembler dir owlt_secs max_ram_mb =
     (assembler_new (from_secs owlt_secs) dir max_ram_mb, empty_disk)"

definition make_chunk_frame ::
  "(bytes \<Rightarrow> u32) \<Rightarrow> u32 \<Rightarrow> u64 \<Rightarrow> u32 \<Rightarrow> u32 \<Rightarrow> u32 \<Rightarrow> u32 \<Rightarrow> bytes \<Rightarrow> bytes" where
  "make_chunk_frame crc32 transaction_id total_size_bytes total_chunks crc32_full_file chunk_index
       last_chunk_index payload =
     (let chunk_len = of_nat (length payload) :: u16; crc32_sent = crc32 payload in
      be32 transaction_id @ be64 total_size_bytes @ be32 total_chunks @ be32 crc32_full_file
      @ be32 chunk_index @ be16 chunk_len @ be32 last_chunk_index @ be32 crc32_sent @ payload)"

definition single_chunk_frame :: "(bytes \<Rightarrow> u32) \<Rightarrow> u32 \<Rightarrow> bytes \<Rightarrow> bytes" where
  "single_chunk_frame crc32 transaction_id payload =
     make_chunk_frame crc32 transaction_id (of_nat (length payload)) 1 (crc32 payload) 0 0 payload"

text \<open>\<open>asm.on_chunk(&frame)\<close> for one frame after another, with the results.\<close>

definition chunks_run ::
  "(bytes \<Rightarrow> u32) \<Rightarrow> demo_world \<Rightarrow> bytes list
     \<Rightarrow> ((mfile_error + assembly_outcome option) list \<times> assembler \<times> fs) exec" where
  "chunks_run crc32 w frames = mfile_run crc32 (\<lambda>_. True) (fst w) (snd w) frames"

definition multi_chunk_frame :: "(bytes \<Rightarrow> u32) \<Rightarrow> u32 \<Rightarrow> bytes list \<Rightarrow> nat \<Rightarrow> bytes" where
  "multi_chunk_frame crc32 transaction_id chunks i =
     (let full = concat chunks; total = of_nat (length chunks) in
      make_chunk_frame crc32 transaction_id (of_nat (length full)) total (crc32 full) (of_nat i) (total - 1)
        (chunks ! i))"

section \<open>The tests\<close>

definition assembly_tests :: "(bytes \<Rightarrow> u32) \<Rightarrow> string \<Rightarrow> unit_test list" where
  "assembly_tests crc32 dir =
     [(''single_chunk_happy_path'',
       let payload = map char_byte ''SAKURA-II surface asset data'' in
       returned (chunks_run crc32 (make_assembler dir 1 16) [single_chunk_frame crc32 1 payload]) (\<lambda>(rs, m, s).
         case rs of
           [Inr (Some (Complete i path n))] \<Rightarrow>
             i = 1 \<and> n = length payload \<and> fs_read s path = Inr payload \<and> mfile_active_count m = 0
         | _ \<Rightarrow> False)),
      (''multi_chunk_in_order'',
       let chunks = map (map char_byte) [''chunk-0-data'', ''chunk-1-data'', ''chunk-2-data'']; full = concat chunks in
       returned (chunks_run crc32 (make_assembler dir 1 16)
           (map (multi_chunk_frame crc32 2 chunks) [0, 1, 2])) (\<lambda>(rs, m, s).
         case rs of
           [Inr None, Inr None, Inr (Some (Complete _ path n))] \<Rightarrow> n = length full \<and> fs_read s path = Inr full
         | _ \<Rightarrow> False)),
      (''multi_chunk_out_of_order'',
       let chunks = map (map char_byte) [''alpha'', ''beta-'', ''gamma'']; full = concat chunks in
       returned (chunks_run crc32 (make_assembler dir 1 16)
           (map (multi_chunk_frame crc32 3 chunks) [2, 1, 0])) (\<lambda>(rs, m, s).
         case rs of
           [Inr None, Inr None, Inr (Some (Complete _ path n))] \<Rightarrow> n = length full \<and> fs_read s path = Inr full
         | _ \<Rightarrow> False))]"

definition duplicate_tests :: "(bytes \<Rightarrow> u32) \<Rightarrow> string \<Rightarrow> unit_test list" where
  "duplicate_tests crc32 dir =
     [(''duplicate_chunk_matching_content'',
       let payload = map char_byte ''idempotent'';
           frame = make_chunk_frame crc32 4 (of_nat (length payload)) 2 (crc32 payload) 0 1 payload in
       returned (chunks_run crc32 (make_assembler dir 1 16) [frame, frame]) (\<lambda>(rs, m, s).
         (case rs of [Inr _, Inr None] \<Rightarrow> True | _ \<Rightarrow> False)
         \<and> mfile_dup_ok_total m = 1 \<and> mfile_dup_mismatch_total m = 0)),
      (''duplicate_chunk_differing_content'',
       let original = map char_byte ''first-content-!!''; impostor = map char_byte ''tampered-content'';
           frame1 = make_chunk_frame crc32 5 (of_nat (length original)) 2 (crc32 original) 0 1 original;
           frame2 = make_chunk_frame crc32 5 (of_nat (length original)) 2 (crc32 original) 0 1 impostor in
       returned (chunks_run crc32 (make_assembler dir 1 16) [frame1, frame2]) (\<lambda>(rs, m, s).
         (case rs of [Inr _, Inr None] \<Rightarrow> True | _ \<Rightarrow> False)
         \<and> mfile_dup_mismatch_total m = 1 \<and> mfile_dup_ok_total m = 0
         \<and> (case map_of (as_active m) 5 of
              None \<Rightarrow> False | Some tx \<Rightarrow> map_of (tx_chunks tx) 0 = Some original)))]"

definition eviction_tests :: "(bytes \<Rightarrow> u32) \<Rightarrow> string \<Rightarrow> unit_test list" where
  "eviction_tests crc32 dir =
     [(''timeout_eviction_via_poll'',
       let payload = map char_byte ''partial-data'';
           frame = make_chunk_frame crc32 6 (of_nat (length payload) * 2) 2 0xDEADBEEF 0 1 payload in
       returned (chunks_run crc32 (make_assembler dir 1 16) [frame]) (\<lambda>(rs, m, s).
         (case rs of [Inr _] \<Rightarrow> True | _ \<Rightarrow> False) \<and> mfile_active_count m = 1
         \<and> returned (mfile_poll m s \<lparr>coarse = 11, fine = 0\<rparr>) (\<lambda>(outcomes, m, s).
             (case outcomes of
                [Incomplete i path gap_count] \<Rightarrow> i = 6 \<and> fs_files s path \<noteq> None \<and> gap_count = 1
              | _ \<Rightarrow> False)
             \<and> mfile_active_count m = 0))),
      (''ram_cap_breach_evicts_oldest'',
       let p1 = map char_byte ''first-tx-data''; p2 = map char_byte ''second-tx-data'';
           f1 = make_chunk_frame crc32 10 (of_nat (length p1)) 2 (crc32 p1) 0 1 p1;
           f2 = make_chunk_frame crc32 11 (of_nat (length p2)) 2 (crc32 p2) 0 1 p2 in
       returned (chunks_run crc32 (make_assembler dir 1 0) [f1, f2]) (\<lambda>(rs, m, s).
         (case rs of [Inr _, Inr _] \<Rightarrow> True | _ \<Rightarrow> False)
         \<and> map_of (as_active m) 10 = None \<and> map_of (as_active m) 11 \<noteq> None))]"

definition refusal_tests :: "(bytes \<Rightarrow> u32) \<Rightarrow> string \<Rightarrow> unit_test list" where
  "refusal_tests crc32 dir =
     [(''too_short_header'',
       returned (chunks_run crc32 (make_assembler dir 1 16) [replicate 10 0]) (\<lambda>(rs, _). rs = [Inl TooShort])),
      (''chunk_len_exceeded'',
       let frame = replicate mfile_header_len 0; over = of_nat (mfile_chunk_max_bytes + 1) :: u16;
           frame = take 24 frame @ be16 over @ drop 26 frame in
       returned (chunks_run crc32 (make_assembler dir 1 16) [frame]) (\<lambda>(rs, _). rs = [Inl (ChunkLenExceeded 1025)])),
      (''per_chunk_crc_mismatch'',
       let payload = map char_byte ''real data'';
           frame = make_chunk_frame crc32 20 (of_nat (length payload)) 1 (crc32 payload) 0 0 payload;
           frame = take 30 frame @ be32 0x0BADC0DE @ drop 34 frame in
       returned (chunks_run crc32 (make_assembler dir 1 16) [frame]) (\<lambda>(rs, _).
         case rs of [Inl (ChunkCrcMismatch _ _ _)] \<Rightarrow> True | _ \<Rightarrow> False)),
      (''full_file_crc_mismatch'',
       let payload = map char_byte ''some data'';
           frame = make_chunk_frame crc32 30 (of_nat (length payload)) 1 0xFFFFFFFF 0 0 payload in
       returned (chunks_run crc32 (make_assembler dir 1 16) [frame]) (\<lambda>(rs, m, s).
         case rs of [Inr (Some (Incomplete i path _))] \<Rightarrow> i = 30 \<and> fs_files s path \<noteq> None | _ \<Rightarrow> False)),
      (''counter_accessors'',
       let asm = fst (make_assembler dir 1 16); payload = map char_byte ''data'';
           frame = make_chunk_frame crc32 99 (of_nat (length payload)) 2 (crc32 payload) 0 1 payload in
       mfile_active_count asm = 0 \<and> mfile_dup_ok_total asm = 0 \<and> mfile_dup_mismatch_total asm = 0
       \<and> returned (chunks_run crc32 (make_assembler dir 1 16) [frame]) (\<lambda>(rs, m, s).
           (case rs of [Inr _] \<Rightarrow> True | _ \<Rightarrow> False) \<and> mfile_active_count m = 1))]"

section \<open>The tests pass\<close>

text \<open>The frames of the tests have the layout of those of the demonstration.\<close>

lemma test_frame_build:
  "make_chunk_frame crc32 i sz n crc k l payload =
     build_chunk crc32 \<lparr>cd_tx_id = i, cd_total_size = sz, cd_total_chunks = n, cd_file_crc32 = crc,
       cd_chunk_index = k, cd_last_chunk_index = l, cd_payload = payload\<rparr>"
  by (simp add: make_chunk_frame_def build_chunk_def)

lemma test_assembler: "make_assembler dir owlt mb =
    (\<lparr>as_owlt_secs = of_nat owlt, as_output_dir = dir, as_max_ram_bytes = mb * 1048576, as_active = [],
      as_total_ram_bytes = 0, as_dup_ok_total = 0, as_dup_mismatch_total = 0\<rparr>, empty_disk)"
  by (simp add: make_assembler_def assembler_new_def as_secs_def from_secs_def)

lemmas mfile_eval = assemble_eval test_frame_build test_assembler chunks_run_def Let_def empty_disk_def
  mfile_active_count_def mfile_dup_ok_total_def mfile_dup_mismatch_total_def fs_read_def

lemma assembly_tests_pass: "all_pass (assembly_tests crc32 dir)"
  by (simp add: all_pass_def assembly_tests_def mfile_eval single_chunk_frame_def multi_chunk_frame_def)

lemma duplicate_tests_pass: "all_pass (duplicate_tests crc32 dir)"
proof -
  have "map char_byte ''first-content-!!'' \<noteq> map char_byte ''tampered-content''" by code_simp
  then show ?thesis
    by (simp add: all_pass_def duplicate_tests_def mfile_eval)
qed

lemma eviction_tests_pass: "all_pass (eviction_tests crc32 dir)"
  by (simp add: all_pass_def eviction_tests_def mfile_eval mfile_poll_def mfile_abandon_def)

lemma too_short: "length raw < 34 \<Longrightarrow> parse_chunk crc32 raw = Inl TooShort"
  by (simp add: parse_chunk_def mfile_header_len_def)

text \<open>Overwriting the checksum field of a chunk.\<close>

lemma corrupted_parses:
  assumes "length (cd_payload d) \<le> 1024" "crc32 (cd_payload d) \<noteq> w"
  shows "parse_chunk crc32 (take 30 (build_chunk crc32 d) @ be32 w @ drop 34 (build_chunk crc32 d)) =
    Inl (ChunkCrcMismatch (cd_tx_id d) w (crc32 (cd_payload d)))"
proof -
  have len: "unat (of_nat (length (cd_payload d)) :: u16) = length (cd_payload d)"
    using assms(1) by (simp add: unat_of_nat)
  show ?thesis
    using assms
    by (simp add: parse_chunk_def build_chunk_def Let_def mfile_header_len_def read_u32_be_def
        read_u64_be_def read_u16_be_def get_range_def ok_or_def and_then_def len mfile_chunk_max_bytes_def)
qed

lemma refusal_tests_pass:
  assumes "crc32 (map char_byte ''real data'') \<noteq> 0x0BADC0DE" "crc32 (map char_byte ''some data'') \<noteq> 0xFFFFFFFF"
  shows "all_pass (refusal_tests crc32 dir)"
proof -
  have zeros: "replicate 4 (0 :: u8) = [0, 0, 0, 0]" "replicate 8 (0 :: u8) = [0, 0, 0, 0, 0, 0, 0, 0]"
    by (simp_all add: numeral_eq_Suc)
  have overlong: "parse_chunk crc32 (replicate 24 0 @ be16 1025 @ replicate 8 0) =
      Inl (ChunkLenExceeded 1025)"
    by (simp add: parse_chunk_def mfile_header_len_def read_u32_be_def read_u64_be_def read_u16_be_def
        get_range_def mfile_chunk_max_bytes_def zeros)
  show ?thesis
    using assms overlong
    by (simp add: all_pass_def refusal_tests_def mfile_eval too_short corrupted_parses
        mfile_header_len_def mfile_chunk_max_bytes_def)
qed

section \<open>Properties\<close>

text \<open>
  The model of the mission file assembler passes the unit tests of its module, in any directory and
  for every checksum that does not give the payloads of the two corruption tests their wrong values.
\<close>

theorem mfile_tests_pass:
  assumes "crc32 (map char_byte ''real data'') \<noteq> 0x0BADC0DE" "crc32 (map char_byte ''some data'') \<noteq> 0xFFFFFFFF"
  shows "all_pass (assembly_tests crc32 dir @ duplicate_tests crc32 dir @ eviction_tests crc32 dir
    @ refusal_tests crc32 dir)"
  unfolding all_pass_append
  by (intro conjI assembly_tests_pass duplicate_tests_pass eviction_tests_pass refusal_tests_pass [OF assms])

end
