(* ===== verification/Tests_Main.thy ===== *)
theory Tests_Main
  imports Pipeline_Burst Demo_Pipeline Tests_Wire
begin

text \<open>
  The unit tests of \<open>main.rs\<close>.  The end-to-end test sends nine packets through the tasks of \<open>main\<close> and
  waits for them to settle; here every run of the task graph that has come to rest is considered.
  The CRC engine is the argument \<open>crc16\<close>.
\<close>

section \<open>Header tests\<close>

definition header_tests :: "unit_test list" where
  "header_tests =
     [(''test_primary_header_decode_replaces_local_parser'',
       unwrapped (primary_decode [0x09, 0x23, 0xC0, 0x01, 0x00, 0x04]) (\<lambda>hdr.
         apid_get (ph_apid hdr) = 0x0123 \<and> ph_seq hdr = SequenceCount 1 \<and> ph_len hdr = PacketDataLength 4)),
      (''test_too_short_returns_err'', \<not> is_ok (primary_decode (replicate 5 0x09))),
      (''test_invalid_version_returns_err'', \<not> is_ok (primary_decode [0x29, 0x23, 0xC0, 0x01, 0x00, 0x04]))]"

section \<open>Nine frames\<close>

definition main_build_frame :: "(bytes \<Rightarrow> u16) \<Rightarrow> u16 \<Rightarrow> u8 \<Rightarrow> u16 \<Rightarrow> u16 \<Rightarrow> bytes exec" where
  "main_build_frame crc16 a vc_id seq func_code =
     (let user_data = (replicate demo_user_data_len 0)[0 := ucast (drop_bit 8 seq), 1 := ucast (seq AND 0xFF)] in
      exec_bind (demo_packet a seq func_code user_data) (\<lambda>pkt.
      if length pkt \<noteq> demo_data_field_len then Panicked
      else
        let fr = replicate aos_frame_len 0;
            fr = fr[0 := push_bit 6 0b01 OR drop_bit 2 demo_scid];
            fr = fr[1 := push_bit 6 (demo_scid AND 0x03) OR (vc_id AND 0x3F)];
            fr = fr[4 := ucast (seq AND 0xFF)];
            fr = fr[5 := 0];
            fr = copy_into fr 6 pkt;
            fecf = crc16 (take (aos_frame_len - 2) fr);
            fr = fr[aos_frame_len - 2 := be16 fecf ! 0]
        in Returned (fr[aos_frame_len - 1 := be16 fecf ! 1])))"

definition nine_packets :: "(u16 \<times> u8 \<times> u16) list" where
  "nine_packets =
     [(0x101, 0, 1), (0x110, 0, 2), (0x120, 0, 3), (0x130, 0, 4), (0x140, 0, 5), (0x102, 1, 6),
      (0x300, 3, 7), (0x540, 0, 8), (0x7FF, 63, 9)]"

fun nine_frames :: "(bytes \<Rightarrow> u16) \<Rightarrow> (u16 \<times> u8 \<times> u16) list \<Rightarrow> bytes list exec" where
  "nine_frames crc16 [] = Returned []"
| "nine_frames crc16 ((a, vc_id, seq) # ps) =
     exec_bind (main_build_frame crc16 a vc_id seq (seq + 1)) (\<lambda>fr.
     exec_bind (nine_frames crc16 ps) (\<lambda>frs. Returned (fr # frs)))"

section \<open>The router task of the test\<close>

record test_sinks =
  rs_router :: apid_router
  rs_hk :: "bytes bqueue"
  rs_event :: "bytes bqueue"
  rs_cfdp :: "bytes bqueue"
  rs_rover :: "bytes bqueue"

definition test_sinks_new :: test_sinks where
  "test_sinks_new =
     \<lparr>rs_router = router_new, rs_hk = fresh_queue router_to_hk_cap, rs_event = fresh_queue router_to_event_cap,
      rs_cfdp = fresh_queue router_to_cfdp_cap, rs_rover = fresh_queue router_to_rover_cap\<rparr>"

definition router_loop_turn :: "u8 \<times> bytes \<Rightarrow> test_sinks \<Rightarrow> test_sinks exec" where
  "router_loop_turn tagged s =
     exec_bind (unwrap (sp_parse (snd tagged))) (\<lambda>pkt.
     case route_packet (rs_router s) (fst tagged) pkt of (decision, r) \<Rightarrow>
       let s = s\<lparr>rs_router := r\<rparr>; bs = snd tagged in
       Returned (case decision of
           Hk \<Rightarrow> s\<lparr>rs_hk := offer bqueue_ops (rs_hk s) bs\<rparr>
         | EventLog \<Rightarrow> s\<lparr>rs_event := offer bqueue_ops (rs_event s) bs\<rparr>
         | CfdpPdu \<Rightarrow> s\<lparr>rs_cfdp := offer bqueue_ops (rs_cfdp s) bs\<rparr>
         | RoverForward \<Rightarrow> s\<lparr>rs_rover := offer bqueue_ops (rs_rover s) bs\<rparr>
         | IdleFill \<Rightarrow> s
         | Rejected _ \<Rightarrow> s))"

fun router_loop :: "test_sinks \<Rightarrow> (u8 \<times> bytes) list \<Rightarrow> test_sinks exec" where
  "router_loop s [] = Returned s"
| "router_loop s (t # ts) = exec_bind (router_loop_turn t s) (\<lambda>s. router_loop s ts)"

text \<open>What the router task receives in a run, and the counts that the test asserts.\<close>

definition all_routed :: "pipeline_event list \<Rightarrow> (u8 \<times> bytes) list" where
  "all_routed es = concat (map (\<lambda>e. case e of Routed vc bs \<Rightarrow> [(vc, bs)] | _ \<Rightarrow> []) es)"

definition sink_counts :: "test_sinks \<Rightarrow> nat \<times> nat \<times> nat" where
  "sink_counts s = (length (bq_items (rs_hk s)), length (bq_items (rs_event s)), length (bq_items (rs_rover s)))"

section \<open>The frames\<close>

lemma main_header_tests_pass: "all_pass header_tests"
  by code_simp

lemma main_build_frame_demo:
  "main_build_frame crc16 a vc seq fc =
     demo_aos_frame crc16 a vc seq fc [ucast (drop_bit 8 seq), ucast (seq AND 0xFF)]"
proof -
  have "(replicate 1000 0 :: bytes) = [0, 0] @ replicate 998 0"
    using replicate_add [of 2 998 "0 :: u8"] by (simp add: numeral_eq_Suc)
  then have "(replicate demo_user_data_len 0)[0 := x, 1 := y] =
      copy_into (replicate demo_user_data_len 0) 0 (take (min (Suc (Suc 0)) demo_user_data_len) [x, y])" for x y :: u8
    by (simp add: copy_into_def demo_consts)
  then show ?thesis
    by (simp add: main_build_frame_def demo_aos_frame_def)
qed

text \<open>A packet of the test as a catalogue entry of the demonstration.\<close>

definition as_tx :: "u16 \<times> u8 \<times> u16 \<Rightarrow> tx_packet" where
  "as_tx = (\<lambda>(a, vc, seq). \<lparr>tp_label = [], tp_apid = a, tp_vc_id = vc,
     tp_payload_head = [ucast (drop_bit 8 seq), ucast (seq AND 0xFF)], tp_func_code = seq + 1\<rparr>)"

lemma nine_frames_carry:
  assumes "\<forall>(a, vc, seq) \<in> set ps. tx_ok (as_tx (a, vc, seq)) \<and> sc_ok (SequenceCount seq)"
  shows "\<exists>frames. nine_frames crc16 ps = Returned frames \<and> list_all2 (demo_carries crc16) (map as_tx ps) frames"
  using assms
proof (induction ps)
  case (Cons p ps)
  obtain a vc seq where p: "p = (a, vc, seq)" by (metis prod_cases3)
  obtain fr where "main_build_frame crc16 a vc seq (seq + 1) = Returned fr" "demo_carries crc16 (as_tx p) fr"
    using demo_frame_carries [of "as_tx p" seq crc16] Cons.prems p
    by (auto simp: main_build_frame_demo as_tx_def)
  then show ?case using Cons p by auto
qed simp

lemma nine_packets_ok: "\<forall>(a, vc, seq) \<in> set nine_packets. tx_ok (as_tx (a, vc, seq)) \<and> sc_ok (SequenceCount seq)"
  by (simp add: nine_packets_def tx_ok_def as_tx_def apid_ok_def apid_max_def sc_ok_def sc_max_def)

section \<open>The stream through the framer\<close>

lemma frames_in_concat: "list_all (\<lambda>d. length d = 1024) ds \<Longrightarrow> frames_in (concat ds) = ds"
  by (induction ds) (simp_all add: frames_in.simps)

lemma carried_frame:
  assumes "demo_carries crc16 p fr"
  shows "frame_valid crc16 fr" "frame_of fr = \<lparr>af_vc_id = tp_vc_id p, af_ocf = None, af_data = data_of fr\<rparr>"
  using assms process_frame_outs(1) [of fr crc16 undefined undefined]
  by (auto simp: demo_carries_def split: if_splits)

lemma carried_stream:
  assumes "list_all2 (demo_carries crc16) ps frames"
  shows "forwarded (fst (framer_run crc16 clock i f (concat frames) fin)) =
    map2 (\<lambda>p fr. \<lparr>af_vc_id = tp_vc_id p, af_ocf = None, af_data = data_of fr\<rparr>) ps frames"
proof -
  have "list_all (\<lambda>d. length d = 1024) frames"
    using assms by (induction rule: list_all2_induct) (simp_all add: demo_carries_def)
  then have "forwarded (fst (framer_run crc16 clock i f (concat frames) fin)) =
      map frame_of (filter (frame_valid crc16) frames)"
    by (simp add: framer_run_outputs frames_in_concat)
  also have "\<dots> = map2 (\<lambda>p fr. \<lparr>af_vc_id = tp_vc_id p, af_ocf = None, af_data = data_of fr\<rparr>) ps frames"
    using assms by (induction rule: list_all2_induct) (simp_all add: carried_frame)
  finally show ?thesis .
qed

section \<open>The router task\<close>

definition decided :: "route \<Rightarrow> u8 \<times> bytes \<Rightarrow> bool" where
  "decided r t = (case sp_parse (snd t) of Inl _ \<Rightarrow> False | Inr k \<Rightarrow> fst (route_packet router_new (fst t) k) = r)"

lemma offer_room:
  "length (bq_items q) < bq_cap q \<Longrightarrow> offer bqueue_ops q x = q\<lparr>bq_items := bq_items q @ [x]\<rparr>"
  by (simp add: offer_def bqueue_ops_def bq_try_send_def)

definition sinks_room :: "nat \<Rightarrow> test_sinks \<Rightarrow> bool" where
  "sinks_room n s \<longleftrightarrow> (\<forall>q \<in> {rs_hk s, rs_event s, rs_rover s}. length (bq_items q) + n \<le> bq_cap q)"

lemma router_loop_counts:
  assumes "\<forall>t \<in> set ts. is_ok (sp_parse (snd t))" "sinks_room (length ts) s"
  shows "\<exists>s'. router_loop s ts = Returned s' \<and> sink_counts s' =
    (length (bq_items (rs_hk s)) + length (filter (decided Hk) ts),
     length (bq_items (rs_event s)) + length (filter (decided EventLog) ts),
     length (bq_items (rs_rover s)) + length (filter (decided RoverForward) ts))"
  using assms
proof (induction ts arbitrary: s)
  case (Cons t ts)
  obtain k where k: "sp_parse (snd t) = Inr k" using Cons.prems(1) by (auto simp: is_ok_iff)
  obtain d r where d: "route_packet (rs_router s) (fst t) k = (d, r)" by fastforce
  have dec: "decided x t \<longleftrightarrow> d = x" for x
    using d k by (simp add: decided_def route_state_free [of router_new _ _ "rs_router s"])
  obtain s1 where s1: "router_loop_turn t s = Returned s1" "sinks_room (length ts) s1"
    "length (bq_items (rs_hk s1)) = length (bq_items (rs_hk s)) + (if d = Hk then 1 else 0)"
    "length (bq_items (rs_event s1)) = length (bq_items (rs_event s)) + (if d = EventLog then 1 else 0)"
    "length (bq_items (rs_rover s1)) = length (bq_items (rs_rover s)) + (if d = RoverForward then 1 else 0)"
    using Cons.prems(2) k d
    by (cases d) (simp_all add: router_loop_turn_def sinks_room_def offer_room Let_def unwrap_def)
  then show ?case
    using Cons.IH [OF _ s1(2)] Cons.prems(1) by (auto simp: dec)
qed (simp add: sink_counts_def)

section \<open>What is routed\<close>

lemma trace_routed_served:
  assumes "pipeline_trace tc fo bo wo pl es pl'" "chan_laws wo"
    and "\<forall>t \<in> set (ch_items wo (pl_tagged pl)). fst t \<in> served_vcs"
  shows "(\<forall>t \<in> set (ch_items wo (pl_tagged pl')). fst t \<in> served_vcs) \<and> (\<forall>t \<in> set (all_routed es). fst t \<in> served_vcs)"
  using assms(1,3)
proof induction
  case (extend pl es pl' e pl'')
  then have IH: "\<forall>t \<in> set (ch_items wo (pl_tagged pl')). fst t \<in> served_vcs" "\<forall>t \<in> set (all_routed es). fst t \<in> served_vcs"
    by simp_all
  have app: "all_routed (es @ [e]) = all_routed es @ all_routed [e]" by (simp add: all_routed_def)
  from extend(2) have "(\<forall>t \<in> set (ch_items wo (pl_tagged pl'')). fst t \<in> served_vcs) \<and> (\<forall>t \<in> set (all_routed [e]). fst t \<in> served_vcs)"
  proof cases
    case (relay_send v bs ch)
    then show ?thesis using IH(1) chan_sendD [OF assms(2) relay_send(5)] by (auto simp: all_routed_def)
  next
    case (route v bs ch lf)
    then show ?thesis using IH(1) chan_recvD [OF assms(2) route(3)] by (auto simp: all_routed_def)
  qed (use IH(1) in \<open>simp_all add: all_routed_def\<close>)
  then show ?case using IH(2) by (auto simp: app)
qed (simp add: all_routed_def)

lemma routed_by_channel:
  assumes "\<forall>t \<in> set (all_routed es). fst t \<in> served_vcs"
  shows "length (filter P (all_routed es)) = (\<Sum>vc \<in> served_vcs. length (filter (\<lambda>bs. P (vc, bs)) (routed_on vc es)))"
  using assms
proof (induction es)
  case (Cons e es)
  have split: "all_routed (e # es) = all_routed [e] @ all_routed es" "routed_on vc (e # es) = routed_on vc [e] @ routed_on vc es" for vc
    by (simp_all add: all_routed_def routed_on_def)
  have "length (filter P (all_routed [e])) = (\<Sum>vc \<in> served_vcs. length (filter (\<lambda>bs. P (vc, bs)) (routed_on vc [e])))"
  proof (cases e)
    case (Routed v bs)
    have "length (filter (\<lambda>bs. P (vc, bs)) (routed_on vc [e])) = (if vc = v then length (filter P [(v, bs)]) else 0)" for vc
      using Routed by auto
    moreover have "v \<in> served_vcs" using Cons.prems Routed by (simp add: all_routed_def)
    ultimately show ?thesis using Routed finite_served by (simp add: all_routed_def)
  qed (simp_all add: all_routed_def)
  then show ?case using Cons by (simp add: split sum.distrib)
qed (simp add: all_routed_def)

lemma framed_on_all: "framed_on vc es = map af_data (filter (\<lambda>fr. af_vc_id fr = vc) (all_framed es))"
  by (induction es) (auto simp: framed_on_def all_framed_def split: pipeline_event.split)

lemma frames_sent_all: "frames_sent es = length (all_framed es)"
  by (induction es) (auto simp: frames_sent_def all_framed_def split: pipeline_event.split)

definition nine_routes :: "route list" where
  "nine_routes = [Hk, Hk, Hk, Hk, Hk, EventLog, RoverForward, Rejected ForbiddenFaultInjectApid, IdleFill]"

lemma nine_routes_to: "list_all2 routes_to (map as_tx nine_packets) nine_routes"
  by (simp add: nine_packets_def as_tx_def nine_routes_def routes_to_def route_decision)

lemma carried_decided:
  assumes "list_all2 (demo_carries crc16) ps frames" "list_all2 routes_to ps rs"
  shows "length (filter (\<lambda>bs. decided r (vc, bs)) (parsing (map af_data (filter (\<lambda>fr. af_vc_id fr = vc)
      (map2 (\<lambda>p fr. \<lparr>af_vc_id = tp_vc_id p, af_ocf = None, af_data = data_of fr\<rparr>) ps frames))))) =
    length (filter (\<lambda>(p, r'). tp_vc_id p = vc \<and> r' = r) (zip ps rs))"
  using assms
proof (induction ps frames arbitrary: rs rule: list_all2_induct)
  case (Cons p ps fr frames)
  obtain r' rs' where rs: "rs = r' # rs'" "routes_to p r'" "list_all2 routes_to ps rs'"
    using Cons.prems by (auto simp: list_all2_Cons1)
  obtain k where "sp_parse (data_of fr) = Inr k" "pkt_apid k = unat (tp_apid p)"
    using Cons.hyps(1) by (auto simp: demo_carries_def)
  with rs(2) have "sp_parse (data_of fr) = Inr k" "fst (route_packet router_new (tp_vc_id p) k) = r'"
    by (simp_all add: routes_to_def)
  then show ?case
    using Cons.IH [OF rs(3)] rs(1) by (auto simp: decided_def)
qed simp

lemma settled_run_counts:
  assumes carried: "list_all2 (demo_carries crc16) (map as_tx nine_packets) frames"
    and run: "pipeline_trace tc fo bo wo (pipeline_new mkf mkb mkw q) es pl"
    and framed: "all_framed es = forwarded (fst (framer_run crc16 clock 0 framer_new (concat frames) Eof))"
    and rest: "at_rest tc fo bo wo pl"
    and "chan_laws fo" "chan_laws bo" "chan_laws wo"
    and "all_fresh fo mkf" "all_fresh bo mkb" "all_fresh wo mkw"
    and "chan_capacity fo fcap" "chan_capacity bo bcap" "\<forall>n. fcap (mkf n) = n" "\<forall>n. bcap (mkb n) = n"
    and "chan_live fo" "chan_live bo" "chan_live wo" "chan_roomy wo"
  shows "\<exists>s. router_loop test_sinks_new (all_routed es) = Returned s \<and> sink_counts s = (5, 1, 1)"
proof -
  let ?sent = "map2 (\<lambda>p fr. \<lparr>af_vc_id = tp_vc_id p, af_ocf = None, af_data = data_of fr\<rparr>) (map as_tx nine_packets) frames"
  have sent: "all_framed es = ?sent" using framed carried_stream [OF carried] by simp
  have few: "frames_sent es \<le> 64"
    using list_all2_lengthD [OF carried] by (simp add: frames_sent_all sent nine_packets_def)
  have routed: "routed_on vc es = parsing (framed_on vc es)" if "vc \<in> served_vcs" for vc
    by (rule routed_at_rest [OF run few that assms(5-) rest])
  have "\<forall>t \<in> set (ch_items wo (pl_tagged (pipeline_new mkf mkb mkw q))). fst t \<in> served_vcs"
    using assms(10) by (simp add: pipeline_new_def all_fresh_def)
  from trace_routed_served [OF run assms(7) this]
  have served: "\<forall>t \<in> set (all_routed es). fst t \<in> served_vcs" by blast
  have counts: "length (filter (decided r) (all_routed es)) =
      (\<Sum>vc \<in> {0, 1, 2, 3}. length (filter (\<lambda>(p, r'). tp_vc_id p = vc \<and> r' = r) (zip (map as_tx nine_packets) nine_routes)))" for r
    using carried_decided [OF carried nine_routes_to, of r]
    by (simp add: routed_by_channel [OF served] routed framed_on_all sent served_vcs_def)
  have parse: "is_ok (sp_parse (snd t))" if t: "t \<in> set (all_routed es)" for t
  proof -
    have "snd t \<in> set (routed_on (fst t) es)"
      using t by (force simp: all_routed_def routed_on_def split: pipeline_event.splits)
    then show ?thesis using routed served t by auto
  qed
  have "length (all_routed es) = (\<Sum>vc \<in> served_vcs. length (routed_on vc es))"
    using routed_by_channel [OF served, of "\<lambda>_. True"] by simp
  also have "\<dots> \<le> (\<Sum>vc \<in> served_vcs. 64)"
    using framed_on_length few routed by (intro sum_mono) (metis length_filter_le order_trans)
  finally have "sinks_room (length (all_routed es)) test_sinks_new"
    by (simp add: served_vcs_def sinks_room_def test_sinks_new_def fresh_queue_def router_to_hk_cap_def
        router_to_event_cap_def router_to_rover_cap_def)
  moreover have "length (filter (decided Hk) (all_routed es)) = 5"
    "length (filter (decided EventLog) (all_routed es)) = 1"
    "length (filter (decided RoverForward) (all_routed es)) = 1"
    by (simp_all add: counts nine_packets_def nine_routes_def as_tx_def)
  ultimately show ?thesis
    using router_loop_counts [of "all_routed es"] parse by (force simp: test_sinks_new_def fresh_queue_def)
qed

section \<open>Properties\<close>

text \<open>
  The end-to-end test of \<open>main.rs\<close> holds for every scheduling of the tasks: the nine frames are built
  without a panic, some run of the task graph that receives what the framer makes of their bytes comes to
  rest, and in every such run the router task of the test returns with five housekeeping packets,
  one event and one rover packet sent to the sinks.
\<close>

theorem pipeline_routes_nine_packets:
  assumes "chan_laws fo" "chan_laws bo" "chan_laws wo"
    and "all_fresh fo mkf" "all_fresh bo mkb" "all_fresh wo mkw"
    and "chan_capacity fo fcap" "chan_capacity bo bcap" "\<forall>n. fcap (mkf n) = n" "\<forall>n. bcap (mkb n) = n"
    and "chan_live fo" "chan_live bo" "chan_live wo" "chan_roomy wo"
  shows "\<exists>frames. nine_frames crc16 nine_packets = Returned frames
    \<and> (\<exists>es pl. pipeline_trace tc fo bo wo (pipeline_new mkf mkb mkw q) es pl
        \<and> all_framed es = forwarded (fst (framer_run crc16 clock 0 framer_new (concat frames) Eof))
        \<and> at_rest tc fo bo wo pl)
    \<and> (\<forall>es pl. pipeline_trace tc fo bo wo (pipeline_new mkf mkb mkw q) es pl
        \<and> all_framed es = forwarded (fst (framer_run crc16 clock 0 framer_new (concat frames) Eof))
        \<and> at_rest tc fo bo wo pl
        \<longrightarrow> (\<exists>s. router_loop test_sinks_new (all_routed es) = Returned s \<and> sink_counts s = (5, 1, 1)))"
proof -
  obtain frames where frames: "nine_frames crc16 nine_packets = Returned frames"
    "list_all2 (demo_carries crc16) (map as_tx nine_packets) frames"
    using nine_frames_carry [OF nine_packets_ok] by blast
  have "length (forwarded (fst (framer_run crc16 clock 0 framer_new (concat frames) Eof))) \<le> 64"
    using list_all2_lengthD [OF frames(2)] by (simp add: carried_stream [OF frames(2)] nine_packets_def)
  from burst_settles [OF this assms(1-4,7,9)]
  have "\<exists>es pl. pipeline_trace tc fo bo wo (pipeline_new mkf mkb mkw q) es pl
      \<and> all_framed es = forwarded (fst (framer_run crc16 clock 0 framer_new (concat frames) Eof))
      \<and> at_rest tc fo bo wo pl" .
  then show ?thesis
    by (intro exI [of _ frames] conjI allI impI frames(1))
      (assumption, elim conjE, rule settled_run_counts [OF frames(2) _ _ _ assms])
qed

end
