(* ===== verification/Spec2Isabelle.thy ===== *)
theory Spec2Isabelle
  imports Cfs_Bindings Uplink_Cop1 Uplink_Builder Uplink_Framer Cfdp Mfile Ground_Station Pipeline_Burst
    Demo_Pipeline Demo_Bridge Demo_Uplink Demo_Mfile Demo_Cfdp
    Tests_Props Tests_Bindings Tests_Ingest Tests_Framer Tests_Ui Tests_Uplink Tests_Cfdp Tests_Mfile Tests_Main
begin

text \<open>
  Verification of the ground segment of the SAKURA-II mission, the Rust workspace under \<open>src/rust\<close>.

  \<^bold>\<open>The program.\<close>  Three crates.  \<open>ccsds_wire\<close> encodes and decodes CCSDS space packets.
  \<open>cfs_bindings\<close> wraps the same packets as messages of the flight software bus.
  \<open>ground_station\<close> is the station itself.  Its ingest path is a chain of tasks connected by bounded
  queues: the framer cuts the byte stream into 1024-byte AOS frames and watches the link, the
  demultiplexer hands each frame to its virtual channel, one decoder per channel takes the space
  packet out of the frame, the router decides by channel and APID where a packet goes, and the sinks
  keep the newest housekeeping and events in a store.  An HTTP server reads the store and accepts
  telecommands, which a dispatcher takes from a queue.  Beside them stand the uplink (telecommand
  builder, FOP-1 engine, transfer frame encoder), two receivers of files (CFDP class 1 and the
  mission file assembler), an injector of demonstration telemetry, and five demonstrations that
  drive these parts end to end.

  \<^bold>\<open>Theories and sources.\<close>  Names follow the code; a definition has the name of the function or type
  it models, with a prefix where the code has the same name in several modules.

  \<^item> \<open>Prelude\<close>, \<open>Codec\<close>, \<open>Tables\<close>, \<open>Text\<close>, \<open>File_System\<close>: what the parts share.  Machine integers,
    \<open>Result\<close> as a sum, a panic as a value of \<open>exec\<close>, slices; the contract of a decoder
    (\<open>exact_codec\<close>, \<open>fixed_codec\<close>); the contract of \<open>HashMap\<close> and \<open>BTreeMap\<close> (\<open>table\<close>); \<open>str\<close> and
    \<open>Path\<close> functions; the calls of \<open>std::fs\<close>.
  \<^item> \<open>Ccsds_Types\<close>, \<open>Ccsds_Headers\<close>, \<open>Ccsds_Packet\<close>: \<open>ccsds_wire/src\<close>.
  \<^item> \<open>Cfs_Bindings\<close>: \<open>cfs_bindings/src/message.rs\<close> and \<open>convert.rs\<close>.
  \<^item> \<open>Ingest_Types\<close>, \<open>Ingest_Framer\<close>, \<open>Ingest_Demux\<close>, \<open>Ingest_Decoder\<close>, \<open>Ingest_Router\<close>,
    \<open>Ingest_Sinks\<close>: the files of \<open>ground_station/src/ingest\<close>; \<open>Rate_Limit\<close> is the warning limit that
    four modules share.
  \<^item> \<open>Ui_Time\<close>, \<open>Ui_State\<close>, \<open>Ui_Server\<close>: \<open>ui/time.rs\<close>, \<open>ui/mod.rs\<close> and \<open>uplink/dispatcher.rs\<close>.
  \<^item> \<open>Pipeline\<close>, \<open>Pipeline_Drain\<close>, \<open>Pipeline_Burst\<close>, \<open>Ground_Station\<close>: the tasks that \<open>main.rs\<close> spawns.  A step of
    \<open>pipeline_step\<close> is one turn of one ingest task, a step of \<open>station_step\<close> is such a turn, the
    answer to a request, or an entry taken by the dispatcher; every interleaving is a trace.
  \<^item> \<open>Uplink_Builder\<close>, \<open>Uplink_Cop1\<close>, \<open>Uplink_Framer\<close>: \<open>uplink/builder.rs\<close>, \<open>cop1.rs\<close>, \<open>framer.rs\<close>.
  \<^item> \<open>Cfdp\<close>: \<open>cfdp/mod.rs\<close>, \<open>adapter.rs\<close>, \<open>class1.rs\<close>.  \<open>Mfile\<close>: \<open>mfile/mod.rs\<close>.
  \<^item> \<open>Injector\<close>: \<open>bin/demo_injector.rs\<close>.  \<open>Demo_Pipeline\<close>, \<open>Demo_Bridge\<close>, \<open>Demo_Uplink\<close>,
    \<open>Demo_Mfile\<close>, \<open>Demo_Cfdp\<close>: \<open>examples/pipeline_demo.rs\<close>, \<open>cfs_bridge.rs\<close>,
    \<open>uplink_session.rs\<close>, \<open>mfile_reassembly.rs\<close>, \<open>cfdp_session.rs\<close>.
  \<^item> \<open>Tests_Wire\<close>, \<open>Tests_Props\<close>, \<open>Tests_Bindings\<close>, \<open>Tests_Ingest\<close>, \<open>Tests_Framer\<close>, \<open>Tests_Ui\<close>,
    \<open>Tests_Uplink\<close>, \<open>Tests_Cfdp\<close>, \<open>Tests_Mfile\<close>, \<open>Tests_Main\<close>: the \<open>mod tests\<close> of the source files,
    see Conformance.

  \<^bold>\<open>How state and effects are modelled.\<close>  A struct is a record with the code's fields and a
  method returns the updated record.  Counters are words and wrap; \<open>usize\<close> is \<open>nat\<close>.  An error is the
  left side of a sum, a panic the value \<open>Panicked\<close>.  What a task sends or logs as an event is a list it
  returns; plain log lines are left out.  A clock reading is an argument of the operation that reads
  the clock.  A \<open>String\<close> is the list of its UTF-8 bytes.  An \<open>f64\<close> is \<open>NaN\<close>, an infinity or
  a rational, and rounding is an argument.

  \<^bold>\<open>Code from elsewhere\<close> is an argument with named laws.  The queues and watch channels of
  \<open>tokio\<close> (\<open>chan_laws\<close>: first in, first out, a refused send leaves the queue alone; \<open>chan_live\<close>: what
  is queued can be received; \<open>chan_capacity\<close>: only a full queue refuses), the CRC engine (any
  function), the \<open>time\<close> crate (\<open>time_crate\<close>), the request matcher of \<open>axum\<close> (\<open>routes_by_table\<close>), the
  serialiser, and the rounding of floats (\<open>ieee_rounding\<close>: monotone, and exact on values of up to 53
  significant bits; the station needs exact integers only).  Every law has an instance in the development, and every property that
  uses one has a witness with that instance.

  \<^bold>\<open>What is shown.\<close>

  \<^item> \<^bold>\<open>Wire formats.\<close>  \<open>SpacePacket::parse\<close> accepts exactly the images of well-formed packets, \<open>build\<close>
    followed by \<open>parse\<close> is the identity, every packet keeps the ranges of its newtypes, and \<open>build\<close>
    fails exactly where it says.  The interpretations of \<open>fixed_codec\<close> give the header codecs.
  \<^item> \<^bold>\<open>Ingest.\<close>  Each stage has an exact functional description over any input list (framer,
    decoder), an accounting invariant (demultiplexer) or a store theorem (sinks); the link monitor
    with its pruned window is a function of the whole observation history.  For the task graph:
    order and integrity per channel, isolation of forbidden APIDs, progress of a housekeeping packet,
    delivery of every burst of up to 64 frames without loss, and termination, with \<open>work_left\<close> a bound
    on the turns that remain once no frame arrives.
  \<^item> \<^bold>\<open>Station.\<close>  The station with server and dispatcher refines the task graph, and only
    telecommands in time are dispatched; the server can change nothing but the telecommand queue.
  \<^item> \<^bold>\<open>Uplink.\<close>  The invariant of the FOP-1 engine in every reachable state, the fate of every accepted
    telecommand (confirmed by an N(R), dropped by a logged abort, discarded by an initialisation or
    outstanding), the retransmission limit over any mixture of requests, the exact refusals of the builder, the frame round trip.
  \<^item> \<^bold>\<open>Files.\<close>  Both receivers assemble a file whatever the order, repetition and interleaving of its
    pieces.  For CFDP the outcome of a transaction is a function of its own well-formed PDUs alone.
  \<^item> \<^bold>\<open>Demonstrations.\<close>  The announced results hold for every order of arrival and every clock, and no
    step panics; the injector's frames are well formed, and every packet in them is lost by the decoder.

  \<^bold>\<open>Where the code and its documents differ\<close> the theorem states what the code does and its text says
  so: the acquisition rule of the link monitor, the time-suspect badge, housekeeping kept per APID
  instead of per instance, unvalidated telecommand parameters, the unchecked completion of CFDP
  transactions, the deadlines of both file receivers, the number of retransmissions.

  \<^bold>\<open>Conformance.\<close>  The unit tests that stand beside the code are translated too: a \<open>unit_test\<close> is the
  name of the test and whether its assertions hold on the model.  The theorems named \<open>..._tests_pass\<close>
  prove every one of them, for every CRC routine, clock, directory and calendar that the test does
  not fix, and \<open>pipeline_routes_nine_packets\<close> proves the end-to-end test for every scheduling of the
  tasks.  \<open>ccsds_wire_properties_hold\<close> proves the property-based tests of the codecs for every
  value that they draw from.  They tie the definitions to what the program's authors expect of the
  code.  Left out are the tests of what is not modelled: the serialiser, the HTTP routes, the
  generated identifiers and the measured latency of the framer.

  \<^bold>\<open>Bounds and fuel.\<close>  No definition takes fuel.  Loops over input are recursions on the list of
  what is read; the reading loop of the framer recurses on the bytes left, with a proof of termination.
  Traces are finite and of any length.  Quantities bounded in the code (16 transactions, 64 queued
  telecommands, 20 housekeeping frames, 15 outstanding frames) are bounded by proofs about the code's own checks.

  \<^bold>\<open>Not modelled.\<close>  Sockets, command-line arguments, the environment and
  signals; the JSON encoding, the websocket upgrade, cross-origin headers and the static file handler
  of the server, which are calls into \<open>serde\<close>, \<open>axum\<close> and \<open>tower\<close> without logic of their own; printing
  and log lines; \<open>cfs_bindings/src/mids.rs\<close>, \<open>lib.rs\<close> and \<open>build.rs\<close>, whose constants the build
  generates from C headers; crate roots and the lint probe.  The flight software (C), the rover
  software (C++), the operator interface (TypeScript) and the simulation are other programs.
\<close>

end
